(* ===== verification/Prelude.thy ===== *)
theory Prelude
  imports Main "HOL-Library.Word" "HOL-Library.AList" "HOL-Library.Multiset"
begin

text \<open>
  Shared vocabulary of the development.

  \<^item> Machine integers: Go's \<open>int32\<close> is \<open>32 word\<close>, read through \<open>sint\<close>; \<open>+\<close> and \<open>-\<close> wrap as
    Go's do. Go's \<open>int\<close> (64 bits on the supported targets) is \<open>int\<close> where it only counts
    in-memory objects; conversions \<open>int32(x)\<close> are \<open>word_of_int\<close>.
  \<^item> Time: \<open>time.Time\<close> is an \<open>int\<close> number of nanoseconds since Go's zero time, so the zero
    value of the type is \<open>0\<close>; \<open>time.Duration\<close> is an \<open>int\<close> in the range of \<open>int64\<close>.
    \<open>time.Now()\<close> is an argument \<open>now\<close> of every operation that reads the clock.
  \<^item> Go maps with string keys are association lists with distinct keys. A \<open>range\<close> over a map
    visits the entries in the order of the list. Go leaves that order open; the theorems hold for
    every well-formed list, hence for every order.
  \<^item> Errors and panics are values of sum types, \<open>Inl\<close> for the failure.
\<close>

section \<open>Collections of facts\<close>

named_theorems go_map_simps \<open>lookup and well-formedness of Go maps under writes\<close>
named_theorems go_time_simps \<open>clock arithmetic\<close>
named_theorems go_str_simps \<open>string library\<close>
named_theorems inv_intros \<open>operations that keep a component's invariant\<close>

section \<open>Machine integers\<close>

type_synonym i32 = "32 word"

lemma sint_i32_bounds: "- (2 ^ 31) \<le> sint (x :: i32) \<and> sint x < 2 ^ 31"
  using sint_greater_eq [of x] sint_lt [of x] by simp

lemma sint_i32_of_int:
  "- (2 ^ 31) \<le> n \<Longrightarrow> n < 2 ^ 31 \<Longrightarrow> sint (word_of_int n :: i32) = n"
  by (simp add: sint_sbintrunc' signed_take_bit_int_eq_self)

lemma sint_i32_add:
  fixes a b :: i32
  assumes "- (2 ^ 31) \<le> sint a + sint b" and "sint a + sint b < 2 ^ 31"
  shows "sint (a + b) = sint a + sint b"
proof -
  have "a + b = word_of_int (sint a + sint b)" by simp
  then show ?thesis using assms sint_i32_of_int by metis
qed

lemma sint_i32_sub:
  fixes a b :: i32
  assumes "- (2 ^ 31) \<le> sint a - sint b" and "sint a - sint b < 2 ^ 31"
  shows "sint (a - b) = sint a - sint b"
proof -
  have "a - b = word_of_int (sint a - sint b)" by simp
  then show ?thesis using assms sint_i32_of_int by metis
qed

text \<open>A sum of non-negative \<open>int32\<close> values does not wrap while the exact sum fits.\<close>

lemma sint_i32_sum_list:
  fixes ws :: "i32 list"
  assumes "\<And>w. w \<in> set ws \<Longrightarrow> 0 \<le> sint w" and "sum_list (map sint ws) < 2 ^ 31"
  shows "sint (sum_list ws) = sum_list (map sint ws)"
  using assms
proof (induction ws)
  case Nil
  then show ?case by simp
next
  case (Cons w ws)
  have rest: "0 \<le> sum_list (map sint ws)"
    using Cons.prems(1) by (intro sum_list_nonneg) auto
  moreover have "0 \<le> sint w" using Cons.prems(1) by simp
  ultimately have small: "sum_list (map sint ws) < 2 ^ 31" using Cons.prems(2) by simp
  have IH: "sint (sum_list ws) = sum_list (map sint ws)"
    using Cons.IH Cons.prems(1) small by simp
  have "sint (w + sum_list ws) = sint w + sint (sum_list ws)"
    using IH rest \<open>0 \<le> sint w\<close> Cons.prems(2) by (intro sint_i32_add) simp_all
  then show ?case using IH by simp
qed

section \<open>Clock arithmetic\<close>

type_synonym time = int
type_synonym duration = int

definition i64_max :: int where "i64_max = 2 ^ 63 - 1"
definition i64_min :: int where "i64_min = - (2 ^ 63)"

text \<open>\<open>t.Sub(u)\<close> saturates at the ends of \<open>time.Duration\<close>; products of durations wrap.\<close>

definition time_sub :: "time \<Rightarrow> time \<Rightarrow> duration" where
  "time_sub t u = max i64_min (min i64_max (t - u))"

definition wrap64 :: "int \<Rightarrow> int" where
  "wrap64 x = (x + 2 ^ 63) mod 2 ^ 64 - 2 ^ 63"

definition dur_mul :: "duration \<Rightarrow> int \<Rightarrow> duration" where
  "dur_mul d k = wrap64 (d * k)"

abbreviation milliseconds :: "int \<Rightarrow> duration" where "milliseconds n \<equiv> n * 1000000"
abbreviation seconds :: "int \<Rightarrow> duration" where "seconds n \<equiv> n * 1000000000"

lemma wrap64_id [go_time_simps]: "i64_min \<le> x \<Longrightarrow> x \<le> i64_max \<Longrightarrow> wrap64 x = x"
  by (simp add: wrap64_def i64_min_def i64_max_def)

lemma time_sub_gt [go_time_simps]:
  "0 \<le> d \<Longrightarrow> d < i64_max \<Longrightarrow> time_sub t u > d \<longleftrightarrow> t - u > d"
  by (auto simp: time_sub_def i64_min_def i64_max_def)

lemma time_sub_ge [go_time_simps]:
  "0 \<le> d \<Longrightarrow> d \<le> i64_max \<Longrightarrow> time_sub t u \<ge> d \<longleftrightarrow> t - u \<ge> d"
  by (auto simp: time_sub_def i64_min_def i64_max_def)

lemma time_sub_self [simp]: "time_sub t t = 0"
  by (simp add: time_sub_def i64_min_def i64_max_def)

section \<open>Go maps\<close>

type_synonym 'v gomap = "(string \<times> 'v) list"

abbreviation wf_map :: "('k \<times> 'v) list \<Rightarrow> bool" where
  "wf_map m \<equiv> distinct (map fst m)"

declare map_of_eq_Some_iff [simp del] Some_eq_map_of_iff [simp del]

text \<open>The interface every keyed store of the program offers: read after write, read after delete.\<close>

locale kv_store =
  fixes look :: "'s \<Rightarrow> 'k \<Rightarrow> 'v option"
    and put :: "'k \<Rightarrow> 'v \<Rightarrow> 's \<Rightarrow> 's"
    and del :: "'k \<Rightarrow> 's \<Rightarrow> 's"
    and inv :: "'s \<Rightarrow> bool"
  assumes look_put: "inv s \<Longrightarrow> look (put k v s) k' = (if k' = k then Some v else look s k')"
    and look_del: "inv s \<Longrightarrow> look (del k s) k' = (if k' = k then None else look s k')"
    and inv_put: "inv s \<Longrightarrow> inv (put k v s)"
    and inv_del: "inv s \<Longrightarrow> inv (del k s)"
begin

lemma put_overwrites: "inv s \<Longrightarrow> look (put k v (put k w s)) = look (put k v s)"
  by (rule ext) (simp add: look_put inv_put)

lemma put_commutes: "inv s \<Longrightarrow> k \<noteq> k' \<Longrightarrow> look (put k v (put k' w s)) = look (put k' w (put k v s))"
  by (rule ext) (simp add: look_put inv_put)

lemma del_after_put: "inv s \<Longrightarrow> look (del k (put k v s)) = look (del k s)"
  by (rule ext) (simp add: look_put look_del inv_put)

lemma inv_fold_del: "inv s \<Longrightarrow> inv (fold del ks s)"
  by (induction ks arbitrary: s) (simp_all add: inv_del)

lemma look_fold_del:
  "inv s \<Longrightarrow> look (fold del ks s) k = (if k \<in> set ks then None else look s k)"
  by (induction ks arbitrary: s) (auto simp: look_del inv_del)

lemma inv_fold_put: "inv s \<Longrightarrow> inv (fold (\<lambda>x. put (f x) (g x)) xs s)"
  by (induction xs arbitrary: s) (simp_all add: inv_put)

lemma look_fold_put_other:
  "inv s \<Longrightarrow> k \<notin> f ` set xs \<Longrightarrow> look (fold (\<lambda>x. put (f x) (g x)) xs s) k = look s k"
  by (induction xs arbitrary: s) (auto simp: look_put inv_put)

text \<open>Writing a batch with distinct keys: every written key reads back its value.\<close>

lemma look_fold_put:
  "inv s \<Longrightarrow> distinct (map f xs) \<Longrightarrow> x \<in> set xs \<Longrightarrow>
   look (fold (\<lambda>x. put (f x) (g x)) xs s) (f x) = Some (g x)"
proof (induction xs arbitrary: s)
  case Nil
  then show ?case by simp
next
  case (Cons y ys)
  show ?case
  proof (cases "x = y")
    case True
    have "look (fold (\<lambda>x. put (f x) (g x)) ys (put (f y) (g y) s)) (f y) = look (put (f y) (g y) s) (f y)"
      using Cons.prems by (intro look_fold_put_other) (auto simp: inv_put)
    then show ?thesis using True Cons.prems(1) by (simp add: look_put)
  next
    case False
    then show ?thesis using Cons by (simp add: inv_put)
  qed
qed

end

lemma map_of_update [go_map_simps]:
  "map_of (AList.update k v m) k' = (if k' = k then Some v else map_of m k')"
  by (simp add: update_conv')

lemma map_of_delete [go_map_simps]:
  "map_of (AList.delete k m) k' = (if k' = k then None else map_of m k')"
  by (simp add: delete_conv')

lemma wf_map_update [go_map_simps, intro]: "wf_map m \<Longrightarrow> wf_map (AList.update k v m)"
  by (rule distinct_update)

lemma wf_map_delete [go_map_simps, intro]: "wf_map m \<Longrightarrow> wf_map (AList.delete k m)"
  by (rule distinct_delete)

interpretation gm: kv_store "map_of :: ('k \<times> 'v) list \<Rightarrow> 'k \<Rightarrow> 'v option"
  AList.update AList.delete wf_map
  by unfold_locales (auto simp: go_map_simps)

lemma wf_map_iff: "wf_map m \<Longrightarrow> (k, v) \<in> set m \<longleftrightarrow> map_of m k = Some v"
  by (simp add: map_of_eq_Some_iff)

lemma set_alist_delete: "set (AList.delete k m) = {kv \<in> set m. fst kv \<noteq> k}"
  by (auto simp: AList.delete_eq)

lemma set_alist_update:
  "wf_map m \<Longrightarrow> set (AList.update k v m) = insert (k, v) {kv \<in> set m. fst kv \<noteq> k}"
  by (induction m) (auto simp: rev_image_eqI)

lemma alist_delete_Nil_iff: "AList.delete k m = [] \<longleftrightarrow> (\<forall>kv \<in> set m. fst kv = k)"
  by (auto simp: AList.delete_eq filter_empty_conv)

lemma alist_update_not_Nil [simp]: "AList.update k v m \<noteq> []"
  by (induction m) auto

text \<open>Rewriting every value of a map in place, as a \<open>range\<close> loop that mutates its entries does.\<close>

definition map_values :: "('v \<Rightarrow> 'w) \<Rightarrow> ('k \<times> 'v) list \<Rightarrow> ('k \<times> 'w) list" where
  "map_values f m = map (\<lambda>(k, v). (k, f v)) m"

lemma keys_map_values [simp]: "map fst (map_values f m) = map fst m"
  by (simp add: map_values_def case_prod_unfold)

lemma map_of_map_values [simp]: "map_of (map_values f m) k = map_option f (map_of m k)"
  by (induction m) (auto simp: map_values_def)

lemma map_values_Nil_iff [simp]: "map_values f m = [] \<longleftrightarrow> m = []"
  by (simp add: map_values_def)

lemma map_of_filter_values:
  "wf_map m \<Longrightarrow> map_of (filter (\<lambda>(k, v). P k v) m) k =
     (case map_of m k of None \<Rightarrow> None | Some v \<Rightarrow> if P k v then Some v else None)"
  by (induction m) (auto simp: map_of_eq_None_iff image_iff split: option.split)

lemma wf_map_filter: "wf_map m \<Longrightarrow> wf_map (filter P m)"
  by (induction m) auto

lemma fst_set_map_values: "fst ` set (map_values f m) = fst ` set m"
  by (force simp: map_values_def)

lemma snd_set_map_values: "snd ` set (map_values f m) = f ` snd ` set m"
  by (force simp: map_values_def)

section \<open>Two-level maps\<close>

text \<open>
  The program twice keeps a map from a path to a map from an identifier to an object, dropping
  the inner map when its last entry goes: \<open>LocalEndpointStore.endpoints\<close> and
  \<open>PoolManager.pools\<close>. The write idiom \<open>if m[p] == nil { m[p] = make(...) }; m[p][k] = v\<close> is
  \<open>nested_put\<close>; the delete idiom is \<open>nested_del\<close>.
\<close>

type_synonym 'v nested = "'v gomap gomap"

definition nested_get :: "string \<Rightarrow> string \<Rightarrow> 'v nested \<Rightarrow> 'v option" where
  "nested_get p k m = (case map_of m p of None \<Rightarrow> None | Some sub \<Rightarrow> map_of sub k)"

definition nested_put :: "string \<Rightarrow> string \<Rightarrow> 'v \<Rightarrow> 'v nested \<Rightarrow> 'v nested" where
  "nested_put p k v m =
     (let sub = (case map_of m p of None \<Rightarrow> [] | Some sub \<Rightarrow> sub)
      in AList.update p (AList.update k v sub) m)"

definition nested_del :: "string \<Rightarrow> string \<Rightarrow> 'v nested \<Rightarrow> 'v nested" where
  "nested_del p k m =
     (case map_of m p of
        None \<Rightarrow> m
      | Some sub \<Rightarrow>
          (let sub' = AList.delete k sub
           in if sub' = [] then AList.delete p m else AList.update p sub' m))"

definition nested_list :: "'v nested \<Rightarrow> 'v list" where
  "nested_list m = concat (map (\<lambda>(p, sub). map snd sub) m)"

definition wf_nested :: "'v nested \<Rightarrow> bool" where
  "wf_nested m \<longleftrightarrow> wf_map m \<and> (\<forall>(p, sub) \<in> set m. wf_map sub \<and> sub \<noteq> [])"

lemma wf_nested_Nil [simp]: "wf_nested []"
  by (simp add: wf_nested_def)

lemma wf_nested_map [dest]: "wf_nested m \<Longrightarrow> wf_map m"
  by (simp add: wf_nested_def)

lemma wf_nested_sub: "wf_nested m \<Longrightarrow> map_of m p = Some sub \<Longrightarrow> wf_map sub \<and> sub \<noteq> []"
  by (auto simp: wf_nested_def dest: map_of_SomeD)

lemma wf_nestedI:
  assumes "wf_map m" and "\<And>p sub. map_of m p = Some sub \<Longrightarrow> wf_map sub \<and> sub \<noteq> []"
  shows "wf_nested m"
  unfolding wf_nested_def
proof (intro conjI ballI)
  show "wf_map m" by (rule assms(1))
  fix x
  assume "x \<in> set m"
  moreover obtain p sub where "x = (p, sub)" by (cases x)
  ultimately have "map_of m p = Some sub" using assms(1) wf_map_iff by fast
  then show "case x of (p, sub) \<Rightarrow> wf_map sub \<and> sub \<noteq> []"
    using assms(2) \<open>x = (p, sub)\<close> by simp
qed

lemma nested_get_put:
  "nested_get p' k' (nested_put p k v m) = (if p' = p \<and> k' = k then Some v else nested_get p' k' m)"
  by (auto simp: nested_get_def nested_put_def Let_def go_map_simps split: option.splits)

lemma nested_get_del:
  "nested_get p' k' (nested_del p k m) = (if p' = p \<and> k' = k then None else nested_get p' k' m)"
proof (cases "map_of m p")
  case None
  then show ?thesis by (auto simp: nested_get_def nested_del_def)
next
  case (Some sub)
  have "map_of sub k' = None" if "AList.delete k sub = []" "k' \<noteq> k" for k'
    using that map_of_delete [of k sub k'] by simp
  with Some show ?thesis
    by (auto simp: nested_get_def nested_del_def Let_def go_map_simps)
qed

lemma wf_nested_put: "wf_nested m \<Longrightarrow> wf_nested (nested_put p k v m)"
proof (rule wf_nestedI)
  assume wf: "wf_nested m"
  then show "wf_map (nested_put p k v m)" by (simp add: nested_put_def Let_def wf_map_update wf_nested_map)
  fix p' sub'
  assume "map_of (nested_put p k v m) p' = Some sub'"
  with wf show "wf_map sub' \<and> sub' \<noteq> []"
    by (auto simp: nested_put_def Let_def map_of_update wf_map_update dest: wf_nested_sub
      split: option.splits if_splits)
qed

lemma wf_nested_del: "wf_nested m \<Longrightarrow> wf_nested (nested_del p k m)"
proof (rule wf_nestedI)
  assume wf: "wf_nested m"
  then show "wf_map (nested_del p k m)"
    by (auto simp: nested_del_def Let_def wf_map_update wf_map_delete split: option.split)
  fix p' sub'
  assume "map_of (nested_del p k m) p' = Some sub'"
  with wf show "wf_map sub' \<and> sub' \<noteq> []"
    by (auto simp: nested_del_def Let_def map_of_update map_of_delete wf_map_delete dest: wf_nested_sub
      split: option.splits if_splits)
qed

lemma nested_list_iff:
  assumes "wf_nested m"
  shows "v \<in> set (nested_list m) \<longleftrightarrow> (\<exists>p k. nested_get p k m = Some v)"
proof
  assume "v \<in> set (nested_list m)"
  then obtain p sub k where ps: "(p, sub) \<in> set m" and kv: "(k, v) \<in> set sub"
    by (auto simp: nested_list_def)
  then have "map_of m p = Some sub" using assms wf_map_iff by fast
  moreover have "map_of sub k = Some v"
    using kv wf_nested_sub [OF assms \<open>map_of m p = Some sub\<close>] wf_map_iff by fast
  ultimately have "nested_get p k m = Some v" by (simp add: nested_get_def)
  then show "\<exists>p k. nested_get p k m = Some v" by blast
next
  assume "\<exists>p k. nested_get p k m = Some v"
  then show "v \<in> set (nested_list m)"
    by (force simp: nested_get_def nested_list_def split: option.splits dest!: map_of_SomeD)
qed

text \<open>The values of a well-formed map are the values its lookups return.\<close>

lemma values_iff: "wf_map m \<Longrightarrow> v \<in> snd ` set m \<longleftrightarrow> (\<exists>k. map_of m k = Some v)"
  by (force simp: map_of_eq_Some_iff)

text \<open>
  The contract of a two-level store. \<open>elems\<close> lists the stored objects; \<open>key\<close> is the inner key
  of an object, which both stores of the program read off the object itself.
\<close>

locale two_level_store =
  fixes look :: "'s \<Rightarrow> string \<Rightarrow> string \<Rightarrow> 'v option"
    and ins :: "string \<Rightarrow> 'v \<Rightarrow> 's \<Rightarrow> 's"
    and del :: "string \<Rightarrow> string \<Rightarrow> 's \<Rightarrow> 's"
    and elems :: "'s \<Rightarrow> 'v list"
    and key :: "'v \<Rightarrow> string"
    and wf :: "'s \<Rightarrow> bool"
  assumes look_ins: "wf s \<Longrightarrow> look (ins p v s) p' k' = (if p' = p \<and> k' = key v then Some v else look s p' k')"
    and look_del: "wf s \<Longrightarrow> look (del p k s) p' k' = (if p' = p \<and> k' = k then None else look s p' k')"
    and look_key: "wf s \<Longrightarrow> look s p k = Some v \<Longrightarrow> key v = k"
    and elems_look: "wf s \<Longrightarrow> v \<in> set (elems s) \<longleftrightarrow> (\<exists>p k. look s p k = Some v)"
    and wf_ins: "wf s \<Longrightarrow> wf (ins p v s)"
    and wf_del: "wf s \<Longrightarrow> wf (del p k s)"
begin

lemma wf_fold_del: "wf s \<Longrightarrow> wf (fold (\<lambda>x. del (f x) (g x)) xs s)"
  by (induction xs arbitrary: s) (auto simp: wf_del)

lemma look_fold_del:
  "wf s \<Longrightarrow> look (fold (\<lambda>x. del (f x) (g x)) xs s) p k =
     (if (p, k) \<in> (\<lambda>x. (f x, g x)) ` set xs then None else look s p k)"
  by (induction xs arbitrary: s) (auto simp: look_del wf_del split: if_splits)

lemma fold_del_all_empty:
  assumes "wf s" and "\<And>p k v. look s p k = Some v \<Longrightarrow> (p, k) \<in> (\<lambda>x. (f x, g x)) ` set xs"
  shows "elems (fold (\<lambda>x. del (f x) (g x)) xs s) = []"
proof -
  have "v \<notin> set (elems (fold (\<lambda>x. del (f x) (g x)) xs s))" for v
    using assms by (auto simp: elems_look wf_fold_del look_fold_del dest: assms(2))
  then show ?thesis by (metis list.set_intros(1) neq_Nil_conv)
qed

lemma wf_fold_ins: "wf s \<Longrightarrow> wf (fold (\<lambda>x. ins (f x) (h x)) xs s)"
  by (induction xs arbitrary: s) (auto simp: wf_ins)

lemma look_fold_ins_other:
  "wf s \<Longrightarrow> (p, k) \<notin> (\<lambda>x. (f x, key (h x))) ` set xs \<Longrightarrow>
   look (fold (\<lambda>x. ins (f x) (h x)) xs s) p k = look s p k"
  by (induction xs arbitrary: s) (auto simp: look_ins wf_ins)

lemma look_fold_ins:
  "wf s \<Longrightarrow> distinct (map (\<lambda>x. (f x, key (h x))) xs) \<Longrightarrow> x \<in> set xs \<Longrightarrow>
   look (fold (\<lambda>x. ins (f x) (h x)) xs s) (f x) (key (h x)) = Some (h x)"
proof (induction xs arbitrary: s)
  case Nil
  then show ?case by simp
next
  case (Cons y ys)
  show ?case
  proof (cases "x = y")
    case True
    have "(f y, key (h y)) \<notin> (\<lambda>x. (f x, key (h x))) ` set ys" using Cons.prems(2) by simp
    then have "look (fold (\<lambda>x. ins (f x) (h x)) ys (ins (f y) (h y) s)) (f y) (key (h y))
        = look (ins (f y) (h y) s) (f y) (key (h y))"
      using Cons.prems(1) by (intro look_fold_ins_other) (simp_all add: wf_ins)
    then show ?thesis using True Cons.prems(1) by (simp add: look_ins)
  next
    case False
    then show ?thesis using Cons by (simp add: wf_ins)
  qed
qed

end

text \<open>Nested maps whose inner keys are read off the stored objects offer that contract.\<close>

definition wf_keyed :: "('v \<Rightarrow> string) \<Rightarrow> 'v nested \<Rightarrow> bool" where
  "wf_keyed key m \<longleftrightarrow> wf_nested m \<and> (\<forall>(p, sub) \<in> set m. \<forall>(k, v) \<in> set sub. key v = k)"

lemma wf_keyed_nested [dest]: "wf_keyed key m \<Longrightarrow> wf_nested m"
  by (simp add: wf_keyed_def)

lemma nested_getD:
  "nested_get p k m = Some v \<Longrightarrow> \<exists>sub. (p, sub) \<in> set m \<and> (k, v) \<in> set sub"
  by (auto simp: nested_get_def dest: map_of_SomeD split: option.splits)

lemma nested_get_iff:
  assumes "wf_nested m"
  shows "nested_get p k m = Some v \<longleftrightarrow> (\<exists>sub. (p, sub) \<in> set m \<and> (k, v) \<in> set sub)"
proof
  assume "\<exists>sub. (p, sub) \<in> set m \<and> (k, v) \<in> set sub"
  then obtain sub where ps: "(p, sub) \<in> set m" and kv: "(k, v) \<in> set sub" by blast
  from ps assms have p: "map_of m p = Some sub" using wf_map_iff by fast
  moreover have "map_of sub k = Some v"
    using kv wf_nested_sub [OF assms p] wf_map_iff by fast
  ultimately show "nested_get p k m = Some v" by (simp add: nested_get_def)
qed (rule nested_getD)

lemma wf_keyed_iff:
  "wf_keyed key m \<longleftrightarrow> wf_nested m \<and> (\<forall>p k v. nested_get p k m = Some v \<longrightarrow> key v = k)"
  by (fastforce simp: wf_keyed_def nested_get_iff)

lemma wf_keyed_Nil [simp]: "wf_keyed key []"
  by (simp add: wf_keyed_def)

lemma wf_keyed_put: "wf_keyed key m \<Longrightarrow> wf_keyed key (nested_put p (key v) v m)"
  by (auto simp: wf_keyed_iff nested_get_put wf_nested_put split: if_splits)

lemma wf_keyed_del: "wf_keyed key m \<Longrightarrow> wf_keyed key (nested_del p k m)"
  by (auto simp: wf_keyed_iff nested_get_del wf_nested_del split: if_splits)

lemma keyed_two_level:
  "two_level_store (\<lambda>m p k. nested_get p k m) (\<lambda>p v. nested_put p (key v) v) nested_del nested_list key
     (wf_keyed key)"
proof
  fix p k and v :: 'a and s
  assume "wf_keyed key s" and "nested_get p k s = Some v"
  then show "key v = k" by (simp add: wf_keyed_iff)
qed (auto simp: nested_get_put nested_get_del nested_list_iff wf_keyed_nested wf_keyed_put wf_keyed_del)

section \<open>Step systems\<close>

text \<open>States reachable from an initial state by a step relation, and invariants over them.\<close>

inductive reach :: "('s \<Rightarrow> bool) \<Rightarrow> ('s \<Rightarrow> 's \<Rightarrow> bool) \<Rightarrow> 's \<Rightarrow> bool"
  for init :: "'s \<Rightarrow> bool" and step :: "'s \<Rightarrow> 's \<Rightarrow> bool" where
  reach_init: "init s \<Longrightarrow> reach init step s"
| reach_step: "reach init step s \<Longrightarrow> step s t \<Longrightarrow> reach init step t"

lemma reach_mono: "reach init step s \<Longrightarrow> (\<And>s. init s \<Longrightarrow> init' s) \<Longrightarrow> reach init' step s"
  by (induction rule: reach.induct) (auto intro: reach_init reach_step)

locale invariant_system =
  fixes init :: "'s \<Rightarrow> bool"
    and step :: "'s \<Rightarrow> 's \<Rightarrow> bool"
    and inv :: "'s \<Rightarrow> bool"
  assumes inv_init: "init s \<Longrightarrow> inv s"
    and inv_step: "inv s \<Longrightarrow> step s t \<Longrightarrow> inv t"
begin

lemma reach_inv: "reach init step s \<Longrightarrow> inv s"
  by (induction rule: reach.induct) (auto intro: inv_init inv_step)

end

section \<open>Lists\<close>

lemma count_update:
  "i < length xs \<Longrightarrow>
   (of_nat (length (filter P (xs[i := x]))) :: 'a::ring_1) =
     of_nat (length (filter P xs)) + (if P x then 1 else 0) - (if P (xs ! i) then 1 else 0)"
proof (induction xs arbitrary: i)
  case (Cons y ys)
  then show ?case by (cases i) auto
qed simp

lemma sum_filter_le: "(\<And>x. 0 \<le> (f x :: int)) \<Longrightarrow> sum_list (map f (filter P xs)) \<le> sum_list (map f xs)"
  by (induction xs) (auto intro: add_increasing)

lemma sum_update:
  fixes f :: "'a \<Rightarrow> nat"
  shows "i < length xs \<Longrightarrow> sum_list (map f (xs[i := x])) + f (xs ! i) = sum_list (map f xs) + f x"
proof (induction xs arbitrary: i)
  case (Cons y ys)
  then show ?case by (cases i) auto
qed simp

lemma filter_eq_imp: "(\<And>x. x \<in> set xs \<Longrightarrow> P x = Q x) \<Longrightarrow> filter P xs = filter Q xs"
  by (rule filter_cong) auto

lemma foldl_max_ge_init: "a \<le> foldl (\<lambda>b x. if f x > b then f x else b) a xs" for f :: "'a \<Rightarrow> 'b::linorder"
  by (induction xs arbitrary: a) (auto intro: order_trans less_imp_le)

lemma foldl_max_ge:
  fixes f :: "'a \<Rightarrow> 'b::linorder"
  shows "x \<in> set xs \<Longrightarrow> f x \<le> foldl (\<lambda>b x. if f x > b then f x else b) a xs"
proof (induction xs arbitrary: a)
  case Nil
  then show ?case by simp
next
  case (Cons y ys)
  show ?case
  proof (cases "x \<in> set ys")
    case True
    then show ?thesis using Cons.IH by simp
  next
    case False
    then have "x = y" using Cons.prems by simp
    then have "f x \<le> (if f y > a then f y else a)" by auto
    also have "\<dots> \<le> foldl (\<lambda>b x. if f x > b then f x else b) (if f y > a then f y else a) ys"
      by (rule foldl_max_ge_init)
    finally show ?thesis by simp
  qed
qed

lemma foldl_max_in:
  fixes f :: "'a \<Rightarrow> 'b::linorder"
  shows "foldl (\<lambda>b x. if f x > b then f x else b) a xs \<in> insert a (f ` set xs)"
proof (induction xs arbitrary: a)
  case Nil
  then show ?case by simp
next
  case (Cons x xs)
  show ?case using Cons.IH [of "if f x > a then f x else a"] by (auto split: if_splits)
qed

lemma foldl_min_le_init: "foldl (\<lambda>b x. if f x < b then f x else b) a xs \<le> a" for f :: "'a \<Rightarrow> 'b::linorder"
  by (induction xs arbitrary: a) (auto intro: order_trans less_imp_le)

lemma foldl_min_le:
  fixes f :: "'a \<Rightarrow> 'b::linorder"
  shows "x \<in> set xs \<Longrightarrow> foldl (\<lambda>b x. if f x < b then f x else b) a xs \<le> f x"
proof (induction xs arbitrary: a)
  case Nil
  then show ?case by simp
next
  case (Cons y ys)
  show ?case
  proof (cases "x \<in> set ys")
    case True
    then show ?thesis using Cons.IH by simp
  next
    case False
    then have "x = y" using Cons.prems by simp
    have "foldl (\<lambda>b x. if f x < b then f x else b) (if f y < a then f y else a) ys
        \<le> (if f y < a then f y else a)"
      by (rule foldl_min_le_init)
    also have "\<dots> \<le> f x" using \<open>x = y\<close> by auto
    finally show ?thesis by simp
  qed
qed

lemma foldl_min_in:
  fixes f :: "'a \<Rightarrow> 'b::linorder"
  shows "foldl (\<lambda>b x. if f x < b then f x else b) a xs \<in> insert a (f ` set xs)"
proof (induction xs arbitrary: a)
  case Nil
  then show ?case by simp
next
  case (Cons x xs)
  show ?case using Cons.IH [of "if f x < a then f x else a"] by (auto split: if_splits)
qed

section \<open>Loops over a snapshot\<close>

text \<open>
  A loop over a snapshot of a store's values whose body touches only the entry of the value it
  visits: every visited entry ends as the body leaves it, every other entry is unchanged.
\<close>

lemma fold_pointwise:
  fixes look :: "'s \<Rightarrow> 'k \<Rightarrow> 'v option"
  assumes step: "\<And>s x. I s \<Longrightarrow> look s (key x) = Some x \<Longrightarrow>
      I (step x s) \<and> (\<forall>k. look (step x s) k = (if k = key x then h x else look s k))"
    and "I s" and "distinct (map key xs)" and "\<And>x. x \<in> set xs \<Longrightarrow> look s (key x) = Some x"
  shows "I (fold step xs s) \<and>
    (\<forall>k. look (fold step xs s) k = (if k \<in> key ` set xs then Option.bind (look s k) h else look s k))"
  using assms(2-4)
proof (induction xs arbitrary: s)
  case Nil
  then show ?case by simp
next
  case (Cons x xs)
  have now: "I (step x s)" "\<And>k. look (step x s) k = (if k = key x then h x else look s k)"
    using step [of s x] Cons.prems by auto
  have later: "look (step x s) (key y) = Some y" if "y \<in> set xs" for y
  proof -
    have "key y \<noteq> key x" using that Cons.prems(2) by (auto simp: rev_image_eqI)
    then show ?thesis using that Cons.prems(3) now(2) by simp
  qed
  have "key x \<notin> key ` set xs" using Cons.prems(2) by auto
  moreover have "I (fold step xs (step x s)) \<and> (\<forall>k. look (fold step xs (step x s)) k =
      (if k \<in> key ` set xs then Option.bind (look (step x s) k) h else look (step x s) k))"
    using Cons.IH [OF now(1) _ later] Cons.prems(2) by simp
  moreover have "look s (key x) = Some x" using Cons.prems(3) by simp
  ultimately show ?case using now(2) by simp
qed

text \<open>A loop that threads a state and appends to a result does both independently.\<close>

lemma foldl_state_out:
  "foldl (\<lambda>(s, acc) x. (step x s, acc @ out x)) (s, acc) xs = (fold step xs s, acc @ concat (map out xs))"
  by (induction xs arbitrary: s acc) auto

lemma distinct_nested_keys:
  assumes "wf_keyed key m" and "\<And>p sub k v. (p, sub) \<in> set m \<Longrightarrow> (k, v) \<in> set sub \<Longrightarrow> outer v = p"
  shows "distinct (map (\<lambda>v. (outer v, key v)) (nested_list m))"
  using assms
proof (induction m)
  case Nil
  then show ?case by (simp add: nested_list_def)
next
  case (Cons x m)
  obtain p sub where x: "x = (p, sub)" by (cases x)
  have IH: "distinct (map (\<lambda>v. (outer v, key v)) (nested_list m))"
    using Cons.prems by (intro Cons.IH) (auto simp: wf_keyed_def wf_nested_def)
  have "map (\<lambda>v. (outer v, key v)) (map snd sub) = map (\<lambda>k. (p, k)) (map fst sub)"
  proof -
    have "outer v = p \<and> key v = k" if "(k, v) \<in> set sub" for k v
      using that Cons.prems by (auto simp: x wf_keyed_def)
    then show ?thesis by auto
  qed
  moreover have "distinct (map fst sub)" using Cons.prems by (simp add: x wf_keyed_def wf_nested_def)
  ultimately have "distinct (map (\<lambda>v. (outer v, key v)) (map snd sub))"
    by (simp add: distinct_map inj_on_def)
  moreover have "p \<notin> outer ` set (nested_list m)"
  proof
    assume "p \<in> outer ` set (nested_list m)"
    then obtain q sub' k v where q: "(q, sub') \<in> set m" "(k, v) \<in> set sub'" and "outer v = p"
      by (auto simp: nested_list_def)
    then have "q = p" using Cons.prems(2) [of q sub' k v] by (simp add: x)
    then have "p \<in> fst ` set m" using q(1) by force
    then show False using Cons.prems(1) by (simp add: x wf_keyed_def wf_nested_def)
  qed
  moreover have "outer ` set (map snd sub) \<subseteq> {p}"
  proof -
    have "outer v = p" if "(k, v) \<in> set sub" for k v using that Cons.prems(2) [of p sub k v] by (simp add: x)
    then show ?thesis by auto
  qed
  moreover have "nested_list (x # m) = map snd sub @ nested_list m" by (simp add: x nested_list_def)
  ultimately show ?case using IH by (auto simp del: map_map)
qed

section \<open>Batches of writes\<close>

lemma keys_alist_update: "fst ` set (AList.update k v m) = insert k (fst ` set m)"
  by (simp add: dom_update)

lemma keys_alist_delete: "fst ` set (AList.delete k m) = fst ` set m - {k}"
  by (auto simp: set_alist_delete)

lemma fold_update_keys:
  "fst ` set (fold (\<lambda>(k, v). AList.update k (f v)) xs m) = fst ` set xs \<union> fst ` set m"
proof (induction xs arbitrary: m)
  case (Cons x xs)
  obtain k v where "x = (k, v)" by (cases x)
  then show ?case using Cons.IH [of "AList.update k (f v) m"] by (simp add: keys_alist_update)
qed simp

lemma fold_update_wf: "wf_map m \<Longrightarrow> wf_map (fold (\<lambda>(k, v). AList.update k (f v)) xs m)"
  by (induction xs arbitrary: m) (auto simp: wf_map_update)

lemma fold_update_lookup:
  "wf_map xs \<Longrightarrow>
   map_of (fold (\<lambda>(k, v). AList.update k (f v)) xs m) k =
     (case map_of xs k of None \<Rightarrow> map_of m k | Some v \<Rightarrow> Some (f v))"
proof (induction xs arbitrary: m k)
  case (Cons x xs)
  obtain a b where x: "x = (a, b)" by (cases x)
  with Cons.prems have "map_of xs a = None" and "wf_map xs" by (simp_all add: map_of_eq_None_iff)
  with x show ?case by (cases "k = a") (simp_all add: Cons.IH map_of_update split: option.split)
qed simp

end
