(* ===== verification/Go_Strings.thy ===== *)
theory Go_Strings
  imports Prelude "HOL-Library.Sublist"
begin

text \<open>
  The part of Go's \<open>strings\<close>, \<open>strconv\<close>, \<open>fmt\<close> and \<open>net/url\<close> packages that the program uses,
  on byte strings. \<open>fmt.Sscanf\<close> is modelled for the two formats in use, \<open>%d\<close> and \<open>:%d\<close>: blanks
  before the number are skipped, an optional sign and a non-empty run of digits are read, and a
  value outside 64 bits or a missing number is an error that leaves the variable alone. The
  laws at the end of each section are what the components rely on.
\<close>

section \<open>Prefixes, suffixes, substrings\<close>

definition HasPrefix :: "string \<Rightarrow> string \<Rightarrow> bool" where
  "HasPrefix s p \<longleftrightarrow> prefix p s"

definition HasSuffix :: "string \<Rightarrow> string \<Rightarrow> bool" where
  "HasSuffix s p \<longleftrightarrow> suffix p s"

definition TrimPrefix :: "string \<Rightarrow> string \<Rightarrow> string" where
  "TrimPrefix s p = (if HasPrefix s p then drop (length p) s else s)"

definition TrimSuffix :: "string \<Rightarrow> string \<Rightarrow> string" where
  "TrimSuffix s p = (if HasSuffix s p then take (length s - length p) s else s)"

fun Contains :: "string \<Rightarrow> string \<Rightarrow> bool" where
  "Contains [] sub = (sub = [])"
| "Contains (c # s) sub = (prefix sub (c # s) \<or> Contains s sub)"

lemma Contains_iff: "Contains s sub \<longleftrightarrow> sublist sub s"
  by (induction s) (auto simp: sublist_Cons_right)

lemma TrimPrefix_append [simp]: "TrimPrefix (p @ s) p = s"
  by (simp add: TrimPrefix_def HasPrefix_def)

lemma TrimSuffix_append [simp]: "TrimSuffix (s @ p) p = s"
  by (simp add: TrimSuffix_def HasSuffix_def suffix_def)

lemma HasSuffix_char: "HasSuffix s [c] \<longleftrightarrow> s \<noteq> [] \<and> last s = c"
  by (cases s rule: rev_cases) (auto simp: HasSuffix_def suffix_def)

section \<open>Splitting, joining and trimming\<close>

fun Split :: "char \<Rightarrow> string \<Rightarrow> string list" where
  "Split c [] = [[]]"
| "Split c (x # xs) =
     (if x = c then [] # Split c xs
      else (case Split c xs of [] \<Rightarrow> [[x]] | y # ys \<Rightarrow> (x # y) # ys))"

fun Join :: "char \<Rightarrow> string list \<Rightarrow> string" where
  "Join c [] = []"
| "Join c [x] = x"
| "Join c (x # y # xs) = x @ c # Join c (y # xs)"

text \<open>\<open>strings.SplitN(s, c, 2)\<close>: the text before the first separator and, if there is one, after it.\<close>

definition SplitN2 :: "char \<Rightarrow> string \<Rightarrow> string list" where
  "SplitN2 c s =
     (let a = takeWhile (\<lambda>x. x \<noteq> c) s; b = dropWhile (\<lambda>x. x \<noteq> c) s
      in if b = [] then [a] else [a, tl b])"

text \<open>\<open>strings.ToLower\<close> on ASCII.\<close>

definition lower_char :: "char \<Rightarrow> char" where
  "lower_char c = (if 65 \<le> (of_char c :: nat) \<and> (of_char c :: nat) \<le> 90 then char_of ((of_char c :: nat) + 32) else c)"

definition ToLower :: "string \<Rightarrow> string" where
  "ToLower s = map lower_char s"

definition is_space :: "char \<Rightarrow> bool" where
  "is_space c \<longleftrightarrow> of_char c \<in> {9, 10, 11, 12, 13, 32 :: nat}"

definition TrimSpace :: "string \<Rightarrow> string" where
  "TrimSpace s = rev (dropWhile is_space (rev (dropWhile is_space s)))"

lemma Split_not_Nil [simp]: "Split c s \<noteq> []"
  by (induction s) (auto split: list.splits)

lemma Split_no_sep: "c \<notin> set s \<Longrightarrow> Split c s = [s]"
  by (induction s) auto

lemma Split_append_sep: "c \<notin> set s \<Longrightarrow> Split c (s @ c # t) = s # Split c t"
  by (induction s) auto

lemma Split_Join:
  "xs \<noteq> [] \<Longrightarrow> (\<And>x. x \<in> set xs \<Longrightarrow> c \<notin> set x) \<Longrightarrow> Split c (Join c xs) = xs"
  by (induction c xs rule: Join.induct) (simp_all add: Split_no_sep Split_append_sep)

lemma Join_snoc: "xs \<noteq> [] \<Longrightarrow> Join c (xs @ [x]) = Join c xs @ c # x"
proof (induction c xs rule: Join.induct)
  case (3 c x' y xs)
  then show ?case by simp
qed simp_all

lemma TrimSpace_id:
  assumes "s = [] \<or> (\<not> is_space (hd s) \<and> \<not> is_space (last s))"
  shows "TrimSpace s = s"
proof (cases "s = []")
  case True
  then show ?thesis by (simp add: TrimSpace_def)
next
  case False
  then have "dropWhile is_space s = s" using assms by (cases s) simp_all
  moreover have "dropWhile is_space (rev s) = rev s"
    using False assms by (cases s rule: rev_cases) simp_all
  ultimately show ?thesis by (simp add: TrimSpace_def)
qed

section \<open>Positions of a byte\<close>

text \<open>\<open>strings.Index\<close> and \<open>strings.LastIndex\<close> for a one-byte needle; \<open>-1\<close> when absent.\<close>

definition Index :: "string \<Rightarrow> char \<Rightarrow> int" where
  "Index s c = (if c \<in> set s then int (length (takeWhile (\<lambda>x. x \<noteq> c) s)) else - 1)"

definition LastIndex :: "string \<Rightarrow> char \<Rightarrow> int" where
  "LastIndex s c =
     (if c \<in> set s then int (length s) - 1 - int (length (takeWhile (\<lambda>x. x \<noteq> c) (rev s))) else - 1)"

lemma Index_append: "c \<notin> set a \<Longrightarrow> Index (a @ c # b) c = int (length a)"
  by (auto simp: Index_def takeWhile_append)

lemma LastIndex_append: "c \<notin> set b \<Longrightarrow> LastIndex (a @ c # b) c = int (length a)"
proof -
  assume "c \<notin> set b"
  then have "takeWhile (\<lambda>x. x \<noteq> c) (rev b @ c # rev a) = rev b"
    by (auto simp: takeWhile_append)
  then show ?thesis by (simp add: LastIndex_def)
qed

section \<open>Decimal numbers\<close>

definition is_digit :: "char \<Rightarrow> bool" where
  "is_digit c \<longleftrightarrow> 48 \<le> (of_char c :: nat) \<and> (of_char c :: nat) \<le> 57"

definition digit_val :: "char \<Rightarrow> nat" where
  "digit_val c = of_char c - 48"

definition digit_char :: "nat \<Rightarrow> char" where
  "digit_char d = char_of (d + 48)"

fun digits_val :: "nat \<Rightarrow> string \<Rightarrow> nat" where
  "digits_val acc [] = acc"
| "digits_val acc (c # cs) = digits_val (acc * 10 + digit_val c) cs"

text \<open>An optional sign, as a flag and the rest of the text.\<close>

definition read_sign :: "string \<Rightarrow> bool \<times> string" where
  "read_sign s =
     (case s of [] \<Rightarrow> (False, s)
      | c # r \<Rightarrow> if c = CHR ''-'' then (True, r) else if c = CHR ''+'' then (False, r) else (False, s))"

definition to_int64 :: "bool \<Rightarrow> string \<Rightarrow> int option" where
  "to_int64 neg ds =
     (let n = int (digits_val 0 ds); v = (if neg then - n else n)
      in if i64_min \<le> v \<and> v \<le> i64_max then Some v else None)"

text \<open>\<open>strconv.Atoi\<close>: the whole text is a number, or an error.\<close>

definition Atoi :: "string \<Rightarrow> int option" where
  "Atoi s =
     (let (neg, ds) = read_sign s
      in if ds = [] \<or> \<not> list_all is_digit ds then None else to_int64 neg ds)"

definition is_blank :: "char \<Rightarrow> bool" where
  "is_blank c \<longleftrightarrow> of_char c \<in> {9, 11, 12, 13, 32 :: nat}"

definition Sscanf_d :: "string \<Rightarrow> int option" where
  "Sscanf_d s =
     (let (neg, r) = read_sign (dropWhile is_blank s); ds = takeWhile is_digit r
      in if ds = [] then None else to_int64 neg ds)"

definition Sscanf_colon_d :: "string \<Rightarrow> int option" where
  "Sscanf_colon_d s =
     (case s of [] \<Rightarrow> None | c # r \<Rightarrow> if c = CHR '':'' then Sscanf_d r else None)"

text \<open>The value of a variable initialised to 0 after \<open>fmt.Sscanf(addr, ":%d", &v)\<close>.\<close>

definition sscanf_port :: "string \<Rightarrow> int" where
  "sscanf_port addr = (case Sscanf_colon_d addr of None \<Rightarrow> 0 | Some n \<Rightarrow> n)"

fun nat_digits :: "nat \<Rightarrow> string" where
  "nat_digits n = (if n < 10 then [digit_char n] else nat_digits (n div 10) @ [digit_char (n mod 10)])"

declare nat_digits.simps [simp del]

text \<open>\<open>strconv.Itoa\<close> and the verb \<open>%d\<close>.\<close>

definition Itoa :: "int \<Rightarrow> string" where
  "Itoa n = (if n < 0 then CHR ''-'' # nat_digits (nat (- n)) else nat_digits (nat n))"

lemma of_char_digit_char: "d < 10 \<Longrightarrow> (of_char (digit_char d) :: nat) = d + 48"
  by (simp add: digit_char_def)

lemma is_digit_digit_char [simp]: "d < 10 \<Longrightarrow> is_digit (digit_char d)"
  by (simp add: is_digit_def of_char_digit_char)

lemma digit_val_digit_char [simp]: "d < 10 \<Longrightarrow> digit_val (digit_char d) = d"
  by (simp add: digit_val_def of_char_digit_char)

lemma digits_val_append: "digits_val acc (xs @ ys) = digits_val (digits_val acc xs) ys"
  by (induction xs arbitrary: acc) simp_all

lemma nat_digits_all: "list_all is_digit (nat_digits n)"
proof (induction n rule: nat_digits.induct)
  case (1 n)
  then show ?case by (subst nat_digits.simps) simp
qed

lemma nat_digits_not_Nil [simp]: "nat_digits n \<noteq> []"
  by (subst nat_digits.simps) simp

lemma digits_val_nat_digits: "digits_val 0 (nat_digits n) = n"
proof (induction n rule: nat_digits.induct)
  case (1 n)
  then show ?case by (subst nat_digits.simps) (simp add: digits_val_append)
qed

lemma digit_not_sign: "is_digit c \<Longrightarrow> c \<noteq> CHR ''-'' \<and> c \<noteq> CHR ''+'' \<and> c \<noteq> CHR '':'' \<and> c \<noteq> CHR ''/'' \<and> \<not> is_blank c"
  by (auto simp: is_digit_def is_blank_def)

lemma nat_digits_digit: "c \<in> set (nat_digits n) \<Longrightarrow> is_digit c"
  using nat_digits_all by (auto simp: list_all_iff)

lemma hd_nat_digits: "is_digit (hd (nat_digits n))"
  by (rule nat_digits_digit [of _ n]) simp

lemma read_sign_digits: "xs \<noteq> [] \<Longrightarrow> is_digit (hd xs) \<Longrightarrow> read_sign xs = (False, xs)"
  using digit_not_sign by (cases xs) (auto simp: read_sign_def)

lemma read_sign_Itoa: "read_sign (Itoa n) = (n < 0, nat_digits (nat \<bar>n\<bar>))"
proof (cases "n < 0")
  case True
  then show ?thesis by (simp add: Itoa_def read_sign_def)
next
  case False
  then show ?thesis by (simp add: Itoa_def read_sign_digits hd_nat_digits)
qed

lemma Atoi_Itoa: "i64_min \<le> n \<Longrightarrow> n \<le> i64_max \<Longrightarrow> Atoi (Itoa n) = Some n"
  by (auto simp: Atoi_def read_sign_Itoa nat_digits_all to_int64_def digits_val_nat_digits Let_def)

lemma Sscanf_d_Itoa:
  assumes "0 \<le> n" and "n \<le> i64_max" and "rest = [] \<or> \<not> is_digit (hd rest)"
  shows "Sscanf_d (Itoa n @ rest) = Some n"
proof -
  let ?d = "nat_digits (nat n)"
  have hd: "?d @ rest \<noteq> []" "is_digit (hd (?d @ rest))"
    by (simp_all add: hd_nat_digits)
  have "dropWhile is_blank (?d @ rest) = ?d @ rest"
    using hd digit_not_sign by (cases "?d @ rest") auto
  moreover have "takeWhile is_digit (?d @ rest) = ?d"
  proof -
    have "takeWhile is_digit (?d @ rest) = ?d @ takeWhile is_digit rest"
      using nat_digits_digit by (intro takeWhile_append2) auto
    moreover have "takeWhile is_digit rest = []" using assms(3) by (cases rest) auto
    ultimately show ?thesis by simp
  qed
  moreover have "i64_min \<le> n" using assms(1) by (simp add: i64_min_def)
  ultimately show ?thesis
    using assms by (simp add: Sscanf_d_def Itoa_def read_sign_digits [OF hd] to_int64_def
        digits_val_nat_digits Let_def)
qed

lemma Sscanf_d_Itoa_end: "0 \<le> n \<Longrightarrow> n \<le> i64_max \<Longrightarrow> Sscanf_d (Itoa n) = Some n"
  using Sscanf_d_Itoa [of n "[]"] by simp

lemma sscanf_port_colon:
  "0 \<le> n \<Longrightarrow> n \<le> i64_max \<Longrightarrow> sscanf_port (CHR '':'' # Itoa n) = n"
  by (simp add: sscanf_port_def Sscanf_colon_d_def Sscanf_d_Itoa_end)

lemma sscanf_port_no_colon: "s = [] \<or> hd s \<noteq> CHR '':'' \<Longrightarrow> sscanf_port s = 0"
  by (auto simp: sscanf_port_def Sscanf_colon_d_def split: list.splits)

lemma Itoa_chars: "0 \<le> n \<Longrightarrow> c \<in> set (Itoa n) \<Longrightarrow> is_digit c"
  by (auto simp: Itoa_def dest: nat_digits_digit)

lemma Itoa_no_slash: "0 \<le> n \<Longrightarrow> CHR ''/'' \<notin> set (Itoa n)"
  using Itoa_chars digit_not_sign by blast

lemma Itoa_no_colon: "0 \<le> n \<Longrightarrow> CHR '':'' \<notin> set (Itoa n)"
  using Itoa_chars digit_not_sign by blast

lemma Itoa_not_Nil [simp]: "Itoa n \<noteq> []"
  by (simp add: Itoa_def)

section \<open>Query unescaping\<close>

definition hex_val :: "char \<Rightarrow> nat option" where
  "hex_val c =
     (let n = of_char c :: nat
      in if 48 \<le> n \<and> n \<le> 57 then Some (n - 48)
         else if 97 \<le> n \<and> n \<le> 102 then Some (n - 87)
         else if 65 \<le> n \<and> n \<le> 70 then Some (n - 55)
         else None)"

text \<open>\<open>url.QueryUnescape\<close>: \<open>+\<close> is a blank, \<open>%XX\<close> a byte, a bad escape an error.\<close>

fun QueryUnescape :: "string \<Rightarrow> string option" where
  "QueryUnescape [] = Some []"
| "QueryUnescape (c # cs) =
     (if c = CHR ''%'' then
        (case cs of
           a # b # rest \<Rightarrow>
             (case (hex_val a, hex_val b) of
                (Some x, Some y) \<Rightarrow> map_option ((#) (char_of (16 * x + y))) (QueryUnescape rest)
              | _ \<Rightarrow> None)
         | _ \<Rightarrow> None)
      else map_option ((#) (if c = CHR ''+'' then CHR '' '' else c)) (QueryUnescape cs))"

lemma QueryUnescape_plain:
  "CHR ''%'' \<notin> set s \<Longrightarrow> CHR ''+'' \<notin> set s \<Longrightarrow> QueryUnescape s = Some s"
  by (induction s) auto

section \<open>Pieces of a split\<close>

lemma Split_append: "Split c (s @ c # t) = Split c s @ Split c t"
proof (induction s)
  case (Cons x s)
  then show ?case by (cases "Split c s") auto
qed simp

lemma Split_sublist: "x \<in> set (Split c s) \<Longrightarrow> sublist x s"
proof -
  have "\<forall>x \<in> set (Split c s). sublist x s \<and> prefix (hd (Split c s)) s"
  proof (induction s)
    case (Cons y s)
    show ?case
    proof (cases "y = c")
      case True
      then show ?thesis using Cons by (auto simp: sublist_Cons_right)
    next
      case False
      obtain p ps where ps: "Split c s = p # ps" by (cases "Split c s") auto
      then have "prefix p s" "\<forall>x \<in> set ps. sublist x s" using Cons by auto
      then show ?thesis using False ps by (auto simp: sublist_Cons_right prefix_imp_sublist)
    qed
  qed simp
  then show "x \<in> set (Split c s) \<Longrightarrow> sublist x s" by blast
qed

lemma TrimSpace_sublist: "sublist (TrimSpace s) s"
proof -
  have suf: "suffix (dropWhile P xs) xs" for P and xs :: string by (rule suffix_dropWhile)
  have "sublist (dropWhile is_space (rev (dropWhile is_space s))) (rev (dropWhile is_space s))"
    by (intro suffix_imp_sublist suf)
  then have "sublist (TrimSpace s) (dropWhile is_space s)"
    unfolding TrimSpace_def by (metis rev_rev_ident sublist_rev)
  moreover have "sublist (dropWhile is_space s) s" by (intro suffix_imp_sublist suf)
  ultimately show ?thesis by (rule sublist_order.order.trans)
qed

end
