(* ===== verification/Pool.thy ===== *)
theory Pool
  imports Go_Strings
begin

text \<open>
  \<open>internal/pool/pool.go\<close>: the pool manager, the request pools it keeps per path and endpoint, the
  counters of requests in flight to remote nodes, the computation of the backend URL and the
  copying of a backend's response. The workers of a pool and their interleaving are in
  \<open>Pool_Workers\<close>, on the record declared here.
\<close>

section \<open>Data\<close>

text \<open>
  Where a worker goroutine stands between two atomic actions of \<open>run\<close>, and where a call of
  \<open>ServeWithHeaders\<close> stands. A request is named by its position in \<open>rp_requests\<close>.
\<close>

datatype WorkerState =
    Idle                \<comment> \<open>in the select of run\<close>
  | Taken nat           \<comment> \<open>received a request, before \<open>activeCount++\<close>\<close>
  | Counted nat         \<comment> \<open>before \<open>waitingCount--\<close>\<close>
  | Processing nat      \<comment> \<open>in \<open>processRequest\<close>\<close>
  | Finishing           \<comment> \<open>before \<open>activeCount--\<close>\<close>
  | Exited

datatype RequestState =
    Entered             \<comment> \<open>after \<open>waitingCount++\<close>, before the select\<close>
  | Queued              \<comment> \<open>in the channel\<close>
  | InWorker            \<comment> \<open>received by a worker\<close>
  | Rejecting           \<comment> \<open>queue full, before \<open>waitingCount--\<close>\<close>
  | Rejected
  | Completed           \<comment> \<open>\<open>Done\<close> closed\<close>
  | SendPanic           \<comment> \<open>sent on the closed channel\<close>

record RequestPool =
  rp_path :: string
  rp_serviceID :: string
  rp_targetURL :: string
  rp_maxConcur :: i32
  rp_queueCapacity :: nat
  rp_backendTimeout :: duration
  rp_queue :: "nat list"
  rp_activeCount :: i32
  rp_waitingCount :: i32
  rp_workers :: "WorkerState list"
  rp_requests :: "RequestState list"
  rp_shutdown :: bool

record PoolMetrics =
  pmt_Active :: i32
  pmt_QueueLen :: i32
  pmt_Waiting :: i32
  pmt_Healthy :: bool
  pmt_MaxConcurrent :: i32

record PoolManager =
  pm_pools :: "RequestPool nested"
  pm_maxConcur :: int
  pm_queueCapacity :: nat
  pm_backendTimeout :: duration
  pm_remoteCounters :: "i32 gomap"
  pm_remoteSnapshots :: "i32 gomap"

section \<open>Request pools\<close>

definition NewRequestPool :: "string \<Rightarrow> string \<Rightarrow> string \<Rightarrow> int \<Rightarrow> nat \<Rightarrow> duration \<Rightarrow> RequestPool" where
  "NewRequestPool path serviceID targetURL maxConcur queueCapacity backendTimeout =
     (let maxConcur = (if maxConcur < 1 then 1 else maxConcur)
      in \<lparr>rp_path = path, rp_serviceID = serviceID, rp_targetURL = targetURL, rp_maxConcur = word_of_int maxConcur,
          rp_queueCapacity = queueCapacity, rp_backendTimeout = backendTimeout, rp_queue = [],
          rp_activeCount = 0, rp_waitingCount = 0, rp_workers = replicate (nat maxConcur) Idle,
          rp_requests = [], rp_shutdown = False\<rparr>)"

definition RequestPool_GetMetrics :: "RequestPool \<Rightarrow> PoolMetrics" where
  "RequestPool_GetMetrics p =
     \<lparr>pmt_Active = rp_activeCount p, pmt_QueueLen = word_of_int (int (length (rp_queue p))),
      pmt_Waiting = rp_waitingCount p, pmt_Healthy = True, pmt_MaxConcurrent = rp_maxConcur p\<rparr>"

text \<open>What \<open>notifyMetricsChanged\<close> hands to the metrics callback.\<close>

definition notify_values :: "RequestPool \<Rightarrow> i32 \<times> i32" where
  "notify_values p = (rp_activeCount p, rp_waitingCount p)"

text \<open>\<open>Shutdown\<close> cancels the context, closes every \<open>running\<close> channel and the queue; the workers then leave.\<close>

definition RequestPool_Shutdown :: "RequestPool \<Rightarrow> RequestPool" where
  "RequestPool_Shutdown p = p\<lparr>rp_shutdown := True\<rparr>"

text \<open>The backend URL that \<open>processRequest\<close> computes.\<close>

definition sub_path :: "string \<Rightarrow> string \<Rightarrow> string" where
  "sub_path poolPath reqPath =
     (let subPath = TrimPrefix reqPath poolPath
      in if subPath = reqPath then TrimPrefix reqPath (TrimSuffix poolPath ''/'') else subPath)"

definition target_url :: "RequestPool \<Rightarrow> string \<Rightarrow> string \<Rightarrow> string" where
  "target_url p reqPath rawQuery =
     rp_targetURL p @ sub_path (rp_path p) reqPath @ (if rawQuery \<noteq> '''' then ''?'' @ rawQuery else '''')"

section \<open>The manager\<close>

definition NewManagerWithQueueCapacity :: "int \<Rightarrow> nat \<Rightarrow> duration \<Rightarrow> PoolManager" where
  "NewManagerWithQueueCapacity maxConcur queueCapacity backendTimeout =
     \<lparr>pm_pools = [], pm_maxConcur = maxConcur, pm_queueCapacity = queueCapacity, pm_backendTimeout = backendTimeout,
      pm_remoteCounters = [], pm_remoteSnapshots = []\<rparr>"

definition NewManager :: "int \<Rightarrow> duration \<Rightarrow> PoolManager" where
  "NewManager maxConcur backendTimeout = NewManagerWithQueueCapacity maxConcur 1000 backendTimeout"

definition remoteKey :: "string \<Rightarrow> string \<Rightarrow> string" where
  "remoteKey nodeID nodePath = nodeID @ ''|'' @ nodePath"

definition IncRemoteActive :: "string \<Rightarrow> string \<Rightarrow> PoolManager \<Rightarrow> PoolManager" where
  "IncRemoteActive nodeID nodePath m =
     (let key = remoteKey nodeID nodePath;
          n = (case map_of (pm_remoteCounters m) key of None \<Rightarrow> 0 | Some n \<Rightarrow> n)
      in m\<lparr>pm_remoteCounters := AList.update key (n + 1) (pm_remoteCounters m)\<rparr>)"

definition DecRemoteActive :: "string \<Rightarrow> string \<Rightarrow> PoolManager \<Rightarrow> PoolManager" where
  "DecRemoteActive nodeID nodePath m =
     (let key = remoteKey nodeID nodePath
      in case map_of (pm_remoteCounters m) key of
           None \<Rightarrow> m
         | Some n \<Rightarrow> m\<lparr>pm_remoteCounters := AList.update key (n - 1) (pm_remoteCounters m)\<rparr>)"

definition GetRemoteActive :: "PoolManager \<Rightarrow> string \<Rightarrow> string \<Rightarrow> i32" where
  "GetRemoteActive m nodeID nodePath =
     (case map_of (pm_remoteCounters m) (remoteKey nodeID nodePath) of None \<Rightarrow> 0 | Some n \<Rightarrow> n)"

definition SnapshotRemoteActives :: "PoolManager \<Rightarrow> PoolManager" where
  "SnapshotRemoteActives m =
     m\<lparr>pm_remoteSnapshots := fold (\<lambda>(key, n). AList.update key n) (pm_remoteCounters m) []\<rparr>"

definition GetRemoteActiveSnapshot :: "PoolManager \<Rightarrow> string \<Rightarrow> string \<Rightarrow> i32" where
  "GetRemoteActiveSnapshot m nodeID nodePath =
     (case map_of (pm_remoteSnapshots m) (remoteKey nodeID nodePath) of None \<Rightarrow> 0 | Some n \<Rightarrow> n)"

definition GetPool :: "PoolManager \<Rightarrow> string \<Rightarrow> string \<Rightarrow> RequestPool option" where
  "GetPool m path serviceID =
     (case map_of (pm_pools m) path of None \<Rightarrow> None | Some sub \<Rightarrow> map_of sub serviceID)"

text \<open>The write \<open>if m.pools[path] == nil { m.pools[path] = make(...) }; m.pools[path][serviceID] = pool\<close>.\<close>

definition store_pool :: "string \<Rightarrow> RequestPool \<Rightarrow> PoolManager \<Rightarrow> PoolManager" where
  "store_pool path p m = m\<lparr>pm_pools := nested_put path (rp_serviceID p) p (pm_pools m)\<rparr>"

definition CreatePool :: "string \<Rightarrow> string \<Rightarrow> string \<Rightarrow> int \<Rightarrow> PoolManager \<Rightarrow> PoolManager" where
  "CreatePool path serviceID targetURL maxConcur m =
     (case GetPool m path serviceID of
        Some p \<Rightarrow> store_pool path (p\<lparr>rp_maxConcur := word_of_int maxConcur, rp_targetURL := targetURL\<rparr>) m
      | None \<Rightarrow>
          store_pool path
            (NewRequestPool path serviceID targetURL maxConcur (pm_queueCapacity m) (pm_backendTimeout m)) m)"

text \<open>\<open>RemovePool\<close> also returns the pool it took out, shut down.\<close>

definition drop_pool :: "string \<Rightarrow> string \<Rightarrow> PoolManager \<Rightarrow> PoolManager" where
  "drop_pool path serviceID m = m\<lparr>pm_pools := nested_del path serviceID (pm_pools m)\<rparr>"

definition RemovePool :: "string \<Rightarrow> string \<Rightarrow> PoolManager \<Rightarrow> RequestPool option \<times> PoolManager" where
  "RemovePool path serviceID m =
     (case GetPool m path serviceID of
        None \<Rightarrow> (None, m)
      | Some p \<Rightarrow> (Some (RequestPool_Shutdown p), drop_pool path serviceID m))"

definition GetAllStates :: "PoolManager \<Rightarrow> PoolMetrics gomap" where
  "GetAllStates m =
     fold (\<lambda>(path, sub) states.
         fold (\<lambda>(serviceID, p). AList.update (path @ ''|'' @ serviceID) (RequestPool_GetMetrics p)) sub states)
       (pm_pools m) []"

definition GetPoolsByPath :: "PoolManager \<Rightarrow> string \<Rightarrow> RequestPool list" where
  "GetPoolsByPath m path = (case map_of (pm_pools m) path of None \<Rightarrow> [] | Some sub \<Rightarrow> map snd sub)"

definition all_pools :: "PoolManager \<Rightarrow> RequestPool list" where
  "all_pools m = nested_list (pm_pools m)"

definition ShutdownAll :: "PoolManager \<Rightarrow> RequestPool list \<times> PoolManager" where
  "ShutdownAll m = (map RequestPool_Shutdown (all_pools m), m\<lparr>pm_pools := []\<rparr>)"

section \<open>Copying a backend's response\<close>

type_synonym Header = "string list gomap"

text \<open>\<open>Header.Add\<close>, \<open>Header.Set\<close>, \<open>Header.Del\<close> and \<open>Header.Get\<close>; keys are in canonical form.\<close>

definition header_add :: "string \<Rightarrow> string \<Rightarrow> Header \<Rightarrow> Header" where
  "header_add key value h =
     AList.update key ((case map_of h key of None \<Rightarrow> [] | Some vs \<Rightarrow> vs) @ [value]) h"

definition header_set :: "string \<Rightarrow> string \<Rightarrow> Header \<Rightarrow> Header" where
  "header_set key value h = AList.update key [value] h"

definition header_del :: "string \<Rightarrow> Header \<Rightarrow> Header" where
  "header_del key h = AList.delete key h"

definition header_get :: "Header \<Rightarrow> string \<Rightarrow> string" where
  "header_get h key = (case map_of h key of Some (v # _) \<Rightarrow> v | _ \<Rightarrow> '''')"

definition add_values :: "string \<Rightarrow> string list \<Rightarrow> Header \<Rightarrow> Header" where
  "add_values key values h = fold (header_add key) values h"

text \<open>What the transport can hand back: no request, an error, or a response whose body is read in chunks.\<close>

record BackendResponse =
  br_status :: int
  br_header :: Header
  br_chunks :: "string list"

datatype BackendResult = RequestError | TransportError | Responded BackendResponse

text \<open>
  A response writer: the header map under construction, and the status and header sent by the first
  \<open>WriteHeader\<close>; later calls have no effect.
\<close>

record ResponseWriter =
  w_header :: Header
  w_sent :: "(int \<times> Header) option"
  w_body :: string

definition write_header :: "int \<Rightarrow> ResponseWriter \<Rightarrow> ResponseWriter" where
  "write_header code w = (if w_sent w = None then w\<lparr>w_sent := Some (code, w_header w)\<rparr> else w)"

definition http_error :: "string \<Rightarrow> int \<Rightarrow> ResponseWriter \<Rightarrow> ResponseWriter" where
  "http_error msg code w =
     (let w = w\<lparr>w_header := header_set ''X-Content-Type-Options'' ''nosniff''
                 (header_set ''Content-Type'' ''text/plain; charset=utf-8'' (w_header w))\<rparr>;
          w = write_header code w
      in w\<lparr>w_body := w_body w @ msg @ [CHR 0x0A]\<rparr>)"

definition is_streaming :: "Header \<Rightarrow> bool" where
  "is_streaming h \<longleftrightarrow>
     Contains (header_get h ''Content-Type'') ''text/event-stream'' \<or>
     Contains (header_get h ''Content-Type'') ''application/x-ndjson'' \<or>
     header_get h ''Transfer-Encoding'' = ''chunked''"

text \<open>The chunks copied before the context is found done: \<open>done i\<close> is the check before the \<open>i\<close>-th read.\<close>

fun stream_chunks :: "(nat \<Rightarrow> bool) \<Rightarrow> nat \<Rightarrow> string list \<Rightarrow> string" where
  "stream_chunks ctxDone i [] = []"
| "stream_chunks ctxDone i (c # cs) = (if ctxDone i then [] else c @ stream_chunks ctxDone (Suc i) cs)"

definition forwardRequestWithHeaders ::
    "(nat \<Rightarrow> bool) \<Rightarrow> bool \<Rightarrow> BackendResult \<Rightarrow> ResponseWriter \<Rightarrow> ResponseWriter" where
  "forwardRequestWithHeaders ctxDone flusher result w =
     (case result of
        RequestError \<Rightarrow> if ctxDone 0 then w else http_error ''Bad Gateway'' 502 w
      | TransportError \<Rightarrow> if ctxDone 0 then w else http_error ''BadGateway'' 502 w
      | Responded resp \<Rightarrow>
          let normal = (\<lambda>w.
                let w = w\<lparr>w_header := fold (\<lambda>(key, values). add_values key values) (br_header resp) (w_header w)\<rparr>;
                    w = write_header (br_status resp) w
                in w\<lparr>w_body := w_body w @ concat (br_chunks resp)\<rparr>)
          in if is_streaming (br_header resp) then
               let h = fold (\<lambda>(key, values) h. if key \<noteq> ''Content-Length'' then add_values key values h else h)
                         (br_header resp) (w_header w);
                   h = header_del ''Content-Length'' (header_set ''Transfer-Encoding'' ''chunked'' h);
                   w = write_header (br_status resp) (w\<lparr>w_header := h\<rparr>)
               in if flusher then w\<lparr>w_body := w_body w @ stream_chunks ctxDone 0 (br_chunks resp)\<rparr>
                  else normal w
             else normal w)"

section \<open>Pools as a two-level store\<close>

abbreviation keyed_pm :: "PoolManager \<Rightarrow> bool" where
  "keyed_pm m \<equiv> wf_keyed rp_serviceID (pm_pools m)"

lemma GetPool_nested: "GetPool m p k = nested_get p k (pm_pools m)"
  by (simp add: GetPool_def nested_get_def)

interpretation pm: two_level_store GetPool store_pool drop_pool all_pools rp_serviceID keyed_pm
proof
  fix m path path' k k' p
  assume wf: "keyed_pm m"
  show "GetPool (store_pool path p m) path' k' =
      (if path' = path \<and> k' = rp_serviceID p then Some p else GetPool m path' k')"
    by (simp add: GetPool_nested store_pool_def nested_get_put)
  show "GetPool (drop_pool path k m) path' k' = (if path' = path \<and> k' = k then None else GetPool m path' k')"
    by (simp add: GetPool_nested drop_pool_def nested_get_del)
  show "GetPool m path k = Some p \<Longrightarrow> rp_serviceID p = k" using wf by (simp add: GetPool_nested wf_keyed_iff)
  show "p \<in> set (all_pools m) \<longleftrightarrow> (\<exists>path k. GetPool m path k = Some p)"
    using nested_list_iff [OF wf_keyed_nested [OF wf]] by (simp add: GetPool_nested all_pools_def)
  show "keyed_pm (store_pool path p m)" using wf by (simp add: store_pool_def wf_keyed_put)
  show "keyed_pm (drop_pool path k m)" using wf by (simp add: drop_pool_def wf_keyed_del)
qed

text \<open>Every pool is filed under its own path and endpoint identifier.\<close>

definition wf_pm :: "PoolManager \<Rightarrow> bool" where
  "wf_pm m \<longleftrightarrow> keyed_pm m \<and> (\<forall>path k p. GetPool m path k = Some p \<longrightarrow> rp_path p = path)"

lemma wf_pm_keyed [dest]: "wf_pm m \<Longrightarrow> keyed_pm m"
  by (simp add: wf_pm_def)

lemma wf_pm_New [simp]: "wf_pm (NewManagerWithQueueCapacity n q t)"
  by (simp add: wf_pm_def NewManagerWithQueueCapacity_def GetPool_def)

lemma wf_pm_NewManager [simp]: "wf_pm (NewManager n t)"
  by (simp add: NewManager_def)

lemma GetPool_NewManager [simp]: "GetPool (NewManager n t) path k = None"
  by (simp add: NewManager_def NewManagerWithQueueCapacity_def GetPool_def)

lemma wf_pm_store: "wf_pm m \<Longrightarrow> rp_path p = path \<Longrightarrow> wf_pm (store_pool path p m)"
  by (auto simp: wf_pm_def pm.look_ins pm.wf_ins split: if_splits)

lemma wf_pm_drop: "wf_pm m \<Longrightarrow> wf_pm (drop_pool path k m)"
  by (auto simp: wf_pm_def pm.look_del pm.wf_del split: if_splits)

lemma NewRequestPool_keys [simp]:
  "rp_path (NewRequestPool path sid url n q t) = path"
  "rp_serviceID (NewRequestPool path sid url n q t) = sid"
  by (simp_all add: NewRequestPool_def Let_def)

lemma wf_pm_CreatePool [inv_intros]: "wf_pm m \<Longrightarrow> wf_pm (CreatePool path sid url n m)"
  by (auto simp: CreatePool_def wf_pm_def pm.look_ins pm.wf_ins split: option.split if_splits)

lemma wf_pm_RemovePool [inv_intros]: "wf_pm m \<Longrightarrow> wf_pm (snd (RemovePool path sid m))"
  by (simp add: RemovePool_def wf_pm_drop split: option.split)

lemma pools_frame [simp]:
  "pm_pools (IncRemoteActive n p m) = pm_pools m"
  "pm_pools (DecRemoteActive n p m) = pm_pools m"
  "pm_pools (SnapshotRemoteActives m) = pm_pools m"
  by (simp_all add: IncRemoteActive_def DecRemoteActive_def SnapshotRemoteActives_def Let_def split: option.split)

lemma wf_pm_remote [inv_intros]:
  "wf_pm m \<Longrightarrow> wf_pm (IncRemoteActive n p m)"
  "wf_pm m \<Longrightarrow> wf_pm (DecRemoteActive n p m)"
  "wf_pm m \<Longrightarrow> wf_pm (SnapshotRemoteActives m)"
  by (simp_all add: wf_pm_def GetPool_nested)

lemma CreatePool_lookup:
  assumes "wf_pm m"
  shows "GetPool (CreatePool path sid url n m) path' sid' =
    (if path' = path \<and> sid' = sid then
       Some (case GetPool m path sid of
               Some p \<Rightarrow> p\<lparr>rp_maxConcur := word_of_int n, rp_targetURL := url\<rparr>
             | None \<Rightarrow> NewRequestPool path sid url n (pm_queueCapacity m) (pm_backendTimeout m))
     else GetPool m path' sid')"
  using assms pm.look_key [OF wf_pm_keyed [OF assms], of path sid]
  by (auto simp: CreatePool_def pm.look_ins wf_pm_keyed split: option.split)

lemma RemovePool_lookup:
  assumes "wf_pm m"
  shows "GetPool (snd (RemovePool path sid m)) path' sid' =
    (if path' = path \<and> sid' = sid then None else GetPool m path' sid')"
  using assms by (auto simp: RemovePool_def pm.look_del wf_pm_keyed split: option.split)

lemma RemovePool_result: "GetPool m path sid = Some p \<Longrightarrow> fst (RemovePool path sid m) = Some (p\<lparr>rp_shutdown := True\<rparr>)"
  by (simp add: RemovePool_def RequestPool_Shutdown_def)

text \<open>
  Pools are identified by path and endpoint identifier. From any well-formed manager, creating a
  pool makes it the one found under its keys, with at least one worker and an empty queue when it is
  new, and with the live queue, counters and workers of the old pool when it existed (only its
  capacity figure and backend URL are rewritten); removing it makes the lookup fail; neither touches
  any other pool.
\<close>

theorem pool_lifecycle:
  assumes "wf_pm m"
  shows "wf_pm (CreatePool path sid url n m) \<and> wf_pm (snd (RemovePool path sid m)) \<and>
    (GetPool m path sid = None \<longrightarrow>
      (\<exists>p. GetPool (CreatePool path sid url n m) path sid = Some p \<and> rp_queue p = [] \<and> rp_activeCount p = 0 \<and>
           rp_waitingCount p = 0 \<and> rp_workers p = replicate (nat (max 1 n)) Idle \<and> \<not> rp_shutdown p)) \<and>
    (\<forall>p. GetPool m path sid = Some p \<longrightarrow>
      GetPool (CreatePool path sid url n m) path sid = Some (p\<lparr>rp_maxConcur := word_of_int n, rp_targetURL := url\<rparr>) \<and>
      fst (RemovePool path sid m) = Some (p\<lparr>rp_shutdown := True\<rparr>)) \<and>
    GetPool (snd (RemovePool path sid m)) path sid = None \<and>
    (\<forall>path' sid'. (path', sid') \<noteq> (path, sid) \<longrightarrow>
      GetPool (CreatePool path sid url n m) path' sid' = GetPool m path' sid' \<and>
      GetPool (snd (RemovePool path sid m)) path' sid' = GetPool m path' sid')"
  using assms
  by (auto simp: CreatePool_lookup RemovePool_lookup RemovePool_result inv_intros NewRequestPool_def Let_def max_def)

theorem pool_lifecycle_witness:
  "\<exists>p. GetPool (CreatePool ''/a'' ''e1'' ''http://127.0.0.1:9000'' 0 (NewManager 10 (seconds 300))) ''/a'' ''e1'' = Some p \<and>
     rp_workers p = [Idle]"
  using pool_lifecycle [of "NewManager 10 (seconds 300)" "''/a''" "''e1''" "''http://127.0.0.1:9000''" 0]
  by (simp add: GetPool_NewManager wf_pm_NewManager) blast

section \<open>Requests in flight to remote nodes\<close>

lemma remoteKey_inj:
  assumes "CHR ''|'' \<notin> set n" and "CHR ''|'' \<notin> set n'"
  shows "remoteKey n p = remoteKey n' p' \<longleftrightarrow> n = n' \<and> p = p'"
proof
  assume "remoteKey n p = remoteKey n' p'"
  then have eq: "n @ CHR ''|'' # p = n' @ CHR ''|'' # p'" by (simp add: remoteKey_def)
  have head: "takeWhile (\<lambda>c. c \<noteq> CHR ''|'') (x @ CHR ''|'' # y) = x" if "CHR ''|'' \<notin> set x" for x y
    using that by (induction x) auto
  have "n = n'" using head [OF assms(1), of p] head [OF assms(2), of p'] eq by simp
  with eq show "n = n' \<and> p = p'" by simp
qed simp

lemma GetRemoteActive_Inc:
  "GetRemoteActive (IncRemoteActive n p m) n' p' =
     GetRemoteActive m n' p' + (if remoteKey n' p' = remoteKey n p then 1 else 0)"
  by (auto simp: GetRemoteActive_def IncRemoteActive_def Let_def map_of_update split: option.split)

definition known_remote :: "PoolManager \<Rightarrow> string \<Rightarrow> string \<Rightarrow> bool" where
  "known_remote m n p \<longleftrightarrow> map_of (pm_remoteCounters m) (remoteKey n p) \<noteq> None"

lemma known_remote_Inc: "known_remote (IncRemoteActive n p m) n' p' \<longleftrightarrow> remoteKey n' p' = remoteKey n p \<or> known_remote m n' p'"
  by (auto simp: known_remote_def IncRemoteActive_def Let_def map_of_update)

lemma known_remote_Dec: "known_remote (DecRemoteActive n p m) n' p' \<longleftrightarrow> known_remote m n' p'"
  by (auto simp: known_remote_def DecRemoteActive_def Let_def map_of_update split: option.split)

lemma GetRemoteActive_Dec:
  "known_remote m n p \<Longrightarrow>
   GetRemoteActive (DecRemoteActive n p m) n' p' =
     GetRemoteActive m n' p' - (if remoteKey n' p' = remoteKey n p then 1 else 0)"
  by (auto simp: known_remote_def GetRemoteActive_def DecRemoteActive_def Let_def map_of_update split: option.split)

text \<open>Starts and ends of forwarded requests, in any interleaving.\<close>

datatype remote_event = Start string string | End string string

fun remote_run :: "remote_event list \<Rightarrow> PoolManager \<Rightarrow> PoolManager" where
  "remote_run [] m = m"
| "remote_run (Start n p # es) m = remote_run es (IncRemoteActive n p m)"
| "remote_run (End n p # es) m = remote_run es (DecRemoteActive n p m)"

text \<open>Every end is preceded by its own start.\<close>

fun well_bracketed :: "remote_event list \<Rightarrow> (string \<times> string) multiset \<Rightarrow> bool" where
  "well_bracketed [] open \<longleftrightarrow> True"
| "well_bracketed (Start n p # es) open \<longleftrightarrow> well_bracketed es (add_mset (n, p) open)"
| "well_bracketed (End n p # es) open \<longleftrightarrow> (n, p) \<in># open \<and> well_bracketed es (open - {#(n, p)#})"

fun still_open :: "remote_event list \<Rightarrow> (string \<times> string) multiset \<Rightarrow> (string \<times> string) multiset" where
  "still_open [] open = open"
| "still_open (Start n p # es) open = still_open es (add_mset (n, p) open)"
| "still_open (End n p # es) open = still_open es (open - {#(n, p)#})"

definition bar_free :: "remote_event \<Rightarrow> bool" where
  "bar_free e \<longleftrightarrow> CHR ''|'' \<notin> set (case e of Start n p \<Rightarrow> n | End n p \<Rightarrow> n)"

definition counts_open :: "PoolManager \<Rightarrow> (string \<times> string) multiset \<Rightarrow> bool" where
  "counts_open m open \<longleftrightarrow>
     (\<forall>(n, p) \<in># open. CHR ''|'' \<notin> set n \<and> known_remote m n p) \<and>
     (\<forall>n p. CHR ''|'' \<notin> set n \<longrightarrow> GetRemoteActive m n p = of_nat (count open (n, p)))"

lemma counts_open_Inc:
  assumes "counts_open m opn" and "CHR ''|'' \<notin> set n"
  shows "counts_open (IncRemoteActive n p m) (add_mset (n, p) opn)"
  using assms unfolding counts_open_def
  by (auto simp: GetRemoteActive_Inc remoteKey_inj known_remote_Inc)

lemma counts_open_Dec:
  assumes "counts_open m opn" and "(n, p) \<in># opn"
  shows "counts_open (DecRemoteActive n p m) (opn - {#(n, p)#})"
proof -
  have n: "CHR ''|'' \<notin> set n" and "known_remote m n p"
    using assms by (auto simp: counts_open_def)
  moreover have "of_nat (count opn (n, p) - 1) = (of_nat (count opn (n, p)) - 1 :: i32)"
    using assms(2) by (simp add: of_nat_diff count_greater_eq_one_iff)
  ultimately show ?thesis
    using assms unfolding counts_open_def
    by (auto simp: GetRemoteActive_Dec remoteKey_inj known_remote_Dec dest: in_diffD)
qed

lemma remote_run_counts:
  "counts_open m opn \<Longrightarrow> list_all bar_free es \<Longrightarrow> well_bracketed es opn \<Longrightarrow>
   counts_open (remote_run es m) (still_open es opn)"
proof (induction es m arbitrary: opn rule: remote_run.induct)
  case (2 n p es m)
  then show ?case using counts_open_Inc by (simp add: bar_free_def)
next
  case (3 n p es m)
  then show ?case using counts_open_Dec by simp
qed simp

text \<open>
  C33: The counter that the router reads for a remote node and path is exactly the number of requests
  this node has in flight to it, after any interleaving of request starts and ends in which every end
  has its start, as long as node identifiers do not contain the separator \<open>|\<close> and the number fits in
  32 bits. In particular it is zero when all requests have ended, and never negative.
\<close>

theorem remote_counters_exact:
  assumes "list_all bar_free es" and "well_bracketed es {#}" and "CHR ''|'' \<notin> set n"
    and "count (still_open es {#}) (n, p) < 2 ^ 31"
  shows "sint (GetRemoteActive (remote_run es (NewManager c t)) n p) = int (count (still_open es {#}) (n, p))"
proof -
  have "counts_open (NewManager c t) {#}"
    by (simp add: counts_open_def GetRemoteActive_def NewManager_def NewManagerWithQueueCapacity_def)
  from remote_run_counts [OF this assms(1,2)] assms(3)
  have "GetRemoteActive (remote_run es (NewManager c t)) n p = word_of_int (int (count (still_open es {#}) (n, p)))"
    by (simp add: counts_open_def)
  then show ?thesis using assms(4) by (simp only:) (rule sint_i32_of_int; simp)
qed

theorem remote_counters_exact_witness:
  "sint (GetRemoteActive (remote_run [Start ''n1'' ''/a'', Start ''n1'' ''/a'', Start ''n2'' ''/a'', End ''n1'' ''/a'']
     (NewManager 10 0)) ''n1'' ''/a'') = 1"
  using remote_counters_exact [of "[Start ''n1'' ''/a'', Start ''n1'' ''/a'', Start ''n2'' ''/a'', End ''n1'' ''/a'']"
      "''n1''" "''/a''" 10 0]
  by (simp add: bar_free_def)

section \<open>The response a client sees\<close>

abbreviation header_values :: "Header \<Rightarrow> string \<Rightarrow> string list" where
  "header_values h key \<equiv> (case map_of h key of None \<Rightarrow> [] | Some vs \<Rightarrow> vs)"

lemma header_values_add:
  "header_values (header_add key v h) k = header_values h k @ (if k = key then [v] else [])"
  by (simp add: header_add_def map_of_update)

lemma header_values_adds:
  "header_values (add_values key vs h) k = header_values h k @ (if k = key then vs else [])"
proof (induction vs arbitrary: h)
  case (Cons v vs)
  have "add_values key (v # vs) h = add_values key vs (header_add key v h)" by (simp add: add_values_def)
  then show ?case by (simp only: Cons.IH header_values_add) simp
qed (simp add: add_values_def)

lemma header_values_copy:
  "wf_map hs \<Longrightarrow>
   header_values (fold (\<lambda>(key, values). add_values key values) hs h) k = header_values h k @ header_values hs k"
proof (induction hs arbitrary: h)
  case (Cons x hs)
  obtain key vs where x: "x = (key, vs)" by (cases x)
  with Cons.prems have "map_of hs key = None" "wf_map hs" by (auto simp: map_of_eq_None_iff)
  then show ?case using Cons.IH [of "add_values key vs h"] x by (auto simp: header_values_adds)
qed simp

lemma stream_chunks_prefix: "prefix (stream_chunks ctxDone i cs) (concat cs)"
  by (induction ctxDone i cs rule: stream_chunks.induct) auto

lemma stream_chunks_all: "(\<And>i. \<not> ctxDone i) \<Longrightarrow> stream_chunks ctxDone i cs = concat cs"
  by (induction cs arbitrary: i) auto

text \<open>
  How a backend's response reaches the client, on a fresh response writer. A streamed response (SSE,
  NDJSON or chunked) is sent with \<open>Transfer-Encoding: chunked\<close> and without \<open>Content-Length\<close>, with the
  backend's status, and the body sent is a prefix of the backend's body, all of it unless the
  context ends. Any other response is sent with the backend's status, with all its header values
  after those already set, and with its whole body.
\<close>

theorem forward_response:
  assumes "w_sent w = None" and "wf_map (br_header resp)"
  shows "\<exists>h body. w_sent (forwardRequestWithHeaders ctxDone flusher (Responded resp) w) = Some (br_status resp, h) \<and>
    w_body (forwardRequestWithHeaders ctxDone flusher (Responded resp) w) = w_body w @ body \<and>
    prefix body (concat (br_chunks resp)) \<and>
    ((\<forall>i. \<not> ctxDone i) \<or> \<not> is_streaming (br_header resp) \<longrightarrow> body = concat (br_chunks resp)) \<and>
    (if is_streaming (br_header resp)
     then header_values h ''Content-Length'' = [] \<and> header_values h ''Transfer-Encoding'' = [''chunked'']
     else (\<forall>key. header_values h key = header_values (w_header w) key @ header_values (br_header resp) key))"
  using assms stream_chunks_prefix [of ctxDone 0 "br_chunks resp"] stream_chunks_all [of ctxDone 0 "br_chunks resp"]
  by (auto simp: forwardRequestWithHeaders_def Let_def write_header_def header_del_def header_set_def
      map_of_delete map_of_update header_values_copy)

theorem forward_response_witness:
  "\<exists>h. w_sent (forwardRequestWithHeaders (\<lambda>_. False) True
      (Responded \<lparr>br_status = 200, br_header = [(''Content-Type'', [''text/event-stream'']), (''Content-Length'', [''0''])],
         br_chunks = [''a'', ''b'']\<rparr>) \<lparr>w_header = [], w_sent = None, w_body = ''''\<rparr>) = Some (200, h) \<and>
    header_values h ''Content-Length'' = []"
proof -
  let ?h = "[(''Content-Type'', [''text/event-stream'']), (''Content-Length'', [''0''])]"
  have "is_streaming ?h" by (simp add: is_streaming_def header_get_def)
  then show ?thesis
    using forward_response [of "\<lparr>w_header = [], w_sent = None, w_body = ''''\<rparr>"
        "\<lparr>br_status = 200, br_header = ?h, br_chunks = [''a'', ''b'']\<rparr>" "\<lambda>_. False" True]
    by auto
qed

end
