(* ===== verification/Pool_Workers.thy ===== *)
theory Pool_Workers
  imports Pool
begin

text \<open>
  The concurrent life of a request pool (\<open>internal/pool/pool.go\<close>: \<open>worker.run\<close>, \<open>processRequest\<close>,
  \<open>ServeWithHeaders\<close>, \<open>Shutdown\<close>). Each rule of \<open>pool_step\<close> is one atomic action of one goroutine: an
  atomic counter update, a channel operation, closing \<open>Done\<close>. Any number of callers and the workers
  interleave freely. \<open>processRequest\<close> always ends by closing \<open>Done\<close>, on its error path and after
  forwarding, so it is the single action \<open>finish\<close>.
\<close>

section \<open>Steps\<close>

inductive pool_step :: "RequestPool \<Rightarrow> RequestPool \<Rightarrow> bool" where
  arrive: "pool_step p (p\<lparr>rp_requests := rp_requests p @ [Entered], rp_waitingCount := rp_waitingCount p + 1\<rparr>)"
| enqueue: "i < length (rp_requests p) \<Longrightarrow> rp_requests p ! i = Entered \<Longrightarrow> \<not> rp_shutdown p \<Longrightarrow>
    length (rp_queue p) < rp_queueCapacity p \<Longrightarrow>
    pool_step p (p\<lparr>rp_requests := (rp_requests p)[i := Queued], rp_queue := rp_queue p @ [i]\<rparr>)"
| handoff: "i < length (rp_requests p) \<Longrightarrow> rp_requests p ! i = Entered \<Longrightarrow> \<not> rp_shutdown p \<Longrightarrow> rp_queue p = [] \<Longrightarrow>
    w < length (rp_workers p) \<Longrightarrow> rp_workers p ! w = Idle \<Longrightarrow>
    pool_step p (p\<lparr>rp_requests := (rp_requests p)[i := InWorker], rp_workers := (rp_workers p)[w := Taken i]\<rparr>)"
| full: "i < length (rp_requests p) \<Longrightarrow> rp_requests p ! i = Entered \<Longrightarrow> \<not> rp_shutdown p \<Longrightarrow>
    rp_queueCapacity p \<le> length (rp_queue p) \<Longrightarrow>
    pool_step p (p\<lparr>rp_requests := (rp_requests p)[i := Rejecting]\<rparr>)"
| reject: "i < length (rp_requests p) \<Longrightarrow> rp_requests p ! i = Rejecting \<Longrightarrow>
    pool_step p (p\<lparr>rp_requests := (rp_requests p)[i := Rejected], rp_waitingCount := rp_waitingCount p - 1\<rparr>)"
| send_closed: "i < length (rp_requests p) \<Longrightarrow> rp_requests p ! i = Entered \<Longrightarrow> rp_shutdown p \<Longrightarrow>
    pool_step p (p\<lparr>rp_requests := (rp_requests p)[i := SendPanic]\<rparr>)"
| take: "rp_queue p = i # q \<Longrightarrow> w < length (rp_workers p) \<Longrightarrow> rp_workers p ! w = Idle \<Longrightarrow>
    pool_step p (p\<lparr>rp_requests := (rp_requests p)[i := InWorker], rp_queue := q, rp_workers := (rp_workers p)[w := Taken i]\<rparr>)"
| count: "w < length (rp_workers p) \<Longrightarrow> rp_workers p ! w = Taken i \<Longrightarrow>
    pool_step p (p\<lparr>rp_workers := (rp_workers p)[w := Counted i], rp_activeCount := rp_activeCount p + 1\<rparr>)"
| start: "w < length (rp_workers p) \<Longrightarrow> rp_workers p ! w = Counted i \<Longrightarrow>
    pool_step p (p\<lparr>rp_workers := (rp_workers p)[w := Processing i], rp_waitingCount := rp_waitingCount p - 1\<rparr>)"
| finish: "w < length (rp_workers p) \<Longrightarrow> rp_workers p ! w = Processing i \<Longrightarrow>
    pool_step p (p\<lparr>rp_workers := (rp_workers p)[w := Finishing], rp_requests := (rp_requests p)[i := Completed]\<rparr>)"
| release: "w < length (rp_workers p) \<Longrightarrow> rp_workers p ! w = Finishing \<Longrightarrow>
    pool_step p (p\<lparr>rp_workers := (rp_workers p)[w := Idle], rp_activeCount := rp_activeCount p - 1\<rparr>)"
| leave: "w < length (rp_workers p) \<Longrightarrow> rp_workers p ! w = Idle \<Longrightarrow> rp_shutdown p \<Longrightarrow>
    pool_step p (p\<lparr>rp_workers := (rp_workers p)[w := Exited]\<rparr>)"
| shutdown: "pool_step p (RequestPool_Shutdown p)"

inductive_cases pool_stepE: "pool_step p q"

section \<open>Invariant\<close>

fun busy :: "WorkerState \<Rightarrow> bool" where
  "busy (Counted _) = True"
| "busy (Processing _) = True"
| "busy Finishing = True"
| "busy _ = False"

fun before_start :: "WorkerState \<Rightarrow> bool" where
  "before_start (Taken _) = True"
| "before_start (Counted _) = True"
| "before_start _ = False"

fun holds :: "WorkerState \<Rightarrow> nat option" where
  "holds (Taken i) = Some i"
| "holds (Counted i) = Some i"
| "holds (Processing i) = Some i"
| "holds _ = None"

definition unserved :: "RequestState \<Rightarrow> bool" where
  "unserved r \<longleftrightarrow> r \<in> {Entered, Queued, Rejecting, SendPanic}"

text \<open>The two counters, the bound of the channel, and the whereabouts of every request.\<close>

definition counters_ok :: "RequestPool \<Rightarrow> bool" where
  "counters_ok p \<longleftrightarrow>
     rp_activeCount p = of_nat (length (filter busy (rp_workers p))) \<and>
     rp_waitingCount p = of_nat (length (filter unserved (rp_requests p))) + of_nat (length (filter before_start (rp_workers p)))"

definition queue_ok :: "RequestPool \<Rightarrow> bool" where
  "queue_ok p \<longleftrightarrow> length (rp_queue p) \<le> rp_queueCapacity p \<and> distinct (rp_queue p) \<and>
     (\<forall>i. i \<in> set (rp_queue p) \<longleftrightarrow> i < length (rp_requests p) \<and> rp_requests p ! i = Queued)"

definition workers_ok :: "RequestPool \<Rightarrow> bool" where
  "workers_ok p \<longleftrightarrow>
     (\<forall>i. int (length (filter (\<lambda>w. holds w = Some i) (rp_workers p))) =
        (if i < length (rp_requests p) \<and> rp_requests p ! i = InWorker then 1 else 0))"

definition pool_inv :: "RequestPool \<Rightarrow> bool" where
  "pool_inv p \<longleftrightarrow> counters_ok p \<and> queue_ok p \<and> workers_ok p"

lemma queue_head:
  "queue_ok p \<Longrightarrow> rp_queue p = i # q \<Longrightarrow> i < length (rp_requests p) \<and> rp_requests p ! i = Queued \<and> i \<notin> set q"
  by (auto simp: queue_ok_def)

lemma holder_request:
  assumes "workers_ok p" and "w < length (rp_workers p)" and "holds (rp_workers p ! w) = Some i"
  shows "i < length (rp_requests p) \<and> rp_requests p ! i = InWorker"
proof -
  have "rp_workers p ! w \<in> set (filter (\<lambda>w. holds w = Some i) (rp_workers p))" using assms(2,3) by simp
  then have "filter (\<lambda>w. holds w = Some i) (rp_workers p) \<noteq> []" by (metis empty_iff list.set(1))
  then show ?thesis using assms(1) [unfolded workers_ok_def, rule_format, of i] by (auto split: if_splits)
qed

lemma processing_request:
  "workers_ok p \<Longrightarrow> w < length (rp_workers p) \<Longrightarrow> rp_workers p ! w = Processing i \<Longrightarrow>
   i < length (rp_requests p) \<and> rp_requests p ! i = InWorker"
  using holder_request by simp

lemma counters_step:
  assumes "queue_ok p" and "workers_ok p" and "counters_ok p" and "pool_step p q"
  shows "counters_ok q"
  using assms(4)
proof cases
  case (take i qa w)
  then show ?thesis
    using assms(3) queue_head [OF assms(1) take(2)] by (simp add: counters_ok_def count_update unserved_def)
next
  case (finish w i)
  then show ?thesis
    using assms(3) processing_request [OF assms(2) finish(2,3)] by (simp add: counters_ok_def count_update unserved_def)
qed (use assms(3) in \<open>simp_all add: counters_ok_def count_update unserved_def RequestPool_Shutdown_def\<close>)

text \<open>The channel holds exactly the queued requests: one request enters or leaves at a time.\<close>

definition queued :: "RequestPool \<Rightarrow> nat \<Rightarrow> bool" where
  "queued p i \<longleftrightarrow> i < length (rp_requests p) \<and> rp_requests p ! i = Queued"

lemma queue_ok_queued:
  "queue_ok p \<longleftrightarrow> length (rp_queue p) \<le> rp_queueCapacity p \<and> distinct (rp_queue p) \<and> set (rp_queue p) = {i. queued p i}"
  unfolding queue_ok_def queued_def by blast

lemma queued_update:
  "i < length (rp_requests p) \<Longrightarrow> rp_requests q = (rp_requests p)[i := r] \<Longrightarrow>
   {j. queued q j} = (if r = Queued then insert i {j. queued p j} else {j. queued p j} - {i})"
  by (auto simp: queued_def nth_list_update)

lemma queue_ok_other:
  assumes "queue_ok p" and "i < length (rp_requests p)" and "rp_requests p ! i \<noteq> Queued" and "r \<noteq> Queued"
    and "rp_requests q = (rp_requests p)[i := r]" and "rp_queue q = rp_queue p"
    and "rp_queueCapacity q = rp_queueCapacity p"
  shows "queue_ok q"
proof -
  have "\<not> queued p i" using assms(3) by (simp add: queued_def)
  then show ?thesis using assms queued_update [OF assms(2,5)] by (auto simp: queue_ok_queued)
qed

lemma queue_step:
  assumes "queue_ok p" and "workers_ok p" and "pool_step p q"
  shows "queue_ok q"
  using assms(3)
proof cases
  case arrive
  then have "{j. queued q j} = {j. queued p j}" by (auto simp: queued_def nth_append)
  then show ?thesis using arrive assms(1) by (simp add: queue_ok_queued)
next
  case (enqueue i)
  moreover from this have "\<not> queued p i" by (simp add: queued_def)
  ultimately show ?thesis
    using assms(1) queued_update [of i p q Queued] by (auto simp: queue_ok_queued)
next
  case (take i qa w)
  then show ?thesis
    using assms(1) queue_head [OF assms(1) take(2)] queued_update [of i p q InWorker]
    by (auto simp: queue_ok_queued)
next
  case (finish w i)
  then show ?thesis
    using processing_request [OF assms(2) finish(2,3)] by (auto intro: queue_ok_other [OF assms(1), of i Completed])
qed (auto intro: queue_ok_other [OF assms(1)] simp: RequestPool_Shutdown_def,
     use assms(1) in \<open>simp_all add: queue_ok_queued queued_def\<close>)

lemma workers_step:
  assumes "queue_ok p" and "workers_ok p" and "pool_step p q"
  shows "workers_ok q"
  using assms(3)
proof cases
  case arrive
  then show ?thesis using assms(2) by (auto simp: workers_ok_def nth_append less_Suc_eq)
next
  case (take i qa w)
  then show ?thesis
    using assms(2) queue_head [OF assms(1) take(2)] by (auto simp: workers_ok_def count_update nth_list_update)
next
  case (finish w i)
  then show ?thesis
    using assms(2) processing_request [OF assms(2) finish(2,3)]
    by (auto simp: workers_ok_def count_update nth_list_update)
qed (use assms(2) in \<open>auto simp: workers_ok_def count_update nth_list_update RequestPool_Shutdown_def\<close>)

definition fresh_pool :: "RequestPool \<Rightarrow> bool" where
  "fresh_pool p \<longleftrightarrow> (\<exists>path sid url n cap t. p = NewRequestPool path sid url n cap t)"

interpretation pool_sys: invariant_system fresh_pool pool_step pool_inv
proof
  show "pool_inv p" if "fresh_pool p" for p
    using that
    by (auto simp: fresh_pool_def NewRequestPool_def Let_def pool_inv_def counters_ok_def queue_ok_def workers_ok_def)
  show "pool_inv q" if "pool_inv p" "pool_step p q" for p q
    using that unfolding pool_inv_def by (blast intro: counters_step queue_step workers_step)
qed

section \<open>Bounded concurrency\<close>

abbreviation pool_reachable :: "string \<Rightarrow> string \<Rightarrow> string \<Rightarrow> int \<Rightarrow> nat \<Rightarrow> duration \<Rightarrow> RequestPool \<Rightarrow> bool" where
  "pool_reachable path sid url n cap t \<equiv> reach (\<lambda>p. p = NewRequestPool path sid url n cap t) pool_step"

lemma pool_reachable_inv: "pool_reachable path sid url n cap t p \<Longrightarrow> pool_inv p"
  by (rule pool_sys.reach_inv) (erule reach_mono, unfold fresh_pool_def, blast)

lemma pool_step_shape:
  "pool_step p q \<Longrightarrow> length (rp_workers q) = length (rp_workers p) \<and> rp_queueCapacity q = rp_queueCapacity p"
  by (erule pool_stepE) (auto simp: RequestPool_Shutdown_def)

lemma pool_reachable_shape:
  "pool_reachable path sid url n cap t p \<Longrightarrow> length (rp_workers p) = nat (max 1 n) \<and> rp_queueCapacity p = cap"
  by (induction rule: reach.induct) (auto simp: NewRequestPool_def Let_def max_def dest: pool_step_shape)

lemma sint_of_nat: "n < 2 ^ 31 \<Longrightarrow> sint (of_nat n :: i32) = int n"
  using sint_i32_of_int [of "int n"] by simp

lemma before_start_bound: "length (filter before_start ws) \<le> length ws"
  by simp

text \<open>
  C2: A pool never runs more requests at once than its workers (the configured concurrency, at least
  one), in every interleaving of callers, workers and shutdown. The active counter is the number of
  workers between taking and finishing a request, the waiting counter the number of calls accepted
  or being decided but not yet started, and neither is ever negative; the queue never exceeds its
  capacity. Each request in process is held by exactly one worker.
\<close>

theorem pool_concurrency_bounded:
  assumes "pool_reachable path sid url n cap t p"
    and "length (rp_requests p) + length (rp_workers p) < 2 ^ 31"
  shows "sint (rp_activeCount p) = int (length (filter busy (rp_workers p))) \<and>
    length (filter (\<lambda>w. \<exists>i. w = Processing i) (rp_workers p)) \<le> nat (max 1 n) \<and>
    sint (rp_activeCount p) \<le> max 1 n \<and>
    sint (rp_waitingCount p) =
      int (length (filter unserved (rp_requests p)) + length (filter before_start (rp_workers p))) \<and>
    length (rp_queue p) \<le> cap \<and>
    (\<forall>i < length (rp_requests p). rp_requests p ! i = InWorker \<longrightarrow>
       length (filter (\<lambda>w. holds w = Some i) (rp_workers p)) = 1)"
proof -
  have inv: "counters_ok p" "queue_ok p" "workers_ok p"
    using pool_reachable_inv [OF assms(1)] by (auto simp: pool_inv_def)
  have shape: "length (rp_workers p) = nat (max 1 n)" "rp_queueCapacity p = cap"
    using pool_reachable_shape [OF assms(1)] by auto
  have le: "length (filter P (rp_workers p)) \<le> nat (max 1 n)" for P
    using length_filter_le [of P "rp_workers p"] shape(1) by simp
  have "length (filter busy (rp_workers p)) < 2 ^ 31" using le [of busy] assms(2) shape(1) by linarith
  then have act: "sint (rp_activeCount p) = int (length (filter busy (rp_workers p)))"
    using inv(1) sint_of_nat by (simp add: counters_ok_def)
  have "length (filter unserved (rp_requests p)) + length (filter before_start (rp_workers p)) < 2 ^ 31"
    using length_filter_le [of unserved "rp_requests p"] length_filter_le [of before_start "rp_workers p"] assms(2) by linarith
  then have wait: "sint (rp_waitingCount p) =
      int (length (filter unserved (rp_requests p)) + length (filter before_start (rp_workers p)))"
    using inv(1) sint_of_nat by (simp only: counters_ok_def of_nat_add [symmetric])
  have "length (filter (\<lambda>w. holds w = Some i) (rp_workers p)) = 1"
    if "i < length (rp_requests p)" "rp_requests p ! i = InWorker" for i
    using inv(3) [unfolded workers_ok_def, rule_format, of i] that by simp
  then show ?thesis using act wait le [of busy] le [of "\<lambda>w. \<exists>i. w = Processing i"] inv(2) shape(2)
    by (auto simp: queue_ok_def)
qed

text \<open>One request enters the queue of a pool with one worker and is taken.\<close>

definition sample_pool :: RequestPool where
  "sample_pool = NewRequestPool ''/a'' ''e1'' ''http://127.0.0.1:9000'' 1 2 0"

abbreviation sample_reachable :: "RequestPool \<Rightarrow> bool" where
  "sample_reachable \<equiv> pool_reachable ''/a'' ''e1'' ''http://127.0.0.1:9000'' 1 2 0"

lemma sample_step: "sample_reachable p \<Longrightarrow> pool_step p q \<Longrightarrow> sample_reachable q"
  by (rule reach_step)

lemma sample_pool_busy:
  "\<exists>p. sample_reachable p \<and> rp_workers p = [Counted 0] \<and> rp_requests p = [InWorker] \<and> \<not> rp_shutdown p"
proof -
  have "sample_reachable sample_pool" unfolding sample_pool_def by (rule reach_init) simp
  from sample_step [OF this arrive]
  have 1: "sample_reachable (sample_pool\<lparr>rp_requests := [Entered], rp_waitingCount := 1\<rparr>)"
    by (simp add: sample_pool_def NewRequestPool_def)
  have 2: "sample_reachable (sample_pool\<lparr>rp_requests := [Queued], rp_waitingCount := 1, rp_queue := [0]\<rparr>)"
    using sample_step [OF 1 enqueue [of 0]] by (simp add: sample_pool_def NewRequestPool_def)
  have 3: "sample_reachable (sample_pool\<lparr>rp_requests := [InWorker], rp_waitingCount := 1, rp_workers := [Taken 0]\<rparr>)"
    using sample_step [OF 2 take [of _ 0 "[]" 0]] by (simp add: sample_pool_def NewRequestPool_def)
  have "sample_reachable (sample_pool\<lparr>rp_requests := [InWorker], rp_waitingCount := 1, rp_workers := [Counted 0],
      rp_activeCount := 1\<rparr>)"
    using sample_step [OF 3 count [of 0 _ 0]] by (simp add: sample_pool_def NewRequestPool_def)
  then show ?thesis by (intro exI conjI) (auto simp: sample_pool_def NewRequestPool_def)
qed

theorem pool_concurrency_bounded_witness:
  "\<exists>p. sample_reachable p \<and> sint (rp_activeCount p) = 1 \<and> sint (rp_waitingCount p) = 1"
proof -
  obtain p where p: "sample_reachable p" "rp_workers p = [Counted 0]" "rp_requests p = [InWorker]"
    using sample_pool_busy by blast
  then show ?thesis
    using pool_concurrency_bounded [OF p(1)] by (auto simp: unserved_def)
qed

section \<open>Progress\<close>

text \<open>Without shutdown no worker has left and no caller has hit the closed channel.\<close>

definition alive_ok :: "RequestPool \<Rightarrow> bool" where
  "alive_ok p \<longleftrightarrow> (\<not> rp_shutdown p \<longrightarrow> SendPanic \<notin> set (rp_requests p) \<and> Exited \<notin> set (rp_workers p))"

lemma alive_reachable: "pool_reachable path sid url n cap t p \<Longrightarrow> alive_ok p"
proof (induction rule: reach.induct)
  case (reach_step p q)
  from reach_step(2) show ?case
    using reach_step.IH
    by cases (auto simp: alive_ok_def RequestPool_Shutdown_def dest!: set_update_subset_insert [THEN subsetD])
qed (auto simp: alive_ok_def NewRequestPool_def Let_def)

text \<open>A step that is neither the arrival of a request nor the shutdown.\<close>

definition serve_step :: "RequestPool \<Rightarrow> RequestPool \<Rightarrow> bool" where
  "serve_step p q \<longleftrightarrow>
     pool_step p q \<and> length (rp_requests q) = length (rp_requests p) \<and> q \<noteq> RequestPool_Shutdown p"

fun request_rank :: "RequestState \<Rightarrow> nat" where
  "request_rank Entered = 8"
| "request_rank Queued = 7"
| "request_rank Rejecting = 1"
| "request_rank _ = 0"

fun worker_rank :: "WorkerState \<Rightarrow> nat" where
  "worker_rank (Taken _) = 5"
| "worker_rank (Counted _) = 4"
| "worker_rank (Processing _) = 3"
| "worker_rank Finishing = 2"
| "worker_rank Idle = 1"
| "worker_rank Exited = 0"

definition pool_work :: "RequestPool \<Rightarrow> nat" where
  "pool_work p = sum_list (map request_rank (rp_requests p)) + sum_list (map worker_rank (rp_workers p))"

lemma serve_step_decreases:
  assumes "pool_inv p" and "serve_step p q"
  shows "pool_work q < pool_work p"
proof -
  note req = sum_update [of _ "rp_requests p" request_rank]
  note wrk = sum_update [of _ "rp_workers p" worker_rank]
  have "pool_step p q" using assms(2) by (simp add: serve_step_def)
  then show ?thesis
  proof cases
    case (take i qa w)
    then show ?thesis
      using assms queue_head [of p i qa] req [of i InWorker] wrk [of w "Taken i"] by (simp add: pool_inv_def pool_work_def)
  next
    case (finish w i)
    then show ?thesis
      using assms processing_request [of p w i] req [of i Completed] wrk [of w Finishing]
      by (simp add: pool_inv_def pool_work_def)
  next
    case (enqueue i)
    then show ?thesis using req [of i Queued] by (simp add: pool_work_def)
  next
    case (handoff i w)
    then show ?thesis using req [of i InWorker] wrk [of w "Taken i"] by (simp add: pool_work_def)
  next
    case (full i)
    then show ?thesis using req [of i Rejecting] by (simp add: pool_work_def)
  next
    case (reject i)
    then show ?thesis using req [of i Rejected] by (simp add: pool_work_def)
  next
    case (send_closed i)
    then show ?thesis using req [of i SendPanic] by (simp add: pool_work_def)
  next
    case (count w i)
    then show ?thesis using wrk [of w "Counted i"] by (simp add: pool_work_def)
  next
    case (start w i)
    then show ?thesis using wrk [of w "Processing i"] by (simp add: pool_work_def)
  next
    case (release w)
    then show ?thesis using wrk [of w Idle] by (simp add: pool_work_def)
  next
    case (leave w)
    then show ?thesis using wrk [of w Exited] by (simp add: pool_work_def)
  qed (use assms(2) in \<open>auto simp: serve_step_def RequestPool_Shutdown_def\<close>)
qed

lemma serve_stepI:
  "pool_step p q \<Longrightarrow> length (rp_requests q) = length (rp_requests p) \<Longrightarrow> \<not> rp_shutdown q \<Longrightarrow> serve_step p q"
  by (auto simp: serve_step_def RequestPool_Shutdown_def)

text \<open>When no such step is possible and the pool is not shut down, the workers are idle and nothing is open.\<close>

lemma stuck_workers_idle:
  assumes "alive_ok p" and up: "\<not> rp_shutdown p" and stuck: "\<And>q. \<not> serve_step p q" and w: "w < length (rp_workers p)"
  shows "rp_workers p ! w = Idle"
proof (cases "rp_workers p ! w")
  case (Taken i)
  then show ?thesis using stuck serve_stepI [OF count [OF w Taken]] up by simp
next
  case (Counted i)
  then show ?thesis using stuck serve_stepI [OF start [OF w Counted]] up by simp
next
  case (Processing i)
  then show ?thesis using stuck serve_stepI [OF finish [OF w Processing]] up by simp
next
  case Finishing
  then show ?thesis using stuck serve_stepI [OF release [OF w Finishing]] up by simp
next
  case Exited
  then show ?thesis using assms(1) up w by (metis alive_ok_def nth_mem)
qed

lemma stuck_requests_decided:
  assumes up: "\<not> rp_shutdown p" and stuck: "\<And>q. \<not> serve_step p q" and i: "i < length (rp_requests p)"
  shows "rp_requests p ! i \<noteq> Entered \<and> rp_requests p ! i \<noteq> Rejecting"
proof (intro conjI notI)
  assume e: "rp_requests p ! i = Entered"
  show False
  proof (cases "length (rp_queue p) < rp_queueCapacity p")
    case True
    then show False using stuck serve_stepI [OF enqueue [OF i e up True]] up by simp
  next
    case False
    then show False using stuck serve_stepI [OF full [OF i e up]] up by simp
  qed
next
  assume r: "rp_requests p ! i = Rejecting"
  then show False using stuck serve_stepI [OF reject [OF i r]] up by simp
qed

lemma stuck_queue_empty:
  assumes up: "\<not> rp_shutdown p" and stuck: "\<And>q. \<not> serve_step p q" and "0 < length (rp_workers p)" and "rp_workers p ! 0 = Idle"
  shows "rp_queue p = []"
proof (cases "rp_queue p")
  case (Cons i q)
  then show ?thesis using stuck serve_stepI [OF take [OF Cons assms(3,4)]] up by simp
qed simp

lemma stuck_all_served:
  assumes inv: "pool_inv p" and alive: "alive_ok p" and up: "\<not> rp_shutdown p" and "0 < length (rp_workers p)"
    and stuck: "\<And>q. \<not> serve_step p q"
  shows "(\<forall>r \<in> set (rp_requests p). r = Completed \<or> r = Rejected) \<and> rp_queue p = [] \<and>
    rp_activeCount p = 0 \<and> rp_waitingCount p = 0"
proof -
  have idle: "\<forall>w \<in> set (rp_workers p). w = Idle"
    using stuck_workers_idle [OF alive up stuck] by (auto simp: in_set_conv_nth)
  have queue: "rp_queue p = []"
    by (rule stuck_queue_empty [OF up stuck assms(4)]) (use idle assms(4) in simp)
  have served: "rp_requests p ! i = Completed \<or> rp_requests p ! i = Rejected" if i: "i < length (rp_requests p)" for i
  proof -
    have "rp_requests p ! i \<noteq> InWorker"
    proof
      assume "rp_requests p ! i = InWorker"
      moreover have "filter (\<lambda>w. holds w = Some i) (rp_workers p) = []" using idle by (auto simp: filter_empty_conv)
      moreover have "workers_ok p" using inv by (simp add: pool_inv_def)
      note this [unfolded workers_ok_def, rule_format, of i]
      ultimately show False using i by simp
    qed
    moreover have "rp_requests p ! i \<noteq> Queued" using inv queue i by (auto simp: pool_inv_def queue_ok_def)
    moreover have "rp_requests p ! i \<noteq> SendPanic" using alive up i by (metis alive_ok_def nth_mem)
    ultimately show ?thesis
      using stuck_requests_decided [OF up stuck i] by (cases "rp_requests p ! i") auto
  qed
  then have all: "\<forall>r \<in> set (rp_requests p). r = Completed \<or> r = Rejected" by (metis in_set_conv_nth)
  have "filter busy (rp_workers p) = []" "filter before_start (rp_workers p) = []"
    using idle by (auto simp: filter_empty_conv)
  moreover have "filter unserved (rp_requests p) = []" using all by (auto simp: filter_empty_conv unserved_def)
  ultimately show ?thesis using all queue inv by (simp add: pool_inv_def counters_ok_def)
qed

text \<open>
  C12: Every accepted request is served. In any reachable state of a pool that is not shut down, whatever
  the interleaving, each step other than a new arrival or the shutdown decreases the remaining work,
  so only finitely many are possible; and when none is possible every request has been completed or
  rejected, the queue is empty and both counters are back to zero.
\<close>

theorem pool_drains:
  assumes "pool_reachable path sid url n cap t p" and "\<not> rp_shutdown p"
  shows "(\<forall>q. serve_step p q \<longrightarrow> pool_work q < pool_work p) \<and>
    ((\<forall>q. \<not> serve_step p q) \<longrightarrow>
      (\<forall>r \<in> set (rp_requests p). r = Completed \<or> r = Rejected) \<and> rp_queue p = [] \<and>
      rp_activeCount p = 0 \<and> rp_waitingCount p = 0)"
proof -
  have "0 < length (rp_workers p)" using pool_reachable_shape [OF assms(1)] by simp
  then show ?thesis
    using serve_step_decreases pool_reachable_inv [OF assms(1)] alive_reachable [OF assms(1)] assms(2)
      stuck_all_served [of p] by blast
qed

theorem pool_drains_witness:
  "\<exists>p q. sample_reachable p \<and> serve_step p q \<and> pool_work q < pool_work p"
proof -
  obtain p where p: "sample_reachable p" "rp_workers p = [Counted 0]" "\<not> rp_shutdown p" using sample_pool_busy by blast
  let ?q = "p\<lparr>rp_workers := (rp_workers p)[0 := Processing 0], rp_waitingCount := rp_waitingCount p - 1\<rparr>"
  have "pool_step p ?q" by (rule start) (simp_all add: p(2))
  then have "serve_step p ?q" by (rule serve_stepI) (simp_all add: p(3))
  then show ?thesis using pool_drains [OF p(1,3)] p(1) by blast
qed

section \<open>Shutdown\<close>

text \<open>
  Closing the queue in \<open>Shutdown\<close> is not guarded against callers: a caller that obtained the pool
  before it was removed and sends afterwards hits a closed channel.
\<close>

lemma shutdown_send_panics: "\<exists>p. sample_reachable p \<and> rp_requests p = [SendPanic]"
proof -
  have "sample_reachable sample_pool" unfolding sample_pool_def by (rule reach_init) simp
  from sample_step [OF this arrive]
  have 1: "sample_reachable (sample_pool\<lparr>rp_requests := [Entered], rp_waitingCount := 1\<rparr>)"
    by (simp add: sample_pool_def NewRequestPool_def)
  have 2: "sample_reachable (sample_pool\<lparr>rp_requests := [Entered], rp_waitingCount := 1, rp_shutdown := True\<rparr>)"
    using sample_step [OF 1 shutdown] by (simp add: RequestPool_Shutdown_def)
  have "sample_reachable (sample_pool\<lparr>rp_requests := [SendPanic], rp_waitingCount := 1, rp_shutdown := True\<rparr>)"
    using sample_step [OF 2 send_closed [of 0]] by (simp add: sample_pool_def NewRequestPool_def)
  then show ?thesis by (intro exI conjI) auto
qed

end
