(* ===== verification/Breaker.thy ===== *)
theory Breaker
  imports Prelude
begin

text \<open>
  \<open>internal/business/circuitbreaker/circuitbreaker.go\<close> and \<open>internal/business/healthcheck/healthcheck.go\<close>:
  the circuit breaker state machine and the passive health checker. Every method runs under the
  object's mutex, so a history is a sequence of calls; each call carries the clock reading it makes.
\<close>

section \<open>Circuit breaker\<close>

datatype State = Closed | Open | HalfOpen

record CircuitBreaker =
  cb_state :: State
  cb_failureCount :: int
  cb_successCount :: int
  cb_failureThreshold :: int
  cb_successThreshold :: int
  cb_timeout :: duration
  cb_lastFailureTime :: time
  cb_halfOpenMaxReqs :: int
  cb_activeHalfOpen :: i32

definition CircuitBreaker_New :: CircuitBreaker where
  "CircuitBreaker_New =
     \<lparr>cb_state = Closed, cb_failureCount = 0, cb_successCount = 0, cb_failureThreshold = 5, cb_successThreshold = 2,
      cb_timeout = seconds 30, cb_lastFailureTime = 0, cb_halfOpenMaxReqs = 1, cb_activeHalfOpen = 0\<rparr>"

definition half_open_slot :: "CircuitBreaker \<Rightarrow> bool" where
  "half_open_slot cb \<longleftrightarrow> sint (cb_activeHalfOpen cb) < sint (word_of_int (cb_halfOpenMaxReqs cb) :: i32)"

definition CircuitBreaker_Allow :: "time \<Rightarrow> CircuitBreaker \<Rightarrow> bool \<times> CircuitBreaker" where
  "CircuitBreaker_Allow now cb =
     (case cb_state cb of
        Closed \<Rightarrow> (True, cb)
      | Open \<Rightarrow>
          if time_sub now (cb_lastFailureTime cb) \<ge> cb_timeout cb then
            let cb = cb\<lparr>cb_state := HalfOpen, cb_successCount := 0, cb_failureCount := 0\<rparr> in (half_open_slot cb, cb)
          else (False, cb)
      | HalfOpen \<Rightarrow> (half_open_slot cb, cb))"

definition CircuitBreaker_RecordSuccess :: "CircuitBreaker \<Rightarrow> CircuitBreaker" where
  "CircuitBreaker_RecordSuccess cb =
     (if cb_state cb = HalfOpen then
        let cb = cb\<lparr>cb_activeHalfOpen := cb_activeHalfOpen cb - 1, cb_successCount := cb_successCount cb + 1\<rparr>
        in if cb_successCount cb \<ge> cb_successThreshold cb then cb\<lparr>cb_state := Closed, cb_failureCount := 0\<rparr> else cb
      else if cb_state cb = Closed then cb\<lparr>cb_failureCount := 0\<rparr>
      else cb)"

definition CircuitBreaker_RecordFailure :: "time \<Rightarrow> CircuitBreaker \<Rightarrow> CircuitBreaker" where
  "CircuitBreaker_RecordFailure now cb =
     (let cb = cb\<lparr>cb_lastFailureTime := now\<rparr>
      in if cb_state cb = HalfOpen then cb\<lparr>cb_activeHalfOpen := cb_activeHalfOpen cb - 1, cb_state := Open\<rparr>
         else
           let cb = cb\<lparr>cb_failureCount := cb_failureCount cb + 1\<rparr>
           in if cb_failureCount cb \<ge> cb_failureThreshold cb then cb\<lparr>cb_state := Open\<rparr> else cb)"

definition CircuitBreaker_Reset :: "CircuitBreaker \<Rightarrow> CircuitBreaker" where
  "CircuitBreaker_Reset cb =
     cb\<lparr>cb_state := Closed, cb_failureCount := 0, cb_successCount := 0, cb_activeHalfOpen := 0\<rparr>"

inductive cb_step :: "CircuitBreaker \<Rightarrow> CircuitBreaker \<Rightarrow> bool" where
  cb_allow: "cb_step cb (snd (CircuitBreaker_Allow now cb))"
| cb_success: "cb_step cb (CircuitBreaker_RecordSuccess cb)"
| cb_failure: "cb_step cb (CircuitBreaker_RecordFailure now cb)"
| cb_reset: "cb_step cb (CircuitBreaker_Reset cb)"

inductive_cases cb_stepE: "cb_step cb cb'"

definition cb_inv :: "CircuitBreaker \<Rightarrow> bool" where
  "cb_inv cb \<longleftrightarrow>
     cb_failureThreshold cb = 5 \<and> cb_successThreshold cb = 2 \<and> cb_timeout cb = seconds 30 \<and> cb_halfOpenMaxReqs cb = 1 \<and>
     0 \<le> cb_failureCount cb \<and> (cb_state cb = Closed \<longrightarrow> cb_failureCount cb < 5) \<and>
     (cb_state cb = HalfOpen \<longrightarrow> cb_failureCount cb = 0 \<and> 0 \<le> cb_successCount cb \<and> cb_successCount cb < 2)"

interpretation cb_sys: invariant_system "\<lambda>cb. cb = CircuitBreaker_New" cb_step cb_inv
proof
  show "cb_inv cb" if "cb = CircuitBreaker_New" for cb using that by (simp add: cb_inv_def CircuitBreaker_New_def)
  show "cb_inv cb'" if "cb_inv cb" "cb_step cb cb'" for cb cb'
    using that(2,1)
    by (cases rule: cb_step.cases)
       (auto simp: cb_inv_def CircuitBreaker_Allow_def CircuitBreaker_RecordSuccess_def CircuitBreaker_RecordFailure_def
          CircuitBreaker_Reset_def Let_def split: State.splits)
qed

abbreviation cb_reachable :: "CircuitBreaker \<Rightarrow> bool" where
  "cb_reachable \<equiv> reach (\<lambda>cb. cb = CircuitBreaker_New) cb_step"

text \<open>
  C37: The circuit breaker in every reachable state. While closed it lets requests through and has seen
  fewer than five failures since the last success, the fifth opens it. While open it refuses until
  30 seconds after the last failure and then turns half open. While half open one failure opens it
  again and a second success closes it with a clean failure count.
\<close>

theorem circuit_breaker_transitions:
  assumes "cb_reachable cb"
  shows "case cb_state cb of
      Closed \<Rightarrow> fst (CircuitBreaker_Allow now cb) \<and> cb_failureCount cb < 5 \<and>
        (cb_state (CircuitBreaker_RecordFailure now cb) = Open \<longleftrightarrow> cb_failureCount cb = 4) \<and>
        cb_failureCount (CircuitBreaker_RecordSuccess cb) = 0
    | Open \<Rightarrow>
        (cb_state (snd (CircuitBreaker_Allow now cb)) = HalfOpen \<longleftrightarrow> now - cb_lastFailureTime cb \<ge> seconds 30) \<and>
        (now - cb_lastFailureTime cb < seconds 30 \<longrightarrow> CircuitBreaker_Allow now cb = (False, cb)) \<and>
        CircuitBreaker_RecordSuccess cb = cb
    | HalfOpen \<Rightarrow>
        cb_state (CircuitBreaker_RecordFailure now cb) = Open \<and>
        (cb_state (CircuitBreaker_RecordSuccess cb) = Closed \<longleftrightarrow> cb_successCount cb = 1) \<and>
        (cb_state (CircuitBreaker_RecordSuccess cb) = Closed \<longrightarrow> cb_failureCount (CircuitBreaker_RecordSuccess cb) = 0)"
  using cb_sys.reach_inv [OF assms] time_sub_ge [of "seconds 30" now "cb_lastFailureTime cb"]
  by (auto simp: cb_inv_def CircuitBreaker_Allow_def CircuitBreaker_RecordSuccess_def CircuitBreaker_RecordFailure_def
      Let_def i64_max_def split: State.split)

theorem circuit_breaker_transitions_witness:
  "fst (CircuitBreaker_Allow 7 CircuitBreaker_New) \<and> cb_failureCount CircuitBreaker_New < 5"
proof -
  have "cb_reachable CircuitBreaker_New" by (rule reach_init) simp
  from circuit_breaker_transitions [OF this, of 7] show ?thesis by (simp add: CircuitBreaker_New_def)
qed

text \<open>
  The half-open limit is not enforced: nothing ever raises \<open>activeHalfOpen\<close>, so short of wrapping
  round it stays at or below zero and every caller finds a free slot.
\<close>

lemma half_open_never_full:
  assumes "cb_halfOpenMaxReqs cb = 1" and "sint (cb_activeHalfOpen cb) \<le> 0"
  shows "half_open_slot cb"
  using assms by (simp add: half_open_slot_def)

lemma active_half_open_never_raised:
  assumes "cb_step cb cb'" and "sint (cb_activeHalfOpen cb) \<le> 0" and "- (2 ^ 31) < sint (cb_activeHalfOpen cb)"
  shows "sint (cb_activeHalfOpen cb') \<le> 0"
proof -
  have "sint (cb_activeHalfOpen cb - 1) = sint (cb_activeHalfOpen cb) - 1"
    using sint_i32_sub [of "cb_activeHalfOpen cb" 1] assms(2,3) by simp
  then show ?thesis
    using assms
    by (auto elim!: cb_stepE simp: CircuitBreaker_Allow_def CircuitBreaker_RecordSuccess_def
        CircuitBreaker_RecordFailure_def CircuitBreaker_Reset_def Let_def split: State.splits)
qed

section \<open>Passive health checks\<close>

record EndpointHealth =
  eh_ConsecutiveFailures :: int
  eh_LastFailureTime :: time
  eh_LastSuccessTime :: time
  eh_IsHealthy :: bool

type_synonym PassiveHealthChecker = "EndpointHealth gomap"

definition FailureThreshold :: int where
  "FailureThreshold = 3"

definition RecoveryInterval :: duration where
  "RecoveryInterval = seconds 30"

definition health_entry :: "PassiveHealthChecker \<Rightarrow> string \<Rightarrow> EndpointHealth" where
  "health_entry h path =
     (case map_of h path of
        Some state \<Rightarrow> state
      | None \<Rightarrow> \<lparr>eh_ConsecutiveFailures = 0, eh_LastFailureTime = 0, eh_LastSuccessTime = 0, eh_IsHealthy = True\<rparr>)"

definition PassiveHealthChecker_RecordSuccess :: "time \<Rightarrow> string \<Rightarrow> PassiveHealthChecker \<Rightarrow> PassiveHealthChecker" where
  "PassiveHealthChecker_RecordSuccess now path h =
     AList.update path ((health_entry h path)\<lparr>eh_ConsecutiveFailures := 0, eh_LastSuccessTime := now, eh_IsHealthy := True\<rparr>) h"

definition PassiveHealthChecker_RecordFailure :: "time \<Rightarrow> string \<Rightarrow> PassiveHealthChecker \<Rightarrow> PassiveHealthChecker" where
  "PassiveHealthChecker_RecordFailure now path h =
     (let state = health_entry h path;
          state = state\<lparr>eh_ConsecutiveFailures := eh_ConsecutiveFailures state + 1, eh_LastFailureTime := now\<rparr>;
          state = (if eh_ConsecutiveFailures state \<ge> FailureThreshold then state\<lparr>eh_IsHealthy := False\<rparr> else state)
      in AList.update path state h)"

definition PassiveHealthChecker_IsHealthy :: "PassiveHealthChecker \<Rightarrow> string \<Rightarrow> bool" where
  "PassiveHealthChecker_IsHealthy h path = (case map_of h path of None \<Rightarrow> True | Some state \<Rightarrow> eh_IsHealthy state)"

definition PassiveHealthChecker_ShouldAllowProbe :: "time \<Rightarrow> PassiveHealthChecker \<Rightarrow> string \<Rightarrow> bool" where
  "PassiveHealthChecker_ShouldAllowProbe now h path =
     (case map_of h path of
        None \<Rightarrow> True
      | Some state \<Rightarrow> if eh_IsHealthy state then True else time_sub now (eh_LastFailureTime state) \<ge> RecoveryInterval)"

datatype health_event = Success time string | Failure time string

fun health_run :: "health_event list \<Rightarrow> PassiveHealthChecker \<Rightarrow> PassiveHealthChecker" where
  "health_run [] h = h"
| "health_run (Success t p # es) h = health_run es (PassiveHealthChecker_RecordSuccess t p h)"
| "health_run (Failure t p # es) h = health_run es (PassiveHealthChecker_RecordFailure t p h)"

text \<open>The specification: failures of a path since its last success, and the time of the last one.\<close>

fun failures_since :: "string \<Rightarrow> health_event list \<Rightarrow> nat \<Rightarrow> nat" where
  "failures_since q [] n = n"
| "failures_since q (Success t p # es) n = failures_since q es (if p = q then 0 else n)"
| "failures_since q (Failure t p # es) n = failures_since q es (if p = q then Suc n else n)"

fun last_failure :: "string \<Rightarrow> health_event list \<Rightarrow> time \<Rightarrow> time" where
  "last_failure q [] t0 = t0"
| "last_failure q (Success t p # es) t0 = last_failure q es t0"
| "last_failure q (Failure t p # es) t0 = last_failure q es (if p = q then t else t0)"

definition health_rep :: "PassiveHealthChecker \<Rightarrow> string \<Rightarrow> nat \<Rightarrow> time \<Rightarrow> bool" where
  "health_rep h q n t \<longleftrightarrow>
     eh_ConsecutiveFailures (health_entry h q) = int n \<and> eh_IsHealthy (health_entry h q) = (n < 3) \<and>
     eh_LastFailureTime (health_entry h q) = t"

lemma health_run_rep:
  "health_rep h q n t \<Longrightarrow> health_rep (health_run es h) q (failures_since q es n) (last_failure q es t)"
proof (induction es h arbitrary: n t rule: health_run.induct)
  case (2 s p es h)
  have "health_rep (PassiveHealthChecker_RecordSuccess s p h) q (if p = q then 0 else n) t"
    using 2(2) by (auto simp: health_rep_def PassiveHealthChecker_RecordSuccess_def health_entry_def map_of_update split: option.splits)
  from 2(1) [OF this] show ?case by simp
next
  case (3 s p es h)
  have "health_rep (PassiveHealthChecker_RecordFailure s p h) q (if p = q then Suc n else n) (if p = q then s else t)"
    using 3(2) by (auto simp: health_rep_def PassiveHealthChecker_RecordFailure_def FailureThreshold_def health_entry_def
        map_of_update Let_def split: option.splits)
  from 3(1) [OF this] show ?case by simp
qed simp

text \<open>
  C38: After any history of recorded successes and failures, in any interleaving of paths, a path is
  reported healthy iff it has had fewer than three failures since its last success, and a probe of an
  unhealthy path is allowed iff 30 seconds have passed since its last failure.
\<close>

theorem passive_health_exact:
  "(PassiveHealthChecker_IsHealthy (health_run es []) q \<longleftrightarrow> failures_since q es 0 < 3) \<and>
   (PassiveHealthChecker_ShouldAllowProbe now (health_run es []) q \<longleftrightarrow>
      failures_since q es 0 < 3 \<or> now - last_failure q es 0 \<ge> seconds 30)"
proof -
  have "health_rep [] q 0 0" by (simp add: health_rep_def health_entry_def)
  from health_run_rep [OF this, of es] show ?thesis
    using time_sub_ge [of "seconds 30" now "last_failure q es 0"]
    by (auto simp: health_rep_def health_entry_def PassiveHealthChecker_IsHealthy_def RecoveryInterval_def i64_max_def
        PassiveHealthChecker_ShouldAllowProbe_def split: option.splits)
qed

end
