(* ===== verification/Utils.thy ===== *)
theory Utils
  imports Go_Strings
begin

text \<open>
  \<open>internal/utils/\<close>: addresses, ports and service paths. The functions that only format the current
  time and the enumeration of network interfaces are left out.
\<close>

section \<open>Addresses\<close>

definition DefaultBusinessPort :: int where
  "DefaultBusinessPort = 15050"

definition GetHost :: "string \<Rightarrow> string" where
  "GetHost addr =
     (let idx = LastIndex addr CHR '':''
      in if idx > 0 then
           let host = take (nat idx) addr in if host = '''' \<or> host = ''0.0.0.0'' then ''127.0.0.1'' else host
         else ''127.0.0.1'')"

definition ExtractPort :: "string \<Rightarrow> int" where
  "ExtractPort addr =
     (let idx = LastIndex addr CHR '':''
      in if idx \<ge> 0 \<and> idx < int (length addr) - 1 then
           case Sscanf_d (drop (nat (idx + 1)) addr) of
             Some port \<Rightarrow> if port > 0 \<and> port \<le> 65535 then port else DefaultBusinessPort
           | None \<Rightarrow> DefaultBusinessPort
         else DefaultBusinessPort)"

definition GetPort :: "string \<Rightarrow> int" where
  "GetPort addr = ExtractPort addr"

definition ValidateAddress :: "string \<Rightarrow> bool" where
  "ValidateAddress addr =
     (if addr = '''' then False
      else if \<not> Contains addr '':'' then False
      else GetHost addr \<noteq> '''' \<and> GetPort addr > 0)"

section \<open>Strings\<close>

definition SplitAndTrim :: "string \<Rightarrow> char \<Rightarrow> string list" where
  "SplitAndTrim s sep =
     foldl (\<lambda>result part. let trimmed = TrimSpace part in if trimmed \<noteq> '''' then result @ [trimmed] else result)
       [] (Split sep s)"

definition IsEmpty :: "string \<Rightarrow> bool" where
  "IsEmpty s \<longleftrightarrow> TrimSpace s = ''''"

definition SanitizeString :: "string \<Rightarrow> string" where
  "SanitizeString s = TrimSpace s"

definition ExtractPortFromServicePath :: "string \<Rightarrow> int" where
  "ExtractPortFromServicePath servicePath =
     (let idx = Index servicePath CHR ''/'';
          portStr = (if idx = - 1 then servicePath else take (nat idx) servicePath)
      in case Atoi portStr of None \<Rightarrow> 0 | Some port \<Rightarrow> port)"

definition ExtractBaseFromServicePath :: "string \<Rightarrow> string" where
  "ExtractBaseFromServicePath servicePath =
     (let idx = Index servicePath CHR ''/'' in if idx = - 1 then '''' else drop (nat idx) servicePath)"

definition IsExpired :: "time \<Rightarrow> time \<Rightarrow> duration \<Rightarrow> bool" where
  "IsExpired now t timeout \<longleftrightarrow> time_sub now t > timeout"

section \<open>Properties\<close>

lemma ExtractPort_bounds: "1 \<le> ExtractPort addr \<and> ExtractPort addr \<le> 65535"
  by (auto simp: ExtractPort_def DefaultBusinessPort_def Let_def split: option.split)

text \<open>Anything with a colon passes for an address.\<close>

lemma ValidateAddress_iff: "ValidateAddress addr \<longleftrightarrow> CHR '':'' \<in> set addr"
proof -
  have "Contains addr '':'' \<longleftrightarrow> CHR '':'' \<in> set addr"
    by (auto simp: Contains_iff sublist_def) (metis split_list)
  moreover have "GetHost addr \<noteq> ''''" by (auto simp: GetHost_def Let_def)
  moreover have "GetPort addr > 0" using ExtractPort_bounds [of addr] by (simp add: GetPort_def)
  ultimately show ?thesis by (auto simp: ValidateAddress_def)
qed

text \<open>
  Reading back an address \<open>host:port\<close>. For every string at all the extracted port is a valid TCP
  port. For a port in 1..65535 printed after the last colon, the port comes back exactly, and so does
  the host unless it is empty or \<open>0.0.0.0\<close>, which both mean the loopback address; such addresses
  validate.
\<close>

theorem address_roundtrip:
  assumes "1 \<le> port" and "port \<le> 65535"
  shows "ExtractPort (host @ '':'' @ Itoa port) = port \<and>
    GetHost (host @ '':'' @ Itoa port) = (if host = '''' \<or> host = ''0.0.0.0'' then ''127.0.0.1'' else host) \<and>
    ValidateAddress (host @ '':'' @ Itoa port) \<and> 1 \<le> ExtractPort addr \<and> ExtractPort addr \<le> 65535"
proof -
  have idx: "LastIndex (host @ '':'' @ Itoa port) CHR '':'' = int (length host)"
    using LastIndex_append [of "CHR '':''" "Itoa port" host] Itoa_no_colon assms(1) by simp
  have "Sscanf_d (Itoa port) = Some port" using assms by (intro Sscanf_d_Itoa_end) (auto simp: i64_max_def)
  then have p: "ExtractPort (host @ '':'' @ Itoa port) = port"
    using idx assms by (simp add: ExtractPort_def nat_add_distrib)
  have h: "GetHost (host @ '':'' @ Itoa port) = (if host = '''' \<or> host = ''0.0.0.0'' then ''127.0.0.1'' else host)"
    using idx by (auto simp: GetHost_def)
  have "ValidateAddress (host @ '':'' @ Itoa port)" by (simp add: ValidateAddress_iff)
  then show ?thesis using p h ExtractPort_bounds by auto
qed

theorem address_roundtrip_witness:
  "ExtractPort (''10.0.0.7'' @ '':'' @ Itoa 8080) = 8080 \<and> GetHost (''10.0.0.7'' @ '':'' @ Itoa 8080) = ''10.0.0.7''"
  using address_roundtrip [of 8080 "''10.0.0.7''" "''''"] by simp

text \<open>
  A service path \<open>port/base\<close> splits back into its parts: for a port printed before the first slash,
  \<open>ExtractPortFromServicePath\<close> returns it and \<open>ExtractBaseFromServicePath\<close> the rest with its slash; the
  port alone has an empty base.
\<close>

theorem service_path_roundtrip:
  assumes "0 \<le> port" and "port \<le> i64_max"
  shows "ExtractPortFromServicePath (Itoa port @ ''/'' @ base) = port \<and>
    ExtractBaseFromServicePath (Itoa port @ ''/'' @ base) = ''/'' @ base \<and>
    ExtractPortFromServicePath (Itoa port) = port \<and> ExtractBaseFromServicePath (Itoa port) = ''''"
proof -
  have "Index (Itoa port @ ''/'' @ base) CHR ''/'' = int (length (Itoa port))"
    using Index_append [of "CHR ''/''" "Itoa port" base] Itoa_no_slash assms(1) by simp
  moreover have "Index (Itoa port) CHR ''/'' = - 1" using Itoa_no_slash [OF assms(1)] by (simp add: Index_def)
  moreover have "Atoi (Itoa port) = Some port" using assms by (intro Atoi_Itoa) (auto simp: i64_min_def)
  ultimately show ?thesis by (simp add: ExtractPortFromServicePath_def ExtractBaseFromServicePath_def)
qed

theorem service_path_roundtrip_witness:
  "ExtractPortFromServicePath (Itoa 18001 @ ''/'' @ ''v1/chat'') = 18001 \<and>
   ExtractBaseFromServicePath (Itoa 18001 @ ''/'' @ ''v1/chat'') = ''/v1/chat''"
  using service_path_roundtrip [of 18001 "''v1/chat''"] by (simp add: i64_max_def)

lemma SplitAndTrim_filter: "SplitAndTrim s sep = filter (\<lambda>x. x \<noteq> '''') (map TrimSpace (Split sep s))"
proof -
  have "foldl (\<lambda>result part. let trimmed = TrimSpace part in if trimmed \<noteq> '''' then result @ [trimmed] else result) acc ps
      = acc @ filter (\<lambda>x. x \<noteq> '''') (map TrimSpace ps)" for acc ps
    by (induction ps arbitrary: acc) (auto simp: Let_def)
  then show ?thesis by (simp add: SplitAndTrim_def)
qed

end
