(* ===== verification/Float64.thy ===== *)
theory Float64
  imports Prelude Complex_Main "HOL-Library.Log_Nat"
begin

text \<open>
  Go's \<open>float64\<close> on finite values: rational numbers, every operation followed by the IEEE 754
  rounding to the nearest representable value with ties to even. \<open>fl\<close> is that rounding, with the
  53-bit significand and the gradual underflow of the format. The program's scores are quotients and
  products of numbers far from the overflow threshold, so infinities do not arise.
  Expressions \<open>x*y + z\<close> are two roundings, as on targets without fused multiply-add.
\<close>

section \<open>Definition\<close>

text \<open>The nearest integer, ties to even.\<close>

definition round_even :: "rat \<Rightarrow> int" where
  "round_even z =
     (let f = \<lfloor>z\<rfloor>; d = z - of_int f
      in if d < 1 / 2 then f else if d > 1 / 2 then f + 1 else if even f then f else f + 1)"

text \<open>The binary exponent of a positive rational: \<open>2 powi exponent2 x \<le> x < 2 powi (exponent2 x + 1)\<close>.\<close>

definition exponent2 :: "rat \<Rightarrow> int" where
  "exponent2 x =
     (if 1 \<le> x then int (floorlog 2 (nat \<lfloor>x\<rfloor>)) - 1
      else - int (floorlog 2 (nat (\<lceil>1 / x\<rceil> - 1))))"

definition ulp_exponent :: "rat \<Rightarrow> int" where
  "ulp_exponent x = max (exponent2 x - 52) (- 1074)"

definition fl_pos :: "rat \<Rightarrow> rat" where
  "fl_pos x = of_int (round_even (x / 2 powi ulp_exponent x)) * 2 powi ulp_exponent x"

definition fl :: "rat \<Rightarrow> rat" where
  "fl x = (if x = 0 then 0 else if x < 0 then - fl_pos (- x) else fl_pos x)"

section \<open>Rounding to an integer\<close>

lemma round_even_of_int [simp]: "round_even (of_int n) = n"
  by (simp add: round_even_def)

lemma round_even_mono:
  assumes "x \<le> y"
  shows "round_even x \<le> round_even y"
proof -
  have fl: "\<lfloor>x\<rfloor> \<le> \<lfloor>y\<rfloor>" using assms by (rule floor_mono)
  have up: "round_even x \<le> \<lfloor>x\<rfloor> + 1" and low: "\<lfloor>y\<rfloor> \<le> round_even y" by (auto simp: round_even_def Let_def)
  show ?thesis
  proof (cases "\<lfloor>x\<rfloor> = \<lfloor>y\<rfloor>")
    case True
    then show ?thesis using assms by (auto simp: round_even_def Let_def)
  next
    case False
    then show ?thesis using fl up low by linarith
  qed
qed

section \<open>The exponent\<close>

lemma floorlog_gt: "m < 2 ^ floorlog 2 m"
  using floorlog_bounds [of m 2] by (cases "m = 0") (auto simp: floorlog_def)

lemma exponent2_bounds:
  assumes "0 < x"
  shows "2 powi exponent2 x \<le> x \<and> x < 2 powi (exponent2 x + 1)"
proof (cases "1 \<le> x")
  case True
  let ?m = "nat \<lfloor>x\<rfloor>"
  have m: "0 < ?m" using True by simp
  have b: "2 ^ (floorlog 2 ?m - 1) \<le> ?m" "?m < 2 ^ floorlog 2 ?m"
    using floorlog_bounds [of ?m 2] m by auto
  have pos: "0 < floorlog 2 ?m" using m by (simp add: floorlog_def)
  have "(2 :: rat) ^ (floorlog 2 ?m - 1) \<le> of_nat ?m"
    using b(1) by (metis of_nat_le_iff of_nat_numeral of_nat_power)
  also have "\<dots> \<le> x" using True by (simp add: of_nat_nat)
  finally have lo: "(2 :: rat) ^ (floorlog 2 ?m - 1) \<le> x" .
  have "\<lfloor>x\<rfloor> < 2 ^ floorlog 2 ?m" using b(2) m by (metis nat_less_iff of_nat_numeral of_nat_power order_less_imp_le zero_less_nat_eq)
  then have hi: "x < 2 ^ floorlog 2 ?m" by (metis floor_less_iff of_int_numeral of_int_power)
  have "exponent2 x = int (floorlog 2 ?m - 1)" "exponent2 x + 1 = int (floorlog 2 ?m)"
    using True pos by (auto simp: exponent2_def of_nat_diff)
  then show ?thesis using lo hi by (simp only: power_int_of_nat)
next
  case False
  let ?y = "1 / x" and ?m = "nat (\<lceil>1 / x\<rceil> - 1)"
  let ?j = "floorlog 2 ?m"
  have y: "1 < ?y" using False assms by simp
  then have m: "0 < ?m" by (simp add: less_ceiling_iff)
  have b: "2 ^ (?j - 1) \<le> ?m" "?m < 2 ^ ?j" using floorlog_bounds [of ?m 2] m by auto
  have pos: "0 < ?j" using m by (simp add: floorlog_def)
  have "\<lceil>?y\<rceil> - 1 < 2 ^ ?j" using b(2) m by (metis nat_less_iff of_nat_numeral of_nat_power order_less_imp_le zero_less_nat_eq)
  then have "\<lceil>?y\<rceil> \<le> 2 ^ ?j" by simp
  then have "?y \<le> 2 ^ ?j" by (metis ceiling_le_iff of_int_numeral of_int_power)
  then have lo: "1 / 2 ^ ?j \<le> x" using assms by (simp add: field_simps)
  have "2 ^ (?j - 1) < \<lceil>?y\<rceil>" using b(1) m by (simp add: le_nat_iff)
  then have "2 ^ (?j - 1) < ?y" by (metis less_ceiling_iff of_int_numeral of_int_power)
  then have hi: "x < 1 / 2 ^ (?j - 1)" using assms by (simp add: field_simps)
  have "exponent2 x = - int ?j" "exponent2 x + 1 = - int (?j - 1)"
    using False pos by (auto simp: exponent2_def of_nat_diff)
  then show ?thesis using lo hi by (simp only: power_int_minus power_int_of_nat inverse_eq_divide)
qed

lemma exponent2_unique:
  assumes "0 < x" and "2 powi k \<le> x" and "x < 2 powi (k + 1)"
  shows "exponent2 x = k"
proof -
  have "(2 :: rat) powi k < 2 powi (exponent2 x + 1)" "(2 :: rat) powi exponent2 x < 2 powi (k + 1)"
    using assms exponent2_bounds [OF assms(1)] by linarith+
  then have "k < exponent2 x + 1" "exponent2 x < k + 1"
    by (metis linorder_not_less one_le_numeral power_int_increasing)+
  then show ?thesis by linarith
qed

lemma exponent2_mono: "0 < x \<Longrightarrow> x \<le> y \<Longrightarrow> exponent2 x \<le> exponent2 y"
proof -
  assume "0 < x" "x \<le> y"
  then have "(2 :: rat) powi exponent2 x < 2 powi (exponent2 y + 1)"
    using exponent2_bounds [of x] exponent2_bounds [of y] by linarith
  then show ?thesis by (metis linorder_not_less one_le_numeral power_int_increasing zless_add1_eq order_le_less)
qed

section \<open>Laws of rounding\<close>

lemma powi_grid:
  assumes "u \<le> e"
  shows "of_int m * 2 powi e = (of_int (m * 2 ^ nat (e - u)) :: rat) * 2 powi u"
proof -
  have "(2 :: rat) powi (int (nat (e - u)) + u) = 2 ^ nat (e - u) * 2 powi u"
    using power_int_add [of "2 :: rat" "int (nat (e - u))" u] by (simp only: power_int_of_nat) simp
  moreover have "int (nat (e - u)) + u = e" using assms by simp
  ultimately show ?thesis by simp
qed

text \<open>A value on the grid of \<open>x\<close> separates: rounding does not cross it.\<close>

lemma fl_pos_le_grid:
  assumes "x \<le> of_int m * 2 powi e" and "ulp_exponent x \<le> e"
  shows "fl_pos x \<le> of_int m * 2 powi e"
proof -
  let ?u = "ulp_exponent x"
  let ?n = "m * 2 ^ nat (e - ?u)"
  have v: "of_int m * 2 powi e = (of_int ?n :: rat) * 2 powi ?u"
    using assms(2) by (rule powi_grid)
  have "x \<le> of_int ?n * 2 powi ?u" using assms(1) unfolding v .
  then have "x / 2 powi ?u \<le> of_int ?n" by (simp add: divide_le_eq)
  then have "round_even (x / 2 powi ?u) \<le> ?n" using round_even_mono round_even_of_int by metis
  then have "(of_int (round_even (x / 2 powi ?u)) :: rat) \<le> of_int ?n" by (simp only: of_int_le_iff)
  then show ?thesis unfolding fl_pos_def v by (rule mult_right_mono) simp
qed

lemma fl_pos_ge_grid:
  assumes "of_int m * 2 powi e \<le> x" and "ulp_exponent x \<le> e"
  shows "of_int m * 2 powi e \<le> fl_pos x"
proof -
  let ?u = "ulp_exponent x"
  let ?n = "m * 2 ^ nat (e - ?u)"
  have v: "of_int m * 2 powi e = (of_int ?n :: rat) * 2 powi ?u"
    using assms(2) by (rule powi_grid)
  have "of_int ?n * 2 powi ?u \<le> x" using assms(1) unfolding v .
  then have "of_int ?n \<le> x / 2 powi ?u" by (simp add: le_divide_eq)
  then have "?n \<le> round_even (x / 2 powi ?u)" using round_even_mono round_even_of_int by metis
  then have "of_int ?n \<le> (of_int (round_even (x / 2 powi ?u)) :: rat)" by (simp only: of_int_le_iff)
  then show ?thesis unfolding fl_pos_def v by (rule mult_right_mono) simp
qed

lemma fl_pos_nonneg: "0 \<le> x \<Longrightarrow> 0 \<le> fl_pos x"
  using fl_pos_ge_grid [of 0 "ulp_exponent x" x] by simp

lemma fl_pos_mono:
  assumes "0 < x" and "x \<le> y"
  shows "fl_pos x \<le> fl_pos y"
proof (cases "ulp_exponent x = ulp_exponent y")
  case True
  have "x / 2 powi ulp_exponent y \<le> y / 2 powi ulp_exponent y" using assms(2) by (simp add: divide_right_mono)
  then have "(of_int (round_even (x / 2 powi ulp_exponent y)) :: rat) \<le> of_int (round_even (y / 2 powi ulp_exponent y))"
    by (simp add: round_even_mono)
  then show ?thesis unfolding fl_pos_def True by (rule mult_right_mono) simp
next
  case False
  have "exponent2 x \<le> exponent2 y" using assms by (rule exponent2_mono)
  with False have lt: "exponent2 x < exponent2 y" "ulp_exponent x \<le> exponent2 y" "ulp_exponent y \<le> exponent2 y"
    by (auto simp: ulp_exponent_def max_def split: if_splits)
  have "x < 2 powi (exponent2 x + 1)" using exponent2_bounds [OF assms(1)] by simp
  also have "\<dots> \<le> 2 powi exponent2 y" using lt(1) by (intro power_int_increasing) auto
  finally have "fl_pos x \<le> 2 powi exponent2 y"
    using fl_pos_le_grid [of x 1 "exponent2 y"] lt(2) by simp
  also have "\<dots> \<le> fl_pos y"
    using fl_pos_ge_grid [of 1 "exponent2 y" y] lt(3) exponent2_bounds [of y] assms by simp
  finally show ?thesis .
qed

lemma fl_mono: "x \<le> y \<Longrightarrow> fl x \<le> fl y"
  using fl_pos_mono [of x y] fl_pos_mono [of "- y" "- x"] fl_pos_nonneg [of y] fl_pos_nonneg [of "- x"]
  by (auto simp: fl_def)

text \<open>A multiple of the grid that is not finer than its own unit in the last place is a fixed point.\<close>

lemma fl_pos_grid:
  assumes "0 < x" and "x = of_int m * 2 powi e" and "ulp_exponent x \<le> e"
  shows "fl_pos x = x"
  using fl_pos_le_grid [of x m e] fl_pos_ge_grid [of m e x] assms by simp

lemma fl_0 [simp]: "fl 0 = 0"
  by (simp add: fl_def)

lemma fl_uminus: "fl (- x) = - fl x"
  by (simp add: fl_def)

lemma fl_of_int:
  assumes "\<bar>n\<bar> < 2 ^ 53"
  shows "fl (of_int n) = of_int n"
proof -
  have pos: "fl_pos (of_int k) = of_int k" if "0 < k" "k < 2 ^ 53" for k
  proof (rule fl_pos_grid [where m = k and e = 0])
    have "exponent2 (of_int k) < 53"
    proof (rule ccontr)
      assume "\<not> exponent2 (of_int k) < 53"
      then have "(2 :: rat) powi 53 \<le> 2 powi exponent2 (of_int k)" by (intro power_int_increasing) auto
      also have "\<dots> \<le> of_int k" using exponent2_bounds [of "of_int k"] that by simp
      finally have "2 ^ 53 \<le> k" by simp
      then show False using that by simp
    qed
    then show "ulp_exponent (of_int k) \<le> 0" by (simp add: ulp_exponent_def)
  qed (use that in simp_all)
  then show ?thesis using pos [of n] pos [of "- n"] assms by (auto simp: fl_def)
qed

lemma fl_1 [simp]: "fl 1 = 1"
  using fl_of_int [of 1] by simp

lemma fl_idem_pos:
  assumes "0 < x"
  shows "fl_pos x = 0 \<or> fl_pos (fl_pos x) = fl_pos x"
proof -
  let ?u = "ulp_exponent x" and ?r = "fl_pos x"
  let ?n = "round_even (x / 2 powi ?u)"
  have r: "?r = of_int ?n * 2 powi ?u" by (simp add: fl_pos_def)
  show ?thesis
  proof (cases "?r = 0")
    case False
    then have r0: "0 < ?r" using fl_pos_nonneg [of x] assms by simp
    show ?thesis
    proof (cases "ulp_exponent ?r \<le> ?u")
      case True
      then show ?thesis using fl_pos_grid [OF r0 r] by simp
    next
      case False
      then have gt: "exponent2 x < exponent2 ?r"
        by (auto simp: ulp_exponent_def max_def split: if_splits)
      have "?r \<le> 2 powi (exponent2 x + 1) \<or> exponent2 x + 1 < ?u"
        using fl_pos_le_grid [of x 1 "exponent2 x + 1"] exponent2_bounds [OF assms] by force
      moreover have "\<not> exponent2 x + 1 < ?u"
      proof
        assume *: "exponent2 x + 1 < ?u"
        then have "x \<le> 2 powi ?u"
          using exponent2_bounds [OF assms] power_int_increasing [of "exponent2 x + 1" ?u "2 :: rat"] by linarith
        then have "?r \<le> 2 powi ?u" using fl_pos_le_grid [of x 1 ?u] by simp
        then have "exponent2 ?r \<le> exponent2 (2 powi ?u)" using exponent2_mono r0 by simp
        also have "\<dots> = ?u" by (rule exponent2_unique) (auto intro: power_int_strict_increasing)
        finally show False using * False by (auto simp: ulp_exponent_def max_def split: if_splits)
      qed
      ultimately have "?r \<le> 2 powi (exponent2 x + 1)" by simp
      moreover have "2 powi (exponent2 x + 1) \<le> ?r"
      proof -
        have "(2 :: rat) powi (exponent2 x + 1) \<le> 2 powi exponent2 ?r" using gt by (intro power_int_increasing) auto
        then show ?thesis using exponent2_bounds [OF r0] by linarith
      qed
      ultimately have eq: "?r = of_int 1 * 2 powi (exponent2 x + 1)" by simp
      have "exponent2 ?r = exponent2 x + 1"
        unfolding eq by (rule exponent2_unique) (auto intro: power_int_strict_increasing)
      then have "ulp_exponent ?r \<le> exponent2 x + 1"
        using \<open>\<not> exponent2 x + 1 < ?u\<close> by (auto simp: ulp_exponent_def max_def split: if_splits)
      then show ?thesis using fl_pos_grid [OF r0 eq] by simp
    qed
  qed simp
qed

lemma fl_idem [simp]: "fl (fl x) = fl x"
proof -
  have pos: "fl (fl_pos y) = fl_pos y" if "0 < y" for y
    using fl_idem_pos [OF that] fl_pos_nonneg [of y] that by (auto simp: fl_def)
  show ?thesis
    using pos [of x] pos [of "- x"] fl_uminus [of "fl_pos (- x)"]
    by (cases "x = 0") (auto simp: fl_def)
qed

lemma fl_nonneg: "0 \<le> x \<Longrightarrow> 0 \<le> fl x"
  using fl_mono [of 0 x] by simp

end
