(* ===== verification/Duration.thy ===== *)
theory Duration
  imports Go_Strings Float64
begin

text \<open>
  Go's \<open>time.ParseDuration\<close>, which the configuration relies on: a sign, then one or more decimal
  numbers with a unit each. The integer part is read in 64 bits with overflow checks, a fraction
  goes through \<open>float64\<close> as in the library.
\<close>

section \<open>Definitions\<close>

fun leadingInt :: "nat \<Rightarrow> string \<Rightarrow> (nat \<times> string) option" where
  "leadingInt x [] = Some (x, [])"
| "leadingInt x (c # s) =
     (if \<not> is_digit c then Some (x, c # s)
      else if x > 2 ^ 63 div 10 then None
      else let x = x * 10 + digit_val c in if x > 2 ^ 63 then None else leadingInt x s)"

text \<open>The digits after the point: once the value would overflow, further digits are skipped.\<close>

fun leadingFraction :: "nat \<Rightarrow> rat \<Rightarrow> bool \<Rightarrow> string \<Rightarrow> nat \<times> rat \<times> string" where
  "leadingFraction x scale overflow [] = (x, scale, [])"
| "leadingFraction x scale overflow (c # s) =
     (if \<not> is_digit c then (x, scale, c # s)
      else if overflow then leadingFraction x scale True s
      else if x > (2 ^ 63 - 1) div 10 then leadingFraction x scale True s
      else let y = x * 10 + digit_val c
           in if y > 2 ^ 63 then leadingFraction x scale True s
              else leadingFraction y (fl (scale * 10)) False s)"

definition unitMap :: "nat gomap" where
  "unitMap =
     [(''ns'', 1), (''us'', 1000), ([CHR 0xC2, CHR 0xB5, CHR ''s''], 1000), ([CHR 0xCE, CHR 0xBC, CHR ''s''], 1000),
      (''ms'', 1000000), (''s'', 1000000000), (''m'', 60000000000), (''h'', 3600000000000)]"

definition is_unit_char :: "char \<Rightarrow> bool" where
  "is_unit_char c \<longleftrightarrow> \<not> (c = CHR ''.'' \<or> is_digit c)"

text \<open>One number with its unit: the nanoseconds and what follows.\<close>

definition duration_item :: "string \<Rightarrow> (nat \<times> string) option" where
  "duration_item s =
     (if s = [] \<or> is_unit_char (hd s) then None
      else case leadingInt 0 s of
        None \<Rightarrow> None
      | Some (v, s1) \<Rightarrow>
          let pre = (length s \<noteq> length s1);
              (f, scale, s2) =
                (if s1 \<noteq> [] \<and> hd s1 = CHR ''.'' then leadingFraction 0 1 False (tl s1) else (0, 1, s1));
              post = (s1 \<noteq> [] \<and> hd s1 = CHR ''.'' \<and> length (tl s1) \<noteq> length s2);
              u = takeWhile is_unit_char s2
          in if \<not> pre \<and> \<not> post then None
             else if u = [] then None
             else case map_of unitMap u of
               None \<Rightarrow> None
             | Some unit \<Rightarrow>
                 if v > 2 ^ 63 div unit then None
                 else let w = v * unit;
                          w = (if f > 0
                               then w + nat \<lfloor>fl (fl (of_nat f) * fl (of_nat unit / scale))\<rfloor> else w)
                      in if f > 0 \<and> w > 2 ^ 63 then None else Some (w, dropWhile is_unit_char s2))"

lemma leadingInt_length: "leadingInt x s = Some (v, r) \<Longrightarrow> length r \<le> length s"
  by (induction x s rule: leadingInt.induct) (auto simp: Let_def split: if_splits)

lemma leadingFraction_length: "leadingFraction x sc ov s = (v, sc', r) \<Longrightarrow> length r \<le> length s"
  by (induction x sc ov s rule: leadingFraction.induct) (auto simp: Let_def le_SucI split: if_splits)

lemma duration_item_shorter: "duration_item s = Some (v, r) \<Longrightarrow> length r < length s"
proof -
  assume a: "duration_item s = Some (v, r)"
  then obtain v1 s1 where s1: "leadingInt 0 s = Some (v1, s1)"
    by (auto simp: duration_item_def split: if_splits option.splits)
  define p where "p = (if s1 \<noteq> [] \<and> hd s1 = CHR ''.'' then leadingFraction 0 1 False (tl s1) else (0, 1, s1))"
  obtain f scale s2 where p: "p = (f, scale, s2)" by (cases p)
  have "length s2 \<le> length s1"
    using p leadingFraction_length [of 0 1 False "tl s1" f scale s2]
    by (auto simp: p_def split: if_splits)
  then have le: "length s2 \<le> length s" using leadingInt_length [OF s1] by simp
  have "takeWhile is_unit_char s2 \<noteq> []" "r = dropWhile is_unit_char s2"
    using a s1 p by (auto simp: duration_item_def p_def Let_def split: if_splits option.splits prod.splits)
  then have "length r < length s2"
    using arg_cong [where f = length, OF takeWhile_dropWhile_id [of is_unit_char s2]]
    by (cases "takeWhile is_unit_char s2") (simp_all del: takeWhile_dropWhile_id)
  then show ?thesis using le by simp
qed

function duration_loop :: "nat \<Rightarrow> string \<Rightarrow> nat option" where
  "duration_loop d s =
     (if s = [] then Some d
      else case duration_item s of
        None \<Rightarrow> None
      | Some (v, r) \<Rightarrow> let d = (d + v) mod 2 ^ 64 in if d > 2 ^ 63 then None else duration_loop d r)"
  by pat_completeness auto

termination
  by (relation "measure (\<lambda>(d, s). length s)") (auto dest: duration_item_shorter)

declare duration_loop.simps [simp del]

definition ParseDuration :: "string \<Rightarrow> duration option" where
  "ParseDuration s =
     (let (neg, s) = read_sign s
      in if s = ''0'' then Some 0
         else if s = [] then None
         else case duration_loop 0 s of
           None \<Rightarrow> None
         | Some d \<Rightarrow> if neg then Some (- int d) else if d > 2 ^ 63 - 1 then None else Some (int d))"

section \<open>Plain durations\<close>

lemma digits_val_ge: "x * 10 ^ length s \<le> digits_val x s"
proof (induction s arbitrary: x)
  case (Cons c s)
  have "x * 10 ^ length (c # s) \<le> (x * 10 + digit_val c) * 10 ^ length s" by (simp add: algebra_simps)
  also have "\<dots> \<le> digits_val (x * 10 + digit_val c) s" by (rule Cons.IH)
  finally show ?case by simp
qed simp

lemma digits_val_ge_acc: "x \<le> digits_val x s"
proof -
  have "x * 1 \<le> x * 10 ^ length s" by (rule mult_le_mono2) simp
  then show ?thesis using digits_val_ge [of x s] by linarith
qed

lemma leadingInt_digits:
  assumes "list_all is_digit ds" and "rest = [] \<or> \<not> is_digit (hd rest)" and "digits_val x ds \<le> 2 ^ 63"
  shows "leadingInt x (ds @ rest) = Some (digits_val x ds, rest)"
  using assms(1,3)
proof (induction ds arbitrary: x)
  case Nil
  then show ?case using assms(2) by (cases rest) auto
next
  case (Cons c ds)
  have "x * 10 + digit_val c \<le> 2 ^ 63" using Cons.prems(2) digits_val_ge_acc [of "x * 10 + digit_val c" ds] by simp
  moreover from this have "x \<le> 2 ^ 63 div 10" by simp
  ultimately show ?case using Cons.prems Cons.IH [of "x * 10 + digit_val c"] by (simp add: Let_def)
qed

text \<open>A number with a unit reads as their product, for every unit of the table.\<close>

lemma ParseDuration_Itoa:
  assumes "0 \<le> n" and "map_of unitMap u = Some k" and "n * int k \<le> i64_max" and "0 < k"
    and "u \<noteq> []" and "list_all is_unit_char u"
  shows "ParseDuration (Itoa n @ u) = Some (n * int k)"
proof -
  let ?d = "nat_digits (nat n)"
  have I: "Itoa n = ?d" using assms(1) by (simp add: Itoa_def)
  have u: "hd u \<noteq> CHR ''.''" "\<not> is_digit (hd u)" using assms(5,6) by (cases u; simp add: is_unit_char_def)+
  have kn: "nat n * k \<le> 2 ^ 63 - 1"
  proof -
    have "int (nat n * k) \<le> int (2 ^ 63 - 1)" using assms(1,3) by (simp add: i64_max_def)
    then show ?thesis by (simp only: of_nat_le_iff)
  qed
  have "nat n * 1 \<le> nat n * k" using assms(4) by (intro mult_le_mono2) simp
  then have "nat n \<le> 2 ^ 63" using kn by linarith
  then have li: "leadingInt 0 (?d @ u) = Some (nat n, u)"
    using leadingInt_digits [of ?d u 0] u by (simp add: nat_digits_all digits_val_nat_digits)
  have hd: "is_digit (hd (?d @ u))" by (simp add: hd_nat_digits)
  have small: "\<not> nat n > 2 ^ 63 div k"
  proof -
    have "nat n * k div k \<le> 2 ^ 63 div k" using kn by (intro div_le_mono) simp
    then show ?thesis using assms(4) by simp
  qed
  have all: "takeWhile is_unit_char u = u" "dropWhile is_unit_char u = []"
    using assms(6) by (auto simp: list_all_iff takeWhile_eq_all_conv)
  have item: "duration_item (?d @ u) = Some (nat n * k, [])"
  proof -
    have "\<not> is_unit_char (hd (?d @ u))" using hd by (simp add: is_unit_char_def)
    then show ?thesis
      using li u(1) small assms(2,5) unfolding duration_item_def by (simp add: all Let_def)
  qed
  have "(nat n * k) mod 2 ^ 64 = nat n * k" using kn by (intro mod_less) simp
  then have loop: "duration_loop 0 (?d @ u) = Some (nat n * k)"
    using item kn by (simp add: duration_loop.simps [of 0 "?d @ u"] duration_loop.simps [of _ "[]"])
  have "?d @ u \<noteq> ''0''"
  proof
    assume "?d @ u = ''0''"
    then have "length (?d @ u) = 1" by simp
    then show False using assms(5) nat_digits_not_Nil [of "nat n"]
      by (cases ?d) (auto simp del: nat_digits_not_Nil)
  qed
  then show ?thesis
    using loop kn assms(1) read_sign_digits [of "?d @ u"] hd by (simp add: ParseDuration_def I Let_def)
qed

end
