(* ===== verification/Config.thy ===== *)
theory Config
  imports Duration
begin

text \<open>
  \<open>internal/config/config.go\<close>, \<open>validator.go\<close> and \<open>config_manager.go\<close>: the configuration record, its
  flags, validation, the managed configuration file and the construction of a reloaded
  configuration. The libraries behind it are parameters: viper and cobra as the record \<open>Viper\<close> of
  getters, the YAML codec as a pair of functions, the file system as a map from paths to contents.
\<close>

section \<open>The configuration\<close>

record Config =
  cfg_NodeID :: string
  cfg_ListenAddr :: string
  cfg_GossipAddr :: string
  cfg_DiscoveryAddr :: string
  cfg_APIKey :: string
  cfg_DisableAdminAuth :: bool
  cfg_ShareMode :: string
  cfg_TLSEnabled :: bool
  cfg_TLSCertFile :: string
  cfg_TLSKeyFile :: string
  cfg_AccessLogPath :: string
  cfg_HeartbeatTimeout :: duration
  cfg_DefaultMaxConcurrency :: int
  cfg_GossipStateInterval :: duration
  cfg_GossipMetadataInterval :: duration
  cfg_GossipProbeInterval :: duration
  cfg_GossipProbeTimeout :: duration
  cfg_GossipSuspicionMult :: int
  cfg_GossipRetransmitMult :: int
  cfg_LogLevel :: string
  cfg_BackendTimeout :: duration
  cfg_QueueTimeout :: duration
  cfg_ForwardConnectTimeout :: duration
  cfg_ForwardReadTimeout :: duration
  cfg_QueueCapacity :: int
  cfg_GossipSyncInterval :: duration
  cfg_GossipHTTPTimeout :: duration
  cfg_DiscoveryRetryInterval :: duration
  cfg_DiscoveryPollInterval :: duration
  cfg_DiscoveryBroadcastInterval :: duration
  cfg_DiscoveryNodeTimeout :: duration
  cfg_DiscoveryMinBroadcastInterval :: duration
  cfg_DiscoveryMaxBroadcastInterval :: duration
  cfg_DiscoveryBackoffMultiplier :: rat
  cfg_DiscoveryNoResponseThreshold :: int
  cfg_SyncPeerTimeout :: duration

definition GetNodeID :: "Config \<Rightarrow> string" where
  "GetNodeID c = cfg_NodeID c"

definition GetListenAddr :: "Config \<Rightarrow> string" where
  "GetListenAddr c = cfg_ListenAddr c"

definition GetSyncPeerTimeout :: "Config \<Rightarrow> duration" where
  "GetSyncPeerTimeout c = cfg_SyncPeerTimeout c"

text \<open>The dynamic values of Go's \<open>interface{}\<close> that occur in configuration.\<close>

datatype AnyValue =
    AnyNil
  | AnyString string
  | AnyBool bool
  | AnyInt int
  | AnyInt64 int
  | AnyFloat rat
  | AnyDuration duration

text \<open>The command-line flags with their defaults.\<close>

definition AddFlags :: "AnyValue gomap" where
  "AddFlags =
     [(''config'', AnyString ''''),
      (''node-id'', AnyString ''''),
      (''listen-addr'', AnyString '':15050''),
      (''discovery-addr'', AnyString '':15052''),
      (''api-key'', AnyString ''''),
      (''disable-admin-auth'', AnyBool False),
      (''tls-enabled'', AnyBool False),
      (''tls-cert-file'', AnyString ''''),
      (''tls-key-file'', AnyString ''''),
      (''access-log-path'', AnyString ''''),
      (''heartbeat-timeout'', AnyDuration (seconds 15)),
      (''default-max-concurrency'', AnyInt 10),
      (''gossip-state-interval'', AnyDuration (seconds 3)),
      (''gossip-metadata-interval'', AnyDuration (seconds 3600)),
      (''gossip-probe-interval'', AnyDuration (seconds 1)),
      (''gossip-probe-timeout'', AnyDuration (milliseconds 500)),
      (''gossip-suspicion-mult'', AnyInt 4),
      (''gossip-retransmit-mult'', AnyInt 3),
      (''log-level'', AnyString ''info''),
      (''backend-timeout'', AnyDuration (seconds 300)),
      (''queue-timeout'', AnyDuration (seconds 30)),
      (''forward-connect-timeout'', AnyDuration (seconds 10)),
      (''forward-read-timeout'', AnyDuration (seconds 300)),
      (''queue-capacity'', AnyInt 1000),
      (''gossip-sync-interval'', AnyDuration (seconds 10)),
      (''gossip-http-timeout'', AnyDuration (seconds 2)),
      (''discovery-retry-interval'', AnyDuration (seconds 5)),
      (''discovery-poll-interval'', AnyDuration (milliseconds 100)),
      (''discovery-broadcast-interval'', AnyDuration (seconds 30)),
      (''discovery-node-timeout'', AnyDuration (seconds 60)),
      (''discovery-min-broadcast-interval'', AnyDuration (seconds 1)),
      (''discovery-max-broadcast-interval'', AnyDuration (seconds 1800)),
      (''discovery-backoff-multiplier'', AnyFloat (3 / 2)),
      (''discovery-no-response-threshold'', AnyInt 3),
      (''sync-peer-timeout'', AnyDuration (seconds 30))]"

section \<open>Node identifiers\<close>

definition hex_digit :: "nat \<Rightarrow> char" where
  "hex_digit d = (if d < 10 then char_of (d + 48) else char_of (d + 87))"

fun hex_digits :: "nat \<Rightarrow> string" where
  "hex_digits n = (if n < 16 then [hex_digit n] else hex_digits (n div 16) @ [hex_digit (n mod 16)])"

declare hex_digits.simps [simp del]

text \<open>\<open>%0wx\<close>: lower-case hexadecimal, padded with zeros to width \<open>w\<close>.\<close>

definition hex_padded :: "nat \<Rightarrow> nat \<Rightarrow> string" where
  "hex_padded w n = replicate (w - length (hex_digits n)) CHR ''0'' @ hex_digits n"

record Interface =
  if_up :: bool
  if_loopback :: bool
  if_mac :: "8 word list"

definition getNodeIDFromMAC :: "string option \<Rightarrow> Interface list option \<Rightarrow> string" where
  "getNodeIDFromMAC host ifaces =
     (let hostname = (case host of None \<Rightarrow> ''unknown'' | Some h \<Rightarrow> h)
      in case ifaces of
           None \<Rightarrow> ''''
         | Some ifs \<Rightarrow>
             (case find (\<lambda>i. if_up i \<and> \<not> if_loopback i \<and> length (if_mac i) \<ge> 6) ifs of
                None \<Rightarrow> ''''
              | Some i \<Rightarrow> hostname @ ''-'' @ concat (map (\<lambda>b. hex_padded 2 (unat b)) (take 6 (if_mac i)))))"

section \<open>Validation\<close>

text \<open>An error is its message, \<open>None\<close> is \<open>nil\<close>.\<close>

type_synonym error = "string option"

definition validateNodeID :: "string \<Rightarrow> error" where
  "validateNodeID nodeID = (if nodeID = '''' then Some ''node ID cannot be empty'' else None)"

definition validateListenAddr :: "string \<Rightarrow> error" where
  "validateListenAddr addr = (if addr = '''' then Some ''listen address cannot be empty'' else None)"

definition validateGossipAddr :: "string \<Rightarrow> error" where
  "validateGossipAddr addr = (if addr = '''' then Some ''gossip address cannot be empty'' else None)"

definition validateDiscoveryAddr :: "string \<Rightarrow> error" where
  "validateDiscoveryAddr addr = (if addr = '''' then Some ''discovery address cannot be empty'' else None)"

definition validateAdminAPIKey :: "string \<Rightarrow> bool \<Rightarrow> error" where
  "validateAdminAPIKey apiKey disableAuth =
     (if \<not> disableAuth \<and> apiKey = '''' then Some ''admin API key is required when authentication is enabled'' else None)"

definition validateTimeouts :: "Config \<Rightarrow> error" where
  "validateTimeouts cfg =
     (if cfg_HeartbeatTimeout cfg \<le> 0 then Some ''heartbeat timeout must be positive''
      else if cfg_BackendTimeout cfg \<le> 0 then Some ''backend timeout must be positive''
      else if cfg_QueueTimeout cfg \<le> 0 then Some ''queue timeout must be positive''
      else if cfg_ForwardConnectTimeout cfg \<le> 0 then Some ''forward connect timeout must be positive''
      else if cfg_ForwardReadTimeout cfg \<le> 0 then Some ''forward read timeout must be positive''
      else None)"

definition validateConcurrency :: "int \<Rightarrow> error" where
  "validateConcurrency maxConcurrency = (if maxConcurrency < 1 then Some ''max concurrency must be at least 1'' else None)"

definition validateGossipSettings :: "Config \<Rightarrow> error" where
  "validateGossipSettings cfg =
     (if cfg_GossipStateInterval cfg \<le> 0 then Some ''gossip state interval must be positive''
      else if cfg_GossipMetadataInterval cfg \<le> 0 then Some ''gossip metadata interval must be positive''
      else if cfg_GossipProbeInterval cfg \<le> 0 then Some ''gossip probe interval must be positive''
      else if cfg_GossipProbeTimeout cfg \<le> 0 then Some ''gossip probe timeout must be positive''
      else if cfg_GossipSuspicionMult cfg < 1 then Some ''gossip suspicion multiplier must be at least 1''
      else if cfg_GossipRetransmitMult cfg < 1 then Some ''gossip retransmit multiplier must be at least 1''
      else None)"

text \<open>The first error of a sequence of checks.\<close>

definition first_error :: "error list \<Rightarrow> error" where
  "first_error es = (case dropWhile (\<lambda>e. e = None) es of [] \<Rightarrow> None | e # _ \<Rightarrow> e)"

definition ValidateConfig :: "Config \<Rightarrow> error" where
  "ValidateConfig cfg =
     first_error
       [validateNodeID (cfg_NodeID cfg), validateListenAddr (cfg_ListenAddr cfg), validateGossipAddr (cfg_GossipAddr cfg),
        validateDiscoveryAddr (cfg_DiscoveryAddr cfg), validateAdminAPIKey (cfg_APIKey cfg) (cfg_DisableAdminAuth cfg),
        validateTimeouts cfg, validateConcurrency (cfg_DefaultMaxConcurrency cfg), validateGossipSettings cfg]"

section \<open>Loading from flags and file\<close>

record Viper =
  v_GetString :: "string \<Rightarrow> string"
  v_GetBool :: "string \<Rightarrow> bool"
  v_GetInt :: "string \<Rightarrow> int"
  v_GetDuration :: "string \<Rightarrow> duration"
  v_GetFloat64 :: "string \<Rightarrow> rat"

text \<open>
  What \<open>Load\<close> obtains from outside: the \<open>config\<close> flag, whether the file could be read, the merged
  settings, the host name, the network interfaces and a random number below 65536.
\<close>

record LoadEnv =
  le_configPath :: "string option"
  le_readInConfig :: bool
  le_viper :: Viper
  le_hostname :: "string option"
  le_interfaces :: "Interface list option"
  le_rand :: nat

datatype LoadError = FlagError | ConfigFileError | MissingAPIKey | InvalidConfig string

text \<open>The port in a listen address of the form \<open>:port\<close>, with the default for anything else.\<close>

definition base_port :: "string \<Rightarrow> int" where
  "base_port listenAddr = (let basePort = sscanf_port listenAddr in if basePort = 0 then 15050 else basePort)"

definition load_node_id :: "LoadEnv \<Rightarrow> string" where
  "load_node_id e =
     (let nodeID = v_GetString (le_viper e) ''node-id''
      in if nodeID \<noteq> '''' then nodeID
         else let macID = getNodeIDFromMAC (le_hostname e) (le_interfaces e)
              in if macID \<noteq> '''' then macID
                 else (case le_hostname e of None \<Rightarrow> ''node'' | Some h \<Rightarrow> h) @ ''-'' @ hex_padded 4 (le_rand e))"

text \<open>The configuration built from the settings.\<close>

definition load_config :: "LoadEnv \<Rightarrow> Config" where
  "load_config e =
     (let v = le_viper e;
          listenAddr = v_GetString v ''listen-addr'';
          basePort = base_port listenAddr;
          gossipAddr = '':'' @ Itoa (basePort + 1);
          discoveryAddrStr = v_GetString v ''discovery-addr'';
          discoveryAddr = (if discoveryAddrStr \<noteq> '''' then discoveryAddrStr else '':'' @ Itoa (basePort + 2))
      in \<lparr>cfg_NodeID = load_node_id e,
          cfg_ListenAddr = listenAddr,
          cfg_GossipAddr = gossipAddr,
          cfg_DiscoveryAddr = discoveryAddr,
          cfg_APIKey = v_GetString v ''api-key'',
          cfg_DisableAdminAuth = v_GetBool v ''disable-admin-auth'',
          cfg_ShareMode = '''',
          cfg_TLSEnabled = v_GetBool v ''tls-enabled'',
          cfg_TLSCertFile = v_GetString v ''tls-cert-file'',
          cfg_TLSKeyFile = v_GetString v ''tls-key-file'',
          cfg_AccessLogPath = v_GetString v ''access-log-path'',
          cfg_HeartbeatTimeout = v_GetDuration v ''heartbeat-timeout'',
          cfg_DefaultMaxConcurrency = v_GetInt v ''default-max-concurrency'',
          cfg_GossipStateInterval = v_GetDuration v ''gossip-state-interval'',
          cfg_GossipMetadataInterval = v_GetDuration v ''gossip-metadata-interval'',
          cfg_GossipProbeInterval = v_GetDuration v ''gossip-probe-interval'',
          cfg_GossipProbeTimeout = v_GetDuration v ''gossip-probe-timeout'',
          cfg_GossipSuspicionMult = v_GetInt v ''gossip-suspicion-mult'',
          cfg_GossipRetransmitMult = v_GetInt v ''gossip-retransmit-mult'',
          cfg_LogLevel = v_GetString v ''log-level'',
          cfg_BackendTimeout = v_GetDuration v ''backend-timeout'',
          cfg_QueueTimeout = v_GetDuration v ''queue-timeout'',
          cfg_ForwardConnectTimeout = v_GetDuration v ''forward-connect-timeout'',
          cfg_ForwardReadTimeout = v_GetDuration v ''forward-read-timeout'',
          cfg_QueueCapacity = v_GetInt v ''queue-capacity'',
          cfg_GossipSyncInterval = v_GetDuration v ''gossip-sync-interval'',
          cfg_GossipHTTPTimeout = v_GetDuration v ''gossip-http-timeout'',
          cfg_DiscoveryRetryInterval = v_GetDuration v ''discovery-retry-interval'',
          cfg_DiscoveryPollInterval = v_GetDuration v ''discovery-poll-interval'',
          cfg_DiscoveryBroadcastInterval = v_GetDuration v ''discovery-broadcast-interval'',
          cfg_DiscoveryNodeTimeout = v_GetDuration v ''discovery-node-timeout'',
          cfg_DiscoveryMinBroadcastInterval = v_GetDuration v ''discovery-min-broadcast-interval'',
          cfg_DiscoveryMaxBroadcastInterval = v_GetDuration v ''discovery-max-broadcast-interval'',
          cfg_DiscoveryBackoffMultiplier = v_GetFloat64 v ''discovery-backoff-multiplier'',
          cfg_DiscoveryNoResponseThreshold = v_GetInt v ''discovery-no-response-threshold'',
          cfg_SyncPeerTimeout = v_GetDuration v ''sync-peer-timeout''\<rparr>)"

definition Load :: "LoadEnv \<Rightarrow> LoadError + Config" where
  "Load e =
     (case le_configPath e of
        None \<Rightarrow> Inl FlagError
      | Some configPath \<Rightarrow>
          if configPath \<noteq> '''' \<and> \<not> le_readInConfig e then Inl ConfigFileError
          else if \<not> v_GetBool (le_viper e) ''disable-admin-auth'' \<and> v_GetString (le_viper e) ''api-key'' = '''' then
            Inl MissingAPIKey
          else case ValidateConfig (load_config e) of
            Some msg \<Rightarrow> Inl (InvalidConfig msg)
          | None \<Rightarrow> Inr (load_config e))"

section \<open>The managed configuration file\<close>

record ConfigItem =
  ci_Key :: string
  ci_DefaultVal :: AnyValue
  ci_Description :: string
  ci_Type :: string
  ci_Value :: AnyValue

record ConfigFile =
  cf_Version :: string
  cf_GeneratedAt :: string
  cf_Configs :: "ConfigItem gomap"
  cf_Errors :: "string list"

record ConfigManager =
  cm_configPath :: string
  cm_configFile :: "ConfigFile option"

definition ConfigFileName :: string where
  "ConfigFileName = ''novaairouter.yaml''"

definition config_item :: "string \<Rightarrow> AnyValue \<Rightarrow> string \<Rightarrow> string \<Rightarrow> string \<times> ConfigItem" where
  "config_item key dv desc ty =
     (key, \<lparr>ci_Key = key, ci_DefaultVal = dv, ci_Description = desc, ci_Type = ty, ci_Value = AnyNil\<rparr>)"

definition DefaultConfigs :: "ConfigItem gomap" where
  "DefaultConfigs =
     [
      config_item ''node-id'' (AnyString '''') ''Unique node identifier (auto-generated if empty)'' ''string'',
      config_item ''listen-addr'' (AnyString '':15050'') ''Base listen address. Other ports auto-calculated: -1 for Admin API (15049), +1 for Gossip HTTP (15051), +2 for UDP Discovery (15052)'' ''string'',
      config_item ''admin-api-key'' (AnyString '''') ''Admin API key (required if authentication is enabled)'' ''string'',
      config_item ''disable-admin-auth'' (AnyBool False) ''Disable admin API key authentication'' ''bool'',
      config_item ''heartbeat-timeout'' (AnyString ''15s'') ''Backend heartbeat timeout'' ''duration'',
      config_item ''default-max-concurrency'' (AnyInt 10) ''Default max concurrent requests per endpoint'' ''int'',
      config_item ''gossip-state-interval'' (AnyString ''3s'') ''State broadcast interval'' ''duration'',
      config_item ''gossip-metadata-interval'' (AnyString ''1h'') ''Metadata broadcast interval'' ''duration'',
      config_item ''gossip-probe-interval'' (AnyString ''1s'') ''Gossip probe interval'' ''duration'',
      config_item ''gossip-probe-timeout'' (AnyString ''500ms'') ''Gossip probe timeout'' ''duration'',
      config_item ''gossip-suspicion-mult'' (AnyInt 4) ''Gossip suspicion multiplier'' ''int'',
      config_item ''gossip-retransmit-mult'' (AnyInt 3) ''Gossip retransmit multiplier'' ''int'',
      config_item ''gossip-secret-key'' (AnyString '''') ''Gossip encryption key'' ''string'',
      config_item ''log-level'' (AnyString ''info'') ''Log level (debug, info, warn, error)'' ''string'',
      config_item ''backend-timeout'' (AnyString ''300s'') ''Backend call timeout'' ''duration'',
      config_item ''queue-timeout'' (AnyString ''30s'') ''Queue wait timeout'' ''duration'',
      config_item ''forward-connect-timeout'' (AnyString ''10s'') ''Forward connection timeout'' ''duration'',
      config_item ''forward-read-timeout'' (AnyString ''300s'') ''Forward read timeout'' ''duration'',
      config_item ''queue-capacity'' (AnyInt 1000) ''Maximum number of requests that can wait in queue'' ''int'',
      config_item ''gossip-sync-interval'' (AnyString ''10s'') ''Gossip config sync interval'' ''duration'',
      config_item ''gossip-http-timeout'' (AnyString ''2s'') ''Gossip HTTP request timeout'' ''duration'',
      config_item ''discovery-retry-interval'' (AnyString ''5s'') ''Discovery retry interval'' ''duration'',
      config_item ''discovery-poll-interval'' (AnyString ''100ms'') ''Discovery poll interval'' ''duration'',
      config_item ''discovery-broadcast-interval'' (AnyString ''30s'') ''Discovery broadcast interval'' ''duration'',
      config_item ''discovery-node-timeout'' (AnyString ''60s'') ''Discovery node timeout'' ''duration'',
      config_item ''sync-peer-timeout'' (AnyString ''30s'') ''Sync peer timeout'' ''duration''
     ]"

text \<open>The YAML codec and the file system operations the manager uses.\<close>

record Yaml =
  y_Marshal :: "ConfigFile \<Rightarrow> string option"
  y_Unmarshal :: "string \<Rightarrow> ConfigFile option"

record FileSystem =
  fs_files :: "string gomap"
  fs_mkdirOk :: "string \<Rightarrow> bool"
  fs_writeOk :: "string \<Rightarrow> bool"

definition NewConfigManager :: "string \<Rightarrow> ConfigManager" where
  "NewConfigManager configPath =
     \<lparr>cm_configPath = (if configPath = '''' then ConfigFileName else configPath), cm_configFile = None\<rparr>"

datatype ConfigError =
    MkdirFailed
  | MarshalFailed
  | WriteFailed
  | ReadFailed
  | YamlFormat
  | ValidationFailed nat

definition default_file :: "string \<Rightarrow> ConfigFile" where
  "default_file now =
     \<lparr>cf_Version = ''1.0'', cf_GeneratedAt = now,
      cf_Configs =
        fold (\<lambda>(key, item). AList.update key
               \<lparr>ci_Key = ci_Key item, ci_DefaultVal = ci_DefaultVal item, ci_Description = ci_Description item,
                ci_Type = ci_Type item, ci_Value = ci_DefaultVal item\<rparr>) DefaultConfigs [],
      cf_Errors = []\<rparr>"

definition CreateDefaultConfig ::
    "Yaml \<Rightarrow> string \<Rightarrow> ConfigManager \<Rightarrow> FileSystem \<Rightarrow> ConfigError option \<times> FileSystem" where
  "CreateDefaultConfig y now cm fs =
     (if \<not> fs_mkdirOk fs (cm_configPath cm) then (Some MkdirFailed, fs)
      else case y_Marshal y (default_file now) of
        None \<Rightarrow> (Some MarshalFailed, fs)
      | Some data \<Rightarrow>
          if \<not> fs_writeOk fs (cm_configPath cm) then (Some WriteFailed, fs)
          else (None, fs\<lparr>fs_files := AList.update (cm_configPath cm) data (fs_files fs)\<rparr>))"

definition LoadConfig :: "Yaml \<Rightarrow> FileSystem \<Rightarrow> ConfigManager \<Rightarrow> ConfigError option \<times> ConfigManager" where
  "LoadConfig y fs cm =
     (case map_of (fs_files fs) (cm_configPath cm) of
        None \<Rightarrow> (Some ReadFailed, cm)
      | Some data \<Rightarrow>
          (case y_Unmarshal y data of
             None \<Rightarrow> (Some YamlFormat, cm)
           | Some configFile \<Rightarrow> (None, cm\<lparr>cm_configFile := Some configFile\<rparr>)))"

definition validateItem :: "string \<Rightarrow> ConfigItem \<Rightarrow> bool" where
  "validateItem key item =
     (case map_of DefaultConfigs key of
        None \<Rightarrow> True
      | Some defaultItem \<Rightarrow>
          if ci_Type defaultItem = ''duration'' then
            (case ci_Value item of AnyString s \<Rightarrow> ParseDuration s \<noteq> None | _ \<Rightarrow> False)
          else if ci_Type defaultItem = ''int'' then
            (case ci_Value item of AnyInt n \<Rightarrow> True | AnyInt64 n \<Rightarrow> True | _ \<Rightarrow> False)
          else if ci_Type defaultItem = ''bool'' then (case ci_Value item of AnyBool b \<Rightarrow> True | _ \<Rightarrow> False)
          else if ci_Type defaultItem = ''string'' then (case ci_Value item of AnyString s \<Rightarrow> True | _ \<Rightarrow> False)
          else True)"

text \<open>The keys that \<open>ConfigManager.ValidateConfig\<close> reports, missing or ill-typed.\<close>

definition config_errors :: "ConfigFile \<Rightarrow> string list" where
  "config_errors f =
     filter (\<lambda>key. case map_of (cf_Configs f) key of None \<Rightarrow> True | Some item \<Rightarrow> \<not> validateItem key item)
       (map fst DefaultConfigs)"

definition ConfigManager_ValidateConfig :: "ConfigFile \<Rightarrow> ConfigError option" where
  "ConfigManager_ValidateConfig f =
     (let errors = config_errors f in if length errors > 0 then Some (ValidationFailed (length errors)) else None)"

definition LoadOrCreate ::
    "Yaml \<Rightarrow> string \<Rightarrow> ConfigManager \<Rightarrow> FileSystem \<Rightarrow> ConfigError option \<times> ConfigManager \<times> FileSystem" where
  "LoadOrCreate y now cm fs =
     (let (err, fs) =
            (if map_of (fs_files fs) (cm_configPath cm) = None then CreateDefaultConfig y now cm fs else (None, fs))
      in if err \<noteq> None then (err, cm, fs)
         else case LoadConfig y fs cm of
           (Some e, cm) \<Rightarrow> (Some e, cm, fs)
         | (None, cm) \<Rightarrow>
             (case cm_configFile cm of
                None \<Rightarrow> (None, cm, fs)
              | Some f \<Rightarrow> (ConfigManager_ValidateConfig f, cm, fs)))"

definition ResetToDefaults :: "Yaml \<Rightarrow> string \<Rightarrow> ConfigManager \<Rightarrow> FileSystem \<Rightarrow> ConfigError option \<times> FileSystem" where
  "ResetToDefaults y now cm fs = CreateDefaultConfig y now cm fs"

section \<open>Reading values\<close>

definition GetValue :: "ConfigManager \<Rightarrow> string \<Rightarrow> AnyValue option" where
  "GetValue cm key =
     (case cm_configFile cm of
        None \<Rightarrow> None
      | Some f \<Rightarrow>
          (case map_of (cf_Configs f) key of
             Some item \<Rightarrow> Some (ci_Value item)
           | None \<Rightarrow> map_option ci_DefaultVal (map_of DefaultConfigs key)))"

definition GetString :: "ConfigManager \<Rightarrow> string \<Rightarrow> string option" where
  "GetString cm key = (case GetValue cm key of Some (AnyString s) \<Rightarrow> Some s | _ \<Rightarrow> None)"

definition GetInt :: "ConfigManager \<Rightarrow> string \<Rightarrow> int option" where
  "GetInt cm key = (case GetValue cm key of Some (AnyInt n) \<Rightarrow> Some n | Some (AnyInt64 n) \<Rightarrow> Some n | _ \<Rightarrow> None)"

definition GetBool :: "ConfigManager \<Rightarrow> string \<Rightarrow> bool option" where
  "GetBool cm key = (case GetValue cm key of Some (AnyBool b) \<Rightarrow> Some b | _ \<Rightarrow> None)"

definition GetFloat :: "ConfigManager \<Rightarrow> string \<Rightarrow> rat option" where
  "GetFloat cm key =
     (case GetValue cm key of
        Some (AnyFloat f) \<Rightarrow> Some f
      | Some (AnyInt n) \<Rightarrow> Some (fl (of_int n))
      | Some (AnyInt64 n) \<Rightarrow> Some (fl (of_int n))
      | _ \<Rightarrow> None)"

definition GetDuration :: "ConfigManager \<Rightarrow> string \<Rightarrow> duration option" where
  "GetDuration cm key = (case GetValue cm key of Some (AnyString s) \<Rightarrow> ParseDuration s | _ \<Rightarrow> None)"

definition getConfigString :: "ConfigManager \<Rightarrow> string \<Rightarrow> string \<Rightarrow> string" where
  "getConfigString cm key defaultVal = (case GetString cm key of Some val \<Rightarrow> val | None \<Rightarrow> defaultVal)"

definition getConfigStringSlice :: "ConfigManager \<Rightarrow> string \<Rightarrow> string list" where
  "getConfigStringSlice cm key =
     (case GetString cm key of Some val \<Rightarrow> if val \<noteq> '''' then Split CHR '','' val else [] | None \<Rightarrow> [])"

definition getConfigBool :: "ConfigManager \<Rightarrow> string \<Rightarrow> bool \<Rightarrow> bool" where
  "getConfigBool cm key defaultVal = (case GetBool cm key of Some val \<Rightarrow> val | None \<Rightarrow> defaultVal)"

definition getConfigInt :: "ConfigManager \<Rightarrow> string \<Rightarrow> int \<Rightarrow> int" where
  "getConfigInt cm key defaultVal = (case GetInt cm key of Some val \<Rightarrow> val | None \<Rightarrow> defaultVal)"

definition getConfigFloat64 :: "ConfigManager \<Rightarrow> string \<Rightarrow> rat \<Rightarrow> rat" where
  "getConfigFloat64 cm key defaultVal = (case GetFloat cm key of Some val \<Rightarrow> val | None \<Rightarrow> defaultVal)"

definition getConfigDuration :: "ConfigManager \<Rightarrow> string \<Rightarrow> duration \<Rightarrow> duration" where
  "getConfigDuration cm key defaultVal = (case GetDuration cm key of Some val \<Rightarrow> val | None \<Rightarrow> defaultVal)"

text \<open>The configuration that \<open>Reload\<close> builds from a loaded file and the current configuration.\<close>

definition reloaded_config :: "ConfigManager \<Rightarrow> Config \<Rightarrow> Config" where
  "reloaded_config cm cfg =
     (let listenAddr = getConfigString cm ''listen-addr'' '':15050'';
          basePort = base_port listenAddr
      in \<lparr>cfg_NodeID = cfg_NodeID cfg,
          cfg_ListenAddr = listenAddr,
          cfg_GossipAddr = '':'' @ Itoa (basePort + 1),
          cfg_DiscoveryAddr = '':'' @ Itoa (basePort + 2),
          cfg_APIKey = getConfigString cm ''admin-api-key'' (cfg_APIKey cfg),
          cfg_DisableAdminAuth = getConfigBool cm ''disable-admin-auth'' False,
          cfg_ShareMode = '''',
          cfg_TLSEnabled = False,
          cfg_TLSCertFile = '''',
          cfg_TLSKeyFile = '''',
          cfg_AccessLogPath = '''',
          cfg_HeartbeatTimeout = getConfigDuration cm ''heartbeat-timeout'' (seconds 15),
          cfg_DefaultMaxConcurrency = getConfigInt cm ''default-max-concurrency'' 10,
          cfg_GossipStateInterval = getConfigDuration cm ''gossip-state-interval'' (seconds 3),
          cfg_GossipMetadataInterval = getConfigDuration cm ''gossip-metadata-interval'' (seconds 3600),
          cfg_GossipProbeInterval = getConfigDuration cm ''gossip-probe-interval'' (seconds 1),
          cfg_GossipProbeTimeout = getConfigDuration cm ''gossip-probe-timeout'' (milliseconds 500),
          cfg_GossipSuspicionMult = getConfigInt cm ''gossip-suspicion-mult'' 4,
          cfg_GossipRetransmitMult = getConfigInt cm ''gossip-retransmit-mult'' 3,
          cfg_LogLevel = getConfigString cm ''log-level'' ''info'',
          cfg_BackendTimeout = getConfigDuration cm ''backend-timeout'' (seconds 300),
          cfg_QueueTimeout = getConfigDuration cm ''queue-timeout'' (seconds 30),
          cfg_ForwardConnectTimeout = getConfigDuration cm ''forward-connect-timeout'' (seconds 10),
          cfg_ForwardReadTimeout = getConfigDuration cm ''forward-read-timeout'' (seconds 300),
          cfg_QueueCapacity = getConfigInt cm ''queue-capacity'' 1000,
          cfg_GossipSyncInterval = getConfigDuration cm ''gossip-sync-interval'' (seconds 10),
          cfg_GossipHTTPTimeout = getConfigDuration cm ''gossip-http-timeout'' (seconds 2),
          cfg_DiscoveryRetryInterval = getConfigDuration cm ''discovery-retry-interval'' (seconds 1),
          cfg_DiscoveryPollInterval = getConfigDuration cm ''discovery-poll-interval'' (milliseconds 100),
          cfg_DiscoveryBroadcastInterval = getConfigDuration cm ''discovery-broadcast-interval'' (seconds 30),
          cfg_DiscoveryNodeTimeout = getConfigDuration cm ''discovery-node-timeout'' (seconds 60),
          cfg_DiscoveryMinBroadcastInterval = getConfigDuration cm ''discovery-min-broadcast-interval'' (seconds 1),
          cfg_DiscoveryMaxBroadcastInterval = getConfigDuration cm ''discovery-max-broadcast-interval'' (seconds 1800),
          cfg_DiscoveryBackoffMultiplier = getConfigFloat64 cm ''discovery-backoff-multiplier'' (3 / 2),
          cfg_DiscoveryNoResponseThreshold = getConfigInt cm ''discovery-no-response-threshold'' 3,
          cfg_SyncPeerTimeout = getConfigDuration cm ''sync-peer-timeout'' (seconds 30)\<rparr>)"


section \<open>What loading guarantees\<close>

lemma first_error_None: "first_error es = None \<longleftrightarrow> (\<forall>e \<in> set es. e = None)"
  by (induction es) (auto simp: first_error_def)

definition config_ok :: "Config \<Rightarrow> bool" where
  "config_ok cfg \<longleftrightarrow>
     cfg_NodeID cfg \<noteq> '''' \<and> cfg_ListenAddr cfg \<noteq> '''' \<and> cfg_GossipAddr cfg \<noteq> '''' \<and> cfg_DiscoveryAddr cfg \<noteq> '''' \<and>
     (cfg_DisableAdminAuth cfg \<or> cfg_APIKey cfg \<noteq> '''') \<and>
     0 < cfg_HeartbeatTimeout cfg \<and> 0 < cfg_BackendTimeout cfg \<and> 0 < cfg_QueueTimeout cfg \<and>
     0 < cfg_ForwardConnectTimeout cfg \<and> 0 < cfg_ForwardReadTimeout cfg \<and> 1 \<le> cfg_DefaultMaxConcurrency cfg \<and>
     0 < cfg_GossipStateInterval cfg \<and> 0 < cfg_GossipMetadataInterval cfg \<and> 0 < cfg_GossipProbeInterval cfg \<and>
     0 < cfg_GossipProbeTimeout cfg \<and> 1 \<le> cfg_GossipSuspicionMult cfg \<and> 1 \<le> cfg_GossipRetransmitMult cfg"

lemma ValidateConfig_iff: "ValidateConfig cfg = None \<longleftrightarrow> config_ok cfg"
  by (auto simp: ValidateConfig_def first_error_None config_ok_def validateNodeID_def validateListenAddr_def
      validateGossipAddr_def validateDiscoveryAddr_def validateAdminAPIKey_def validateTimeouts_def
      validateConcurrency_def validateGossipSettings_def not_le not_less)

lemma load_node_id_not_empty: "load_node_id e \<noteq> ''''"
  by (auto simp: load_node_id_def Let_def)

lemma base_port_colon: "1 \<le> p \<Longrightarrow> p \<le> 65535 \<Longrightarrow> base_port ('':'' @ Itoa p) = p"
  using sscanf_port_colon [of p] by (simp add: base_port_def i64_max_def)

lemma Load_Inr: "Load e = Inr cfg \<Longrightarrow> cfg = load_config e \<and> config_ok cfg"
  by (auto simp: Load_def ValidateConfig_iff split: option.splits if_splits)

lemma load_config_simps [simp]:
  "cfg_NodeID (load_config e) = load_node_id e"
  "cfg_ListenAddr (load_config e) = v_GetString (le_viper e) ''listen-addr''"
  "cfg_GossipAddr (load_config e) = '':'' @ Itoa (base_port (v_GetString (le_viper e) ''listen-addr'') + 1)"
  "cfg_APIKey (load_config e) = v_GetString (le_viper e) ''api-key''"
  by (simp_all add: load_config_def Let_def)

lemma load_config_more [simp]:
  "cfg_DisableAdminAuth (load_config e) = v_GetBool (le_viper e) ''disable-admin-auth''"
  "cfg_HeartbeatTimeout (load_config e) = v_GetDuration (le_viper e) ''heartbeat-timeout''"
  "cfg_BackendTimeout (load_config e) = v_GetDuration (le_viper e) ''backend-timeout''"
  "cfg_QueueTimeout (load_config e) = v_GetDuration (le_viper e) ''queue-timeout''"
  "cfg_ForwardConnectTimeout (load_config e) = v_GetDuration (le_viper e) ''forward-connect-timeout''"
  "cfg_ForwardReadTimeout (load_config e) = v_GetDuration (le_viper e) ''forward-read-timeout''"
  "cfg_DefaultMaxConcurrency (load_config e) = v_GetInt (le_viper e) ''default-max-concurrency''"
  "cfg_GossipStateInterval (load_config e) = v_GetDuration (le_viper e) ''gossip-state-interval''"
  "cfg_GossipMetadataInterval (load_config e) = v_GetDuration (le_viper e) ''gossip-metadata-interval''"
  "cfg_GossipProbeInterval (load_config e) = v_GetDuration (le_viper e) ''gossip-probe-interval''"
  "cfg_GossipProbeTimeout (load_config e) = v_GetDuration (le_viper e) ''gossip-probe-timeout''"
  "cfg_GossipSuspicionMult (load_config e) = v_GetInt (le_viper e) ''gossip-suspicion-mult''"
  "cfg_GossipRetransmitMult (load_config e) = v_GetInt (le_viper e) ''gossip-retransmit-mult''"
  "cfg_DiscoveryAddr (load_config e) \<noteq> ''''"
  by (simp_all add: load_config_def Let_def)

text \<open>
  C34: A configuration that \<open>Load\<close> returns is usable: the node has a name whatever the host and its
  interfaces offer, an API key is set unless authentication is disabled, every timeout and interval
  is positive, the concurrency and the gossip multipliers are at least 1; and for a listen address
  \<open>:p\<close> the gossip address is \<open>:p+1\<close>. \<open>Load\<close> refuses a missing key before anything else is checked.
\<close>

theorem load_returns_valid:
  assumes "Load e = Inr cfg"
  shows "config_ok cfg \<and> cfg_NodeID cfg = load_node_id e \<and>
    (\<forall>p. 1 \<le> p \<longrightarrow> p \<le> 65535 \<longrightarrow> cfg_ListenAddr cfg = '':'' @ Itoa p \<longrightarrow> cfg_GossipAddr cfg = '':'' @ Itoa (p + 1))"
  using Load_Inr [OF assms] base_port_colon by auto

text \<open>The settings of a process started with \<open>--api-key\<close> only: every other flag has its default.\<close>

definition flag_viper :: "AnyValue gomap \<Rightarrow> Viper" where
  "flag_viper m =
     \<lparr>v_GetString = (\<lambda>k. case map_of m k of Some (AnyString s) \<Rightarrow> s | _ \<Rightarrow> ''''),
      v_GetBool = (\<lambda>k. map_of m k = Some (AnyBool True)),
      v_GetInt = (\<lambda>k. case map_of m k of Some (AnyInt n) \<Rightarrow> n | _ \<Rightarrow> 0),
      v_GetDuration = (\<lambda>k. case map_of m k of Some (AnyDuration d) \<Rightarrow> d | _ \<Rightarrow> 0),
      v_GetFloat64 = (\<lambda>k. case map_of m k of Some (AnyFloat f) \<Rightarrow> f | _ \<Rightarrow> 0)\<rparr>"

definition sample_env :: LoadEnv where
  "sample_env =
     \<lparr>le_configPath = Some '''', le_readInConfig = False, le_viper = flag_viper ((''api-key'', AnyString ''k'') # AddFlags),
      le_hostname = Some ''gw'', le_interfaces = None, le_rand = 10\<rparr>"

lemma sample_settings:
  "v_GetString (le_viper sample_env) k = (case map_of ((''api-key'', AnyString ''k'') # AddFlags) k of Some (AnyString s) \<Rightarrow> s | _ \<Rightarrow> '''')"
  "v_GetBool (le_viper sample_env) k = (map_of ((''api-key'', AnyString ''k'') # AddFlags) k = Some (AnyBool True))"
  "v_GetInt (le_viper sample_env) k = (case map_of ((''api-key'', AnyString ''k'') # AddFlags) k of Some (AnyInt s) \<Rightarrow> s | _ \<Rightarrow> 0)"
  "v_GetDuration (le_viper sample_env) k = (case map_of ((''api-key'', AnyString ''k'') # AddFlags) k of Some (AnyDuration s) \<Rightarrow> s | _ \<Rightarrow> 0)"
  by (simp_all add: sample_env_def flag_viper_def)


lemma flag_defaults:
  "map_of AddFlags ''listen-addr'' = Some (AnyString '':15050'')"
  "map_of AddFlags ''disable-admin-auth'' = Some (AnyBool False)"
  "map_of AddFlags ''heartbeat-timeout'' = Some (AnyDuration (seconds 15))"
  "map_of AddFlags ''backend-timeout'' = Some (AnyDuration (seconds 300))"
  "map_of AddFlags ''queue-timeout'' = Some (AnyDuration (seconds 30))"
  "map_of AddFlags ''forward-connect-timeout'' = Some (AnyDuration (seconds 10))"
  "map_of AddFlags ''forward-read-timeout'' = Some (AnyDuration (seconds 300))"
  "map_of AddFlags ''default-max-concurrency'' = Some (AnyInt 10)"
  "map_of AddFlags ''gossip-state-interval'' = Some (AnyDuration (seconds 3))"
  "map_of AddFlags ''gossip-metadata-interval'' = Some (AnyDuration (seconds 3600))"
  "map_of AddFlags ''gossip-probe-interval'' = Some (AnyDuration (seconds 1))"
  "map_of AddFlags ''gossip-probe-timeout'' = Some (AnyDuration (milliseconds 500))"
  "map_of AddFlags ''gossip-suspicion-mult'' = Some (AnyInt 4)"
  "map_of AddFlags ''gossip-retransmit-mult'' = Some (AnyInt 3)"
  by code_simp+

lemma sample_env_ok: "config_ok (load_config sample_env)"
  using load_node_id_not_empty [of sample_env]
  by (simp add: config_ok_def sample_settings flag_defaults)

lemma sample_env_loads: "Load sample_env = Inr (load_config sample_env) \<and> cfg_APIKey (load_config sample_env) = ''k''"
proof -
  have "ValidateConfig (load_config sample_env) = None" using sample_env_ok by (simp add: ValidateConfig_iff)
  moreover have "le_configPath sample_env = Some []" by (simp add: sample_env_def)
  ultimately show ?thesis by (simp add: Load_def sample_settings)
qed

theorem load_returns_valid_witness: "\<exists>cfg. Load sample_env = Inr cfg \<and> config_ok cfg \<and> cfg_APIKey cfg = ''k''"
  using sample_env_loads load_returns_valid [of sample_env] by blast


section \<open>The default file\<close>

lemmas duration_eval =
  ParseDuration_def duration_loop.simps duration_item_def read_sign_def is_unit_char_def is_digit_def digit_val_def unitMap_def

lemma default_keys: "wf_map DefaultConfigs"
  by (simp add: DefaultConfigs_def config_item_def)

text \<open>Every default value has the type its item declares, and every duration parses.\<close>

lemma default_durations:
  "ParseDuration ''15s'' = Some (seconds 15)" "ParseDuration ''3s'' = Some (seconds 3)"
  "ParseDuration ''1h'' = Some (seconds 3600)" "ParseDuration ''1s'' = Some (seconds 1)"
  "ParseDuration ''500ms'' = Some (milliseconds 500)" "ParseDuration ''300s'' = Some (seconds 300)"
  "ParseDuration ''30s'' = Some (seconds 30)" "ParseDuration ''10s'' = Some (seconds 10)"
  "ParseDuration ''2s'' = Some (seconds 2)" "ParseDuration ''5s'' = Some (seconds 5)"
  "ParseDuration ''100ms'' = Some (milliseconds 100)" "ParseDuration ''60s'' = Some (seconds 60)"
  by (simp_all add: duration_eval)

definition item_ok :: "ConfigItem \<Rightarrow> AnyValue \<Rightarrow> bool" where
  "item_ok item v =
     (if ci_Type item = ''duration'' then (case v of AnyString s \<Rightarrow> ParseDuration s \<noteq> None | _ \<Rightarrow> False)
      else if ci_Type item = ''int'' then (case v of AnyInt n \<Rightarrow> True | AnyInt64 n \<Rightarrow> True | _ \<Rightarrow> False)
      else if ci_Type item = ''bool'' then (case v of AnyBool b \<Rightarrow> True | _ \<Rightarrow> False)
      else if ci_Type item = ''string'' then (case v of AnyString s \<Rightarrow> True | _ \<Rightarrow> False)
      else True)"

lemma default_items_ok: "\<forall>kv \<in> set DefaultConfigs. item_ok (snd kv) (ci_DefaultVal (snd kv))"
  by (simp add: DefaultConfigs_def config_item_def item_ok_def default_durations)

lemma default_file_lookup:
  "map_of (cf_Configs (default_file now)) key =
     map_option (\<lambda>item. \<lparr>ci_Key = ci_Key item, ci_DefaultVal = ci_DefaultVal item, ci_Description = ci_Description item,
       ci_Type = ci_Type item, ci_Value = ci_DefaultVal item\<rparr>) (map_of DefaultConfigs key)"
  by (simp add: default_file_def fold_update_lookup [OF default_keys,
        where f = "\<lambda>item. \<lparr>ci_Key = ci_Key item, ci_DefaultVal = ci_DefaultVal item,
          ci_Description = ci_Description item, ci_Type = ci_Type item, ci_Value = ci_DefaultVal item\<rparr>"]
      split: option.split)

lemma validateItem_iff: "map_of DefaultConfigs key = Some d \<Longrightarrow> validateItem key item = item_ok d (ci_Value item)"
  by (simp add: validateItem_def item_ok_def)

lemma default_file_no_errors: "config_errors (default_file now) = []"
proof -
  have "validateItem key \<lparr>ci_Key = a, ci_DefaultVal = b, ci_Description = c, ci_Type = t, ci_Value = ci_DefaultVal d\<rparr>"
    if "map_of DefaultConfigs key = Some d" for key d a b c t
    using validateItem_iff [OF that] map_of_SomeD [OF that] default_items_ok by auto
  moreover have "map_of DefaultConfigs key \<noteq> None" if "key \<in> fst ` set DefaultConfigs" for key
    using that by (simp add: map_of_eq_None_iff)
  ultimately show ?thesis
    by (auto simp: config_errors_def filter_empty_conv default_file_lookup split: option.splits)
qed

lemma GetValue_default_file:
  assumes "cm_configFile cm = Some (default_file now)"
  shows "GetValue cm key = map_option ci_DefaultVal (map_of DefaultConfigs key)"
  using assms by (simp add: GetValue_def default_file_lookup split: option.split)

lemma default_values:
  "map_of DefaultConfigs ''admin-api-key'' = Some (snd (config_item ''admin-api-key'' (AnyString '''') ''Admin API key (required if authentication is enabled)'' ''string''))"
  "map_option ci_DefaultVal (map_of DefaultConfigs ''disable-admin-auth'') = Some (AnyBool False)"
  "map_option ci_DefaultVal (map_of DefaultConfigs ''heartbeat-timeout'') = Some (AnyString ''15s'')"
  "map_option ci_DefaultVal (map_of DefaultConfigs ''listen-addr'') = Some (AnyString '':15050'')"
  by (simp_all add: DefaultConfigs_def config_item_def)

lemma reloaded_config_simps [simp]:
  "cfg_NodeID (reloaded_config cm cfg) = cfg_NodeID cfg"
  "cfg_ListenAddr (reloaded_config cm cfg) = getConfigString cm ''listen-addr'' '':15050''"
  "cfg_APIKey (reloaded_config cm cfg) = getConfigString cm ''admin-api-key'' (cfg_APIKey cfg)"
  "cfg_DisableAdminAuth (reloaded_config cm cfg) = getConfigBool cm ''disable-admin-auth'' False"
  "cfg_HeartbeatTimeout (reloaded_config cm cfg) = getConfigDuration cm ''heartbeat-timeout'' (seconds 15)"
  "cfg_ShareMode (reloaded_config cm cfg) = ''''" "cfg_TLSEnabled (reloaded_config cm cfg) = False"
  by (simp_all add: reloaded_config_def Let_def)

text \<open>
  C35: Where no configuration file exists, \<open>LoadOrCreate\<close> writes the default one, reads it back through
  the YAML codec and accepts it: every item has its declared type, every duration parses, and each key
  reads back its default. The hypotheses are the codec's round trip on that file and a writable path.
\<close>

theorem default_config_roundtrip:
  assumes "y_Marshal y (default_file now) = Some data" and "y_Unmarshal y data = Some (default_file now)"
    and "map_of (fs_files fs) path = None" and "fs_mkdirOk fs path" and "fs_writeOk fs path" and "path \<noteq> ''''"
  shows "\<exists>cm fs'. LoadOrCreate y now (NewConfigManager path) fs = (None, cm, fs') \<and>
    map_of (fs_files fs') path = Some data \<and>
    (\<forall>key item. map_of DefaultConfigs key = Some item \<longrightarrow> GetValue cm key = Some (ci_DefaultVal item)) \<and>
    cfg_HeartbeatTimeout (reloaded_config cm cfg) = seconds 15 \<and> cfg_ListenAddr (reloaded_config cm cfg) = '':15050''"
proof -
  let ?cm = "\<lparr>cm_configPath = path, cm_configFile = Some (default_file now)\<rparr>"
  have "LoadOrCreate y now (NewConfigManager path) fs = (None, ?cm, fs\<lparr>fs_files := AList.update path data (fs_files fs)\<rparr>)"
    using assms by (simp add: LoadOrCreate_def NewConfigManager_def CreateDefaultConfig_def LoadConfig_def
        map_of_update ConfigManager_ValidateConfig_def default_file_no_errors)
  moreover have "GetValue ?cm key = map_option ci_DefaultVal (map_of DefaultConfigs key)" for key
    by (rule GetValue_default_file) simp
  ultimately show ?thesis
    by (simp add: map_of_update getConfigDuration_def GetDuration_def getConfigString_def GetString_def default_values
        default_durations)
qed

definition sample_yaml :: Yaml where
  "sample_yaml =
     \<lparr>y_Marshal = (\<lambda>f. if f = default_file ''t'' then Some ''d'' else None),
      y_Unmarshal = (\<lambda>s. if s = ''d'' then Some (default_file ''t'') else None)\<rparr>"

theorem default_config_roundtrip_witness:
  "\<exists>cm fs'. LoadOrCreate sample_yaml ''t'' (NewConfigManager ''c.yaml'')
      \<lparr>fs_files = [], fs_mkdirOk = (\<lambda>_. True), fs_writeOk = (\<lambda>_. True)\<rparr> = (None, cm, fs') \<and>
    map_of (fs_files fs') ''c.yaml'' = Some ''d''"
  using default_config_roundtrip [of sample_yaml "''t''" "''d''" "\<lparr>fs_files = [], fs_mkdirOk = (\<lambda>_. True), fs_writeOk = (\<lambda>_. True)\<rparr>" "''c.yaml''"]
  by (auto simp: sample_yaml_def)

text \<open>
  A reload from the untouched default file drops the API key and leaves authentication on, which the
  validator then refuses.
\<close>

lemma reload_default_file_invalid:
  assumes "cm_configFile cm = Some (default_file now)"
  shows "cfg_APIKey (reloaded_config cm cfg) = '''' \<and> \<not> config_ok (reloaded_config cm cfg)"
  using GetValue_default_file [OF assms]
  by (simp add: config_ok_def getConfigString_def GetString_def getConfigBool_def GetBool_def default_values config_item_def)

end
