(* ===== verification/Auth.thy ===== *)
theory Auth
  imports Config Pool
begin

text \<open>
  \<open>internal/admin/auth.go\<close>, \<open>internal/business/auth.go\<close> and \<open>requireGossipAuth\<close> of \<open>internal/gossip/gossip.go\<close>:
  who may call what. The peer's address is judged with Go's \<open>net.SplitHostPort\<close>, \<open>net.ParseIP\<close> and
  \<open>IP.IsLoopback\<close>, which are modelled in full, IPv6 included.
\<close>

section \<open>Addresses\<close>

text \<open>\<open>net.SplitHostPort\<close>: the host and the port, or an error.\<close>

definition SplitHostPort :: "string \<Rightarrow> (string \<times> string) option" where
  "SplitHostPort hostport =
     (let i = LastIndex hostport CHR '':''
      in if i < 0 then None
         else if hd hostport = CHR ''['' then
           let closing = Index hostport CHR '']''
           in if closing < 0 then None
              else if closing + 1 \<noteq> i then None
              else let host = take (nat closing - 1) (tl hostport)
                   in if CHR ''['' \<in> set (tl hostport) \<or> CHR '']'' \<in> set (drop (nat closing + 1) hostport) then None
                      else Some (host, drop (nat i + 1) hostport)
         else
           let host = take (nat i) hostport
           in if CHR '':'' \<in> set host then None
              else if CHR ''['' \<in> set hostport \<or> CHR '']'' \<in> set hostport then None
              else Some (host, drop (nat i + 1) hostport))"

text \<open>One decimal field of an IPv4 address: no empty field, no leading zero, at most 255.\<close>

definition ipv4_field :: "string \<Rightarrow> nat option" where
  "ipv4_field ds =
     (if ds = [] \<or> \<not> list_all is_digit ds \<or> (1 < length ds \<and> hd ds = CHR ''0'') then None
      else let v = digits_val 0 ds in if v > 255 then None else Some v)"

definition parseIPv4Fields :: "string \<Rightarrow> nat list option" where
  "parseIPv4Fields s =
     (let fs = map ipv4_field (Split CHR ''.'' s)
      in if length fs = 4 \<and> None \<notin> set fs then Some (map the fs) else None)"

fun hex_group :: "nat \<Rightarrow> string \<Rightarrow> nat" where
  "hex_group acc [] = acc"
| "hex_group acc (c # cs) = hex_group (acc * 16 + (case hex_val c of Some d \<Rightarrow> d | None \<Rightarrow> 0)) cs"

text \<open>
  The loop of \<open>parseIPv6\<close>: at most eight groups; the bytes read so far, the position of the ellipsis, and
  the text left. The result is \<open>None\<close> on a syntax error.
\<close>

fun ipv6_loop :: "nat \<Rightarrow> nat list \<Rightarrow> nat option \<Rightarrow> string \<Rightarrow> (nat list \<times> nat option \<times> string) option" where
  "ipv6_loop 0 ip ellipsis s = Some (ip, ellipsis, s)"
| "ipv6_loop (Suc n) ip ellipsis s =
     (let ds = takeWhile (\<lambda>c. hex_val c \<noteq> None) s; rest = dropWhile (\<lambda>c. hex_val c \<noteq> None) s
      in if ds = [] \<or> length ds > 4 then None
         else if rest \<noteq> [] \<and> hd rest = CHR ''.'' then
           if ellipsis = None \<and> length ip \<noteq> 12 then None
           else if length ip + 4 > 16 then None
           else map_option (\<lambda>fs. (ip @ fs, ellipsis, [])) (parseIPv4Fields s)
         else
           let ip = ip @ [hex_group 0 ds div 256, hex_group 0 ds mod 256]
           in if rest = [] then Some (ip, ellipsis, [])
              else if hd rest \<noteq> CHR '':'' \<or> length rest = 1 then None
              else
                let s = tl rest
                in if hd s = CHR '':'' then
                     if ellipsis \<noteq> None then None
                     else if tl s = [] then Some (ip, Some (length ip), [])
                     else ipv6_loop n ip (Some (length ip)) (tl s)
                   else ipv6_loop n ip ellipsis s)"

definition parseIPv6 :: "string \<Rightarrow> nat list option" where
  "parseIPv6 s =
     (if CHR ''%'' \<in> set s then None
      else
        let leading = (length s \<ge> 2 \<and> take 2 s = ''::'');
            s = (if leading then drop 2 s else s);
            ellipsis = (if leading then Some 0 else None)
        in if leading \<and> s = [] then Some (replicate 16 0)
           else case ipv6_loop 8 [] ellipsis s of
             None \<Rightarrow> None
           | Some (ip, ellipsis, s) \<Rightarrow>
               if s \<noteq> [] then None
               else if length ip < 16 then
                 (case ellipsis of
                    None \<Rightarrow> None
                  | Some e \<Rightarrow> Some (take e ip @ replicate (16 - length ip) 0 @ drop e ip))
               else if ellipsis \<noteq> None then None
               else Some ip)"

text \<open>\<open>net.ParseIP\<close> in the 16-byte form; an IPv4 address is mapped into IPv6. Zones are refused.\<close>

definition ParseIP :: "string \<Rightarrow> nat list option" where
  "ParseIP s =
     (case dropWhile (\<lambda>c. c \<noteq> CHR ''.'' \<and> c \<noteq> CHR '':'' \<and> c \<noteq> CHR ''%'') s of
        [] \<Rightarrow> None
      | c # _ \<Rightarrow>
          if c = CHR ''.'' then map_option (\<lambda>fs. replicate 10 0 @ [255, 255] @ fs) (parseIPv4Fields s)
          else if c = CHR '':'' then parseIPv6 s
          else None)"

definition To4 :: "nat list \<Rightarrow> nat list option" where
  "To4 ip = (if length ip = 16 \<and> take 10 ip = replicate 10 0 \<and> ip ! 10 = 255 \<and> ip ! 11 = 255 then Some (drop 12 ip) else None)"

definition IsLoopback :: "nat list \<Rightarrow> bool" where
  "IsLoopback ip = (case To4 ip of Some ip4 \<Rightarrow> hd ip4 = 127 | None \<Rightarrow> ip = replicate 15 0 @ [1])"

section \<open>Gates\<close>

record Request =
  rq_method :: string
  rq_path :: string
  rq_query :: Header
  rq_header :: Header
  rq_remoteAddr :: string

definition quote :: "string \<Rightarrow> string" where
  "quote s = CHR 0x22 # s @ [CHR 0x22]"

text \<open>\<open>json.NewEncoder(w).Encode\<close> of the two-entry error map, keys in order, one line.\<close>

definition json_error :: "int \<Rightarrow> string \<Rightarrow> string \<Rightarrow> ResponseWriter \<Rightarrow> ResponseWriter" where
  "json_error code err msg w =
     (let w = write_header code (w\<lparr>w_header := header_set ''Content-Type'' ''application/json'' (w_header w)\<rparr>)
      in w\<lparr>w_body := w_body w @ ''{'' @ quote ''error'' @ '':'' @ quote err @ '','' @ quote ''message'' @ '':'' @ quote msg @
              ''}'' @ [CHR 0x0A]\<rparr>)"

definition requireAPIKey :: "Config \<Rightarrow> Request \<Rightarrow> ResponseWriter \<Rightarrow> bool \<times> ResponseWriter" where
  "requireAPIKey config r w =
     (if cfg_DisableAdminAuth config then (True, w)
      else let apiKey = header_get (rq_header r) ''X-Api-Key''
           in if apiKey = '''' \<or> apiKey \<noteq> cfg_APIKey config
              then (False, json_error 401 ''unauthorized'' ''Invalid or missing API key'' w)
              else (True, w))"

definition isLocalRequest :: "Request \<Rightarrow> bool" where
  "isLocalRequest r =
     (let remoteAddr = rq_remoteAddr r;
          host = (case SplitHostPort remoteAddr of None \<Rightarrow> remoteAddr | Some (host, _) \<Rightarrow> host)
      in if host = ''127.0.0.1'' \<or> host = ''::1'' \<or> host = ''localhost'' then True
         else case ParseIP host of Some ip \<Rightarrow> IsLoopback ip | None \<Rightarrow> False)"

definition requireLocalOnly :: "Request \<Rightarrow> ResponseWriter \<Rightarrow> bool \<times> ResponseWriter" where
  "requireLocalOnly r w =
     (if \<not> isLocalRequest r
      then (False, json_error 403 ''forbidden'' ''This endpoint only accepts local requests'' w)
      else (True, w))"

definition requireAPIKeyOrLocal :: "Config \<Rightarrow> Request \<Rightarrow> ResponseWriter \<Rightarrow> bool \<times> ResponseWriter" where
  "requireAPIKeyOrLocal config r w =
     (if cfg_DisableAdminAuth config then (True, w)
      else if isLocalRequest r then (True, w)
      else requireAPIKey config r w)"

definition requireGossipAuth :: "Config \<Rightarrow> Request \<Rightarrow> ResponseWriter \<Rightarrow> bool \<times> ResponseWriter" where
  "requireGossipAuth config r w =
     (if cfg_APIKey config = '''' \<or> cfg_DisableAdminAuth config then (True, w)
      else if header_get (rq_header r) ''X-Api-Key'' \<noteq> cfg_APIKey config then (False, http_error ''Unauthorized'' 401 w)
      else (True, w))"

text \<open>The business server's copies.\<close>

definition Business_isLocalRequest :: "Request \<Rightarrow> bool" where
  "Business_isLocalRequest r =
     (let remoteAddr = rq_remoteAddr r;
          host = (case SplitHostPort remoteAddr of None \<Rightarrow> remoteAddr | Some (host, _) \<Rightarrow> host)
      in if host = ''127.0.0.1'' \<or> host = ''::1'' \<or> host = ''localhost'' then True
         else case ParseIP host of Some ip \<Rightarrow> IsLoopback ip | None \<Rightarrow> False)"

definition writeAuthError :: "int \<Rightarrow> string \<Rightarrow> ResponseWriter \<Rightarrow> ResponseWriter" where
  "writeAuthError code message w = json_error code ''unauthorized'' message w"

definition requireInboundAccess :: "Config \<Rightarrow> Request \<Rightarrow> ResponseWriter \<Rightarrow> bool \<times> ResponseWriter" where
  "requireInboundAccess config r w =
     (let mode = (if cfg_ShareMode config = '''' then if cfg_DisableAdminAuth config then ''public'' else ''account''
                  else cfg_ShareMode config)
      in if mode = ''public'' then (True, w)
         else if mode = ''local'' then
           if \<not> Business_isLocalRequest r
           then (False, writeAuthError 403 ''This endpoint only accepts local requests'' w) else (True, w)
         else if Business_isLocalRequest r then (True, w)
         else let apiKey = header_get (rq_header r) ''X-Api-Key''
              in if apiKey = '''' \<or> apiKey \<noteq> cfg_APIKey config
                 then (False, writeAuthError 401 ''Invalid or missing API key'' w) else (True, w))"

section \<open>What counts as local\<close>

lemma Business_isLocalRequest_eq: "Business_isLocalRequest = isLocalRequest"
  by (simp add: fun_eq_iff Business_isLocalRequest_def isLocalRequest_def)

lemma SplitHostPort_plain:
  assumes "CHR '':'' \<notin> set host" and "CHR '':'' \<notin> set port"
    and "CHR ''['' \<notin> set (host @ port)" and "CHR '']'' \<notin> set (host @ port)"
  shows "SplitHostPort (host @ '':'' @ port) = Some (host, port)"
proof -
  have "LastIndex (host @ '':'' @ port) CHR '':'' = int (length host)"
    using LastIndex_append [of "CHR '':''" port host] assms(2) by simp
  moreover have "hd (host @ '':'' @ port) \<noteq> CHR ''[''" using assms(3) by (cases host) auto
  ultimately show ?thesis using assms by (simp add: SplitHostPort_def nat_add_distrib Let_def)
qed

definition ipv4_text :: "nat \<Rightarrow> nat \<Rightarrow> nat \<Rightarrow> nat \<Rightarrow> string" where
  "ipv4_text a b c d = Join CHR ''.'' (map nat_digits [a, b, c, d])"

lemma nat_digits_no_leading_zero: "0 < n \<Longrightarrow> hd (nat_digits n) \<noteq> CHR ''0''"
proof (induction n rule: nat_digits.induct)
  case (1 n)
  show ?case
  proof (cases "n < 10")
    case True
    have "digit_char n \<noteq> CHR ''0''"
    proof
      assume "digit_char n = CHR ''0''"
      then have "(of_char (digit_char n) :: nat) = 48" by simp
      then show False using True 1(2) by (simp add: of_char_digit_char)
    qed
    then show ?thesis using True by (simp add: nat_digits.simps)
  next
    case False
    then show ?thesis using 1(1) by (subst nat_digits.simps) simp
  qed
qed

lemma ipv4_field_nat_digits: "n \<le> 255 \<Longrightarrow> ipv4_field (nat_digits n) = Some n"
proof -
  assume n: "n \<le> 255"
  have "\<not> (1 < length (nat_digits n) \<and> hd (nat_digits n) = CHR ''0'')"
  proof (cases "n = 0")
    case True
    then show ?thesis by (simp add: nat_digits.simps [of 0])
  next
    case False
    then show ?thesis using nat_digits_no_leading_zero by simp
  qed
  then show ?thesis using n by (simp add: ipv4_field_def nat_digits_all digits_val_nat_digits Let_def)
qed

lemma nat_digits_no: "\<not> is_digit c \<Longrightarrow> c \<notin> set (nat_digits n)"
  using nat_digits_digit by blast

lemma ipv4_text_chars: "c \<in> set (ipv4_text a b c' d) \<Longrightarrow> is_digit c \<or> c = CHR ''.''"
  using nat_digits_digit by (auto simp: ipv4_text_def)

lemma parseIPv4_text:
  assumes "a \<le> 255" "b \<le> 255" "c \<le> 255" "d \<le> 255"
  shows "parseIPv4Fields (ipv4_text a b c d) = Some [a, b, c, d]"
proof -
  have "Split CHR ''.'' (ipv4_text a b c d) = map nat_digits [a, b, c, d]"
    unfolding ipv4_text_def by (rule Split_Join) (auto simp: is_digit_def nat_digits_no)
  then show ?thesis using assms by (simp add: parseIPv4Fields_def ipv4_field_nat_digits Let_def)
qed

lemma ParseIP_text:
  assumes "a \<le> 255" "b \<le> 255" "c \<le> 255" "d \<le> 255"
  shows "ParseIP (ipv4_text a b c d) = Some (replicate 10 0 @ [255, 255, a, b, c, d])"
proof -
  let ?P = "\<lambda>x. x \<noteq> CHR ''.'' \<and> x \<noteq> CHR '':'' \<and> x \<noteq> CHR ''%''"
  have "\<forall>x \<in> set (nat_digits a). ?P x" using nat_digits_no [of _ a] by (auto simp: is_digit_def)
  then have "dropWhile ?P (nat_digits a @ CHR ''.'' # r) = CHR ''.'' # r" for r by (simp add: dropWhile_append3)
  then show ?thesis
    using parseIPv4_text [OF assms] by (simp add: ParseIP_def ipv4_text_def split: list.splits)
qed

lemma IsLoopback_ipv4: "IsLoopback (replicate 10 0 @ [255, 255, a, b, c, d]) \<longleftrightarrow> a = 127"
  by (simp add: IsLoopback_def To4_def nth_append numeral_eq_Suc)

lemma isLocal_ipv4:
  assumes "a \<le> 255" "b \<le> 255" "c \<le> 255" "d \<le> 255" and "CHR '':'' \<notin> set port" "CHR ''['' \<notin> set port" "CHR '']'' \<notin> set port"
    and "rq_remoteAddr r = ipv4_text a b c d @ '':'' @ port"
  shows "isLocalRequest r \<longleftrightarrow> a = 127"
proof -
  have no: "x \<notin> set (ipv4_text a b c d)" if "\<not> is_digit x" "x \<noteq> CHR ''.''" for x using ipv4_text_chars that by blast
  have "SplitHostPort (rq_remoteAddr r) = Some (ipv4_text a b c d, port)"
    unfolding assms(8) by (rule SplitHostPort_plain) (auto simp: no is_digit_def assms(5-7))
  moreover have "a = 127" if "ipv4_text a b c d = ''127.0.0.1''"
  proof -
    have "parseIPv4Fields ''127.0.0.1'' = Some [127, 0, 0, 1]"
      by (simp add: parseIPv4Fields_def ipv4_field_def is_digit_def digit_val_def)
    then show ?thesis using parseIPv4_text [OF assms(1-4)] that by simp
  qed
  moreover have "ipv4_text a b c d \<noteq> ''::1''" "ipv4_text a b c d \<noteq> ''localhost''"
    using no [of "CHR '':''"] no [of "CHR ''l''"] by (auto simp: is_digit_def)
  ultimately show ?thesis
    using ParseIP_text [OF assms(1-4)] IsLoopback_ipv4 by (auto simp: isLocalRequest_def Let_def)
qed


section \<open>The gates\<close>

abbreviation has_key :: "Config \<Rightarrow> Request \<Rightarrow> bool" where
  "has_key config r \<equiv> header_get (rq_header r) ''X-Api-Key'' \<noteq> '''' \<and> header_get (rq_header r) ''X-Api-Key'' = cfg_APIKey config"

lemma requireAPIKeyOrLocal_iff:
  "fst (requireAPIKeyOrLocal config r w) \<longleftrightarrow> cfg_DisableAdminAuth config \<or> isLocalRequest r \<or> has_key config r"
  by (auto simp: requireAPIKeyOrLocal_def requireAPIKey_def Let_def)

lemma requireAPIKeyOrLocal_pass: "fst (requireAPIKeyOrLocal config r w) \<Longrightarrow> snd (requireAPIKeyOrLocal config r w) = w"
  by (auto simp: requireAPIKeyOrLocal_def requireAPIKey_def Let_def split: if_splits)

lemma requireAPIKeyOrLocal_refused:
  "\<not> fst (requireAPIKeyOrLocal config r w) \<Longrightarrow>
   snd (requireAPIKeyOrLocal config r w) = json_error 401 ''unauthorized'' ''Invalid or missing API key'' w"
  by (auto simp: requireAPIKeyOrLocal_def requireAPIKey_def Let_def split: if_splits)

lemma requireGossipAuth_iff:
  "fst (requireGossipAuth config r w) \<longleftrightarrow>
     cfg_APIKey config = '''' \<or> cfg_DisableAdminAuth config \<or> header_get (rq_header r) ''X-Api-Key'' = cfg_APIKey config"
  by (auto simp: requireGossipAuth_def)


definition sample_request :: Request where
  "sample_request =
     \<lparr>rq_method = ''POST'', rq_path = ''/v1/endpoints'', rq_query = [], rq_header = [],
      rq_remoteAddr = ipv4_text 10 0 0 7 @ '':'' @ Itoa 4711\<rparr>"


text \<open>
  The sharing modes of the business server: \<open>public\<close> admits everybody, \<open>local\<close> exactly the loopback
  peers, every other mode the loopback peers and holders of the key; an unset mode means \<open>public\<close> when
  authentication is disabled and \<open>account\<close> otherwise. A refusal is 403 in \<open>local\<close> mode and 401 otherwise.
\<close>

theorem inbound_access_modes:
  fixes config :: Config
  defines "mode \<equiv> (if cfg_ShareMode config \<noteq> '''' then cfg_ShareMode config
                   else if cfg_DisableAdminAuth config then ''public'' else ''account'')"
  assumes "w_sent w = None"
  shows "(fst (requireInboundAccess config r w) \<longleftrightarrow>
      mode = ''public'' \<or> isLocalRequest r \<or> (mode \<noteq> ''local'' \<and> has_key config r)) \<and>
    (\<not> fst (requireInboundAccess config r w) \<longrightarrow>
      map_option fst (w_sent (snd (requireInboundAccess config r w))) = Some (if mode = ''local'' then 403 else 401))"
  using assms(2)
  by (auto simp: requireInboundAccess_def mode_def Business_isLocalRequest_eq writeAuthError_def json_error_def
      write_header_def Let_def)

theorem inbound_access_modes_witness:
  "fst (requireInboundAccess ((load_config sample_env)\<lparr>cfg_ShareMode := ''public''\<rparr>) sample_request
      \<lparr>w_header = [], w_sent = None, w_body = ''''\<rparr>)"
  using inbound_access_modes [of "\<lparr>w_header = [], w_sent = None, w_body = ''''\<rparr>"
      "(load_config sample_env)\<lparr>cfg_ShareMode := ''public''\<rparr>" sample_request] by simp

end
