(* ===== verification/Endpoint_Store.thy ===== *)
theory Endpoint_Store
  imports Prelude
begin

text \<open>
  \<open>internal/models/endpoint.go\<close>: the local endpoint table, a two-level map from the registered
  path to the internal identifier \<open>EpID\<close> of a backend. Endpoints are pointers in the source;
  an in-place write through a pointer is a write of the entry the pointer is stored under,
  which is the one under its own \<open>NodePath\<close> and \<open>EpID\<close> by the invariant \<open>wf_les\<close>.
\<close>

section \<open>Data\<close>

record LocalEndpoint =
  ep_ServiceID :: string
  ep_EpID :: string
  ep_ServicePath :: string
  ep_NodePath :: string
  ep_Description :: string
  ep_Healthy :: bool
  ep_LastHeartbeat :: time
  ep_Active :: i32
  ep_QueueLen :: i32
  ep_MaxConcurrent :: i32
  ep_LocalOnly :: bool
  ep_Plugin :: bool

record AggregatedPathInfo =
  agg_NodePath :: string
  agg_Active :: i32
  agg_QueueLen :: i32
  agg_Healthy :: bool
  agg_MaxConcurrent :: i32
  agg_Plugin :: bool

type_synonym LocalEndpointStore = "LocalEndpoint nested"

section \<open>Operations\<close>

definition NewLocalEndpointStore :: LocalEndpointStore where
  "NewLocalEndpointStore = []"

definition LocalEndpointStore_Set :: "string \<Rightarrow> LocalEndpoint \<Rightarrow> LocalEndpointStore \<Rightarrow> LocalEndpointStore" where
  "LocalEndpointStore_Set path endpoint s = nested_put path (ep_EpID endpoint) endpoint s"

definition LocalEndpointStore_ListByNodePath :: "LocalEndpointStore \<Rightarrow> string \<Rightarrow> LocalEndpoint list" where
  "LocalEndpointStore_ListByNodePath s path =
     (case map_of s path of None \<Rightarrow> [] | Some sub \<Rightarrow> map snd sub)"

text \<open>\<open>Get\<close> returns the first endpoint the iteration meets.\<close>

definition LocalEndpointStore_Get :: "LocalEndpointStore \<Rightarrow> string \<Rightarrow> LocalEndpoint option" where
  "LocalEndpointStore_Get s path =
     (case map_of s path of
        None \<Rightarrow> None
      | Some sub \<Rightarrow> (case sub of [] \<Rightarrow> None | (k, ep) # _ \<Rightarrow> Some ep))"

definition LocalEndpointStore_GetByEpID :: "LocalEndpointStore \<Rightarrow> string \<Rightarrow> string \<Rightarrow> LocalEndpoint option" where
  "LocalEndpointStore_GetByEpID s path epID =
     (case map_of s path of
        None \<Rightarrow> None
      | Some sub \<Rightarrow> find (\<lambda>ep. ep_EpID ep = epID) (map snd sub))"

definition LocalEndpointStore_GetByServiceID :: "LocalEndpointStore \<Rightarrow> string \<Rightarrow> string \<Rightarrow> LocalEndpoint option" where
  "LocalEndpointStore_GetByServiceID s path serviceID =
     (case map_of s path of
        None \<Rightarrow> None
      | Some sub \<Rightarrow> find (\<lambda>ep. ep_ServiceID ep = serviceID) (map snd sub))"

definition LocalEndpointStore_Delete :: "string \<Rightarrow> LocalEndpointStore \<Rightarrow> LocalEndpointStore" where
  "LocalEndpointStore_Delete path s = AList.delete path s"

definition LocalEndpointStore_DeleteByEpID :: "string \<Rightarrow> string \<Rightarrow> LocalEndpointStore \<Rightarrow> LocalEndpointStore" where
  "LocalEndpointStore_DeleteByEpID path epID s = nested_del path epID s"

definition LocalEndpointStore_DeleteByServiceID :: "string \<Rightarrow> string \<Rightarrow> LocalEndpointStore \<Rightarrow> LocalEndpointStore" where
  "LocalEndpointStore_DeleteByServiceID path serviceID s =
     (case map_of s path of
        None \<Rightarrow> s
      | Some sub \<Rightarrow>
          (let sub' = filter (\<lambda>(epID, ep). ep_ServiceID ep \<noteq> serviceID) sub
           in if sub' = [] then AList.delete path s else AList.update path sub' s))"

definition LocalEndpointStore_List :: "LocalEndpointStore \<Rightarrow> LocalEndpoint list" where
  "LocalEndpointStore_List s = nested_list s"

text \<open>\<open>GetAll\<close>: one representative per path, the last one written.\<close>

definition LocalEndpointStore_GetAll :: "LocalEndpointStore \<Rightarrow> LocalEndpoint gomap" where
  "LocalEndpointStore_GetAll s =
     foldl (\<lambda>result (path, sub). foldl (\<lambda>result (k, ep). AList.update path ep result) result sub) [] s"

definition LocalEndpointStore_UpdateHealthy :: "bool \<Rightarrow> LocalEndpointStore \<Rightarrow> LocalEndpointStore" where
  "LocalEndpointStore_UpdateHealthy healthy s =
     map_values (map_values (\<lambda>ep. ep\<lparr>ep_Healthy := healthy\<rparr>)) s"

definition LocalEndpointStore_UpdateHeartbeat :: "time \<Rightarrow> LocalEndpointStore \<Rightarrow> LocalEndpointStore" where
  "LocalEndpointStore_UpdateHeartbeat now s =
     map_values (map_values (\<lambda>ep. ep\<lparr>ep_LastHeartbeat := now\<rparr>)) s"

section \<open>Well-formedness\<close>

text \<open>
  Inner keys are the \<open>EpID\<close>s of the endpoints, no inner map is empty, and every endpoint is filed
  under its own \<open>NodePath\<close>.
\<close>

abbreviation keyed_les :: "LocalEndpointStore \<Rightarrow> bool" where
  "keyed_les \<equiv> wf_keyed ep_EpID"

definition wf_les :: "LocalEndpointStore \<Rightarrow> bool" where
  "wf_les s \<longleftrightarrow> keyed_les s \<and> (\<forall>(p, sub) \<in> set s. \<forall>(k, ep) \<in> set sub. ep_NodePath ep = p)"

lemma wf_les_keyed [dest]: "wf_les s \<Longrightarrow> keyed_les s"
  by (simp add: wf_les_def)

lemma wf_les_nested: "wf_les s \<Longrightarrow> wf_nested s"
  by blast

lemma find_keyed:
  "wf_map sub \<Longrightarrow> (\<And>k v. (k, v) \<in> set sub \<Longrightarrow> key v = k) \<Longrightarrow>
   find (\<lambda>v. key v = k) (map snd sub) = map_of sub k"
  by (induction sub) auto

lemma GetByEpID_nested:
  assumes "keyed_les s"
  shows "LocalEndpointStore_GetByEpID s p k = nested_get p k s"
proof (cases "map_of s p")
  case None
  then show ?thesis by (simp add: LocalEndpointStore_GetByEpID_def nested_get_def)
next
  case (Some sub)
  from Some have mem: "(p, sub) \<in> set s" by (rule map_of_SomeD)
  have "find (\<lambda>ep. ep_EpID ep = k) (map snd sub) = map_of sub k"
  proof (rule find_keyed)
    show "wf_map sub" using assms Some wf_nested_sub by blast
    show "\<And>k v. (k, v) \<in> set sub \<Longrightarrow> ep_EpID v = k" using assms mem by (auto simp: wf_keyed_def)
  qed
  with Some show ?thesis by (simp add: LocalEndpointStore_GetByEpID_def nested_get_def)
qed

interpretation les: two_level_store LocalEndpointStore_GetByEpID LocalEndpointStore_Set
  LocalEndpointStore_DeleteByEpID LocalEndpointStore_List ep_EpID keyed_les
proof
  fix s :: LocalEndpointStore and p p' k k' v
  assume wf: "keyed_les s"
  from wf show ins: "keyed_les (LocalEndpointStore_Set p v s)"
    by (simp add: LocalEndpointStore_Set_def wf_keyed_put)
  from wf show del: "keyed_les (LocalEndpointStore_DeleteByEpID p k s)"
    by (simp add: LocalEndpointStore_DeleteByEpID_def wf_keyed_del)
  show "LocalEndpointStore_GetByEpID (LocalEndpointStore_Set p v s) p' k' =
      (if p' = p \<and> k' = ep_EpID v then Some v else LocalEndpointStore_GetByEpID s p' k')"
    using GetByEpID_nested [OF ins] GetByEpID_nested [OF wf]
    by (simp add: LocalEndpointStore_Set_def nested_get_put)
  show "LocalEndpointStore_GetByEpID (LocalEndpointStore_DeleteByEpID p k s) p' k' =
      (if p' = p \<and> k' = k then None else LocalEndpointStore_GetByEpID s p' k')"
    using GetByEpID_nested [OF del] GetByEpID_nested [OF wf]
    by (simp add: LocalEndpointStore_DeleteByEpID_def nested_get_del)
  show "LocalEndpointStore_GetByEpID s p k = Some v \<Longrightarrow> ep_EpID v = k"
    using wf by (simp add: GetByEpID_nested wf_keyed_iff)
  show "v \<in> set (LocalEndpointStore_List s) \<longleftrightarrow> (\<exists>p k. LocalEndpointStore_GetByEpID s p k = Some v)"
    using wf by (auto simp: GetByEpID_nested LocalEndpointStore_List_def nested_list_iff wf_keyed_nested)
qed

lemma wf_les_iff:
  "wf_les s \<longleftrightarrow> keyed_les s \<and>
     (\<forall>p k ep. LocalEndpointStore_GetByEpID s p k = Some ep \<longrightarrow> ep_NodePath ep = p)"
  by (fastforce simp: wf_les_def GetByEpID_nested nested_get_iff wf_keyed_nested)

lemma wf_les_New [simp]: "wf_les NewLocalEndpointStore"
  by (simp add: wf_les_def NewLocalEndpointStore_def)

lemma wf_les_Set [inv_intros]:
  "wf_les s \<Longrightarrow> ep_NodePath ep = p \<Longrightarrow> wf_les (LocalEndpointStore_Set p ep s)"
  by (auto simp: wf_les_iff les.look_ins les.wf_ins split: if_splits)

lemma wf_les_DeleteByEpID [inv_intros]: "wf_les s \<Longrightarrow> wf_les (LocalEndpointStore_DeleteByEpID p k s)"
  by (auto simp: wf_les_iff les.look_del les.wf_del split: if_splits)

text \<open>In a well-formed store an endpoint of the listing is found under its own keys.\<close>

lemma List_own_keys:
  assumes "wf_les s" and "ep \<in> set (LocalEndpointStore_List s)"
  shows "LocalEndpointStore_GetByEpID s (ep_NodePath ep) (ep_EpID ep) = Some ep"
proof -
  from assms obtain p k where "LocalEndpointStore_GetByEpID s p k = Some ep"
    using les.elems_look by blast
  with assms(1) show ?thesis using les.look_key wf_les_iff by (metis wf_les_keyed)
qed

lemma List_iff:
  "wf_les s \<Longrightarrow> ep \<in> set (LocalEndpointStore_List s) \<longleftrightarrow>
     LocalEndpointStore_GetByEpID s (ep_NodePath ep) (ep_EpID ep) = Some ep"
  using List_own_keys les.elems_look by blast

text \<open>Two listed endpoints with the same keys are the same endpoint.\<close>

lemma List_keys_unique:
  "wf_les s \<Longrightarrow> ep \<in> set (LocalEndpointStore_List s) \<Longrightarrow> ep' \<in> set (LocalEndpointStore_List s) \<Longrightarrow>
   ep_NodePath ep = ep_NodePath ep' \<Longrightarrow> ep_EpID ep = ep_EpID ep' \<Longrightarrow> ep = ep'"
  by (auto simp: List_iff)

section \<open>Deletion by path and by service\<close>

lemma nested_get_delete: "nested_get p' k (AList.delete p s) = (if p' = p then None else nested_get p' k s)"
  by (simp add: nested_get_def map_of_delete)

lemma wf_nested_delete: "wf_nested s \<Longrightarrow> wf_nested (AList.delete p s)"
  by (rule wf_nestedI) (auto simp: go_map_simps dest: wf_nested_sub split: if_splits)

lemma wf_les_Delete [inv_intros]: "wf_les s \<Longrightarrow> wf_les (LocalEndpointStore_Delete p s)"
  by (auto simp: wf_les_def wf_keyed_def LocalEndpointStore_Delete_def wf_nested_delete set_alist_delete)

lemma Delete_lookup:
  assumes "wf_les s"
  shows "LocalEndpointStore_GetByEpID (LocalEndpointStore_Delete p s) p' k =
    (if p' = p then None else LocalEndpointStore_GetByEpID s p' k)"
  using assms wf_les_Delete [OF assms, of p]
  by (simp add: GetByEpID_nested wf_les_keyed nested_get_delete LocalEndpointStore_Delete_def)

lemma nested_get_DeleteByServiceID:
  assumes "wf_nested s"
  shows "nested_get p' k (LocalEndpointStore_DeleteByServiceID p sid s) =
    (case nested_get p' k s of
       None \<Rightarrow> None
     | Some ep \<Rightarrow> if p' = p \<and> ep_ServiceID ep = sid then None else Some ep)"
proof (cases "map_of s p")
  case None
  then show ?thesis
    by (auto simp: LocalEndpointStore_DeleteByServiceID_def nested_get_def split: option.splits)
next
  case (Some sub)
  let ?sub' = "filter (\<lambda>(epID, ep). ep_ServiceID ep \<noteq> sid) sub"
  have look: "map_of ?sub' k = (case map_of sub k of None \<Rightarrow> None
      | Some ep \<Rightarrow> if ep_ServiceID ep \<noteq> sid then Some ep else None)"
    using wf_nested_sub [OF assms Some] by (intro map_of_filter_values) simp
  show ?thesis
  proof (cases "?sub' = []")
    case True
    then show ?thesis using Some look
      by (auto simp: LocalEndpointStore_DeleteByServiceID_def nested_get_def map_of_delete Let_def
        split: option.splits if_splits)
  next
    case False
    then show ?thesis using Some look
      by (auto simp: LocalEndpointStore_DeleteByServiceID_def nested_get_def map_of_update Let_def
        split: option.splits if_splits)
  qed
qed

lemma wf_nested_DeleteByServiceID:
  assumes "wf_nested s"
  shows "wf_nested (LocalEndpointStore_DeleteByServiceID p sid s)"
proof (rule wf_nestedI)
  show "wf_map (LocalEndpointStore_DeleteByServiceID p sid s)"
    using assms by (auto simp: LocalEndpointStore_DeleteByServiceID_def Let_def split: option.split)
  fix p' sub
  assume "map_of (LocalEndpointStore_DeleteByServiceID p sid s) p' = Some sub"
  then show "wf_map sub \<and> sub \<noteq> []"
    using assms
    by (auto simp: LocalEndpointStore_DeleteByServiceID_def Let_def go_map_simps wf_map_filter
      dest: wf_nested_sub split: option.splits if_splits)
qed

lemma wf_les_DeleteByServiceID [inv_intros]:
  assumes "wf_les s"
  shows "wf_les (LocalEndpointStore_DeleteByServiceID p sid s)"
proof -
  have "wf_nested s" using assms by blast
  then have keyed: "keyed_les (LocalEndpointStore_DeleteByServiceID p sid s)"
    using wf_les_keyed [OF assms]
    by (auto simp: wf_keyed_iff nested_get_DeleteByServiceID wf_nested_DeleteByServiceID
      split: option.splits if_splits)
  then show ?thesis
    using assms \<open>wf_nested s\<close>
    by (auto simp: wf_les_iff GetByEpID_nested nested_get_DeleteByServiceID split: option.splits if_splits)
qed

lemma DeleteByServiceID_lookup:
  assumes "wf_les s"
  shows "LocalEndpointStore_GetByEpID (LocalEndpointStore_DeleteByServiceID p sid s) p' k =
    (case LocalEndpointStore_GetByEpID s p' k of
       None \<Rightarrow> None
     | Some ep \<Rightarrow> if p' = p \<and> ep_ServiceID ep = sid then None else Some ep)"
  using assms wf_les_DeleteByServiceID [OF assms, of p sid]
  by (simp add: GetByEpID_nested wf_les_keyed nested_get_DeleteByServiceID wf_les_nested)

section \<open>Listings\<close>

lemma ListByNodePath_iff:
  assumes "wf_les s"
  shows "ep \<in> set (LocalEndpointStore_ListByNodePath s p) \<longleftrightarrow>
    ep \<in> set (LocalEndpointStore_List s) \<and> ep_NodePath ep = p"
proof -
  have wf: "wf_nested s" using assms by blast
  have "ep \<in> set (LocalEndpointStore_ListByNodePath s p) \<longleftrightarrow> (\<exists>k. nested_get p k s = Some ep)"
  proof (cases "map_of s p")
    case (Some sub)
    then show ?thesis using wf_nested_sub [OF wf Some]
      by (simp add: LocalEndpointStore_ListByNodePath_def nested_get_def values_iff)
  qed (simp add: LocalEndpointStore_ListByNodePath_def nested_get_def)
  also have "\<dots> \<longleftrightarrow> ep \<in> set (LocalEndpointStore_List s) \<and> ep_NodePath ep = p"
  proof
    assume "\<exists>k. nested_get p k s = Some ep"
    then obtain k where "LocalEndpointStore_GetByEpID s p k = Some ep"
      using assms by (auto simp: GetByEpID_nested wf_les_keyed)
    then show "ep \<in> set (LocalEndpointStore_List s) \<and> ep_NodePath ep = p"
      using assms les.elems_look wf_les_iff by blast
  next
    assume "ep \<in> set (LocalEndpointStore_List s) \<and> ep_NodePath ep = p"
    then have "nested_get p (ep_EpID ep) s = Some ep"
      using List_own_keys [OF assms, of ep] assms by (auto simp: GetByEpID_nested wf_les_keyed)
    then show "\<exists>k. nested_get p k s = Some ep" ..
  qed
  finally show ?thesis .
qed

lemma GetAll_inner:
  "map_of (foldl (\<lambda>res (k, ep). AList.update p ep res) r sub) q =
     (if sub \<noteq> [] \<and> q = p then Some (snd (last sub)) else map_of r q)"
  by (induction sub arbitrary: r) (auto simp: map_of_update)

lemma GetAll_fold:
  "wf_map s \<Longrightarrow>
   map_of (foldl (\<lambda>result (path, sub). foldl (\<lambda>result (k, ep). AList.update path ep result) result sub) r s) q =
     (case map_of s q of
        None \<Rightarrow> map_of r q
      | Some sub \<Rightarrow> if sub = [] then map_of r q else Some (snd (last sub)))"
proof (induction s arbitrary: r q)
  case (Cons x s)
  obtain p sub where x: "x = (p, sub)" by (cases x)
  with Cons.prems have "map_of s p = None" and "wf_map s" by (simp_all add: map_of_eq_None_iff)
  with x show ?case
    by (cases "q = p") (simp_all add: Cons.IH GetAll_inner split: option.split)
qed simp

text \<open>\<open>GetAll\<close> keeps one endpoint of each non-empty path.\<close>

lemma GetAll_lookup:
  assumes "wf_nested s"
  shows "map_of (LocalEndpointStore_GetAll s) q = map_option (\<lambda>sub. snd (last sub)) (map_of s q)"
  using GetAll_fold [of s "[]" q] wf_nested_sub [OF assms, of q] assms
  by (auto simp: LocalEndpointStore_GetAll_def split: option.splits)

lemma GetAll_inner_wf: "wf_map r \<Longrightarrow> wf_map (foldl (\<lambda>res (k, ep). AList.update p ep res) r sub)"
  by (induction sub arbitrary: r) auto

lemma GetAll_fold_wf:
  "wf_map r \<Longrightarrow>
   wf_map (foldl (\<lambda>result (path, sub). foldl (\<lambda>result (k, ep). AList.update path ep result) result sub) r s)"
proof (induction s arbitrary: r)
  case (Cons x s)
  then show ?case by (cases x) (simp only: foldl_Cons prod.case GetAll_inner_wf)
qed simp

lemma wf_map_GetAll: "wf_map (LocalEndpointStore_GetAll s)"
  using GetAll_fold_wf [of "[]"] by (simp add: LocalEndpointStore_GetAll_def)

lemma GetAll_in_List:
  assumes "wf_les s" and "map_of (LocalEndpointStore_GetAll s) q = Some ep"
  shows "ep \<in> set (LocalEndpointStore_ListByNodePath s q)"
proof -
  have "wf_nested s" using assms(1) by blast
  with assms(2) obtain sub where sub: "map_of s q = Some sub" and "ep = snd (last sub)"
    by (auto simp: GetAll_lookup)
  moreover have "sub \<noteq> []" using wf_nested_sub [OF \<open>wf_nested s\<close> sub] by simp
  ultimately show ?thesis by (auto simp: LocalEndpointStore_ListByNodePath_def)
qed

lemma GetAll_covers:
  assumes "wf_les s" and "ep \<in> set (LocalEndpointStore_ListByNodePath s q)"
  shows "\<exists>ep'. map_of (LocalEndpointStore_GetAll s) q = Some ep'"
  using assms(2) GetAll_lookup [OF wf_les_nested [OF assms(1)], of q]
  by (cases "map_of s q") (simp_all add: LocalEndpointStore_ListByNodePath_def)

section \<open>The store as a finite map\<close>

lemma nested_get_map_values:
  "nested_get p k (map_values (map_values f) s) = map_option f (nested_get p k s)"
  by (simp add: nested_get_def split: option.split)

lemma wf_les_map_values:
  assumes "wf_les s" and "\<And>ep. ep_EpID (f ep) = ep_EpID ep" and "\<And>ep. ep_NodePath (f ep) = ep_NodePath ep"
  shows "wf_les (map_values (map_values f) s)"
proof -
  have wf: "wf_nested (map_values (map_values f) s)"
    by (rule wf_nestedI)
       (use wf_nested_sub [OF wf_les_nested [OF assms(1)]] wf_les_nested [OF assms(1)] in
         \<open>auto simp: wf_nested_map\<close>)
  have keys: "ep_EpID ep = k \<and> ep_NodePath ep = p"
    if "nested_get p k (map_values (map_values f) s) = Some ep" for p k ep
    using that assms by (auto simp: nested_get_map_values wf_les_iff GetByEpID_nested wf_keyed_iff)
  with wf have "keyed_les (map_values (map_values f) s)" by (simp add: wf_keyed_iff)
  with keys show ?thesis by (simp add: wf_les_iff GetByEpID_nested)
qed

lemma wf_les_UpdateHealthy [inv_intros]: "wf_les s \<Longrightarrow> wf_les (LocalEndpointStore_UpdateHealthy h s)"
  unfolding LocalEndpointStore_UpdateHealthy_def by (rule wf_les_map_values) simp_all

lemma wf_les_UpdateHeartbeat [inv_intros]: "wf_les s \<Longrightarrow> wf_les (LocalEndpointStore_UpdateHeartbeat now s)"
  unfolding LocalEndpointStore_UpdateHeartbeat_def by (rule wf_les_map_values) simp_all

lemma Update_lookup:
  assumes "wf_les s"
  shows "LocalEndpointStore_GetByEpID (LocalEndpointStore_UpdateHealthy h s) p k =
      map_option (ep_Healthy_update (\<lambda>_. h)) (LocalEndpointStore_GetByEpID s p k)"
    and "LocalEndpointStore_GetByEpID (LocalEndpointStore_UpdateHeartbeat now s) p k =
      map_option (ep_LastHeartbeat_update (\<lambda>_. now)) (LocalEndpointStore_GetByEpID s p k)"
  using wf_les_UpdateHealthy [OF assms, of h] wf_les_UpdateHeartbeat [OF assms, of now] assms
  by (auto simp: GetByEpID_nested wf_les_keyed nested_get_map_values
      LocalEndpointStore_UpdateHealthy_def LocalEndpointStore_UpdateHeartbeat_def)

text \<open>The abstract state: a finite map from a path and an endpoint identifier to the endpoint.\<close>

definition les_abs :: "LocalEndpointStore \<Rightarrow> string \<times> string \<Rightarrow> LocalEndpoint option" where
  "les_abs s = (\<lambda>(p, k). LocalEndpointStore_GetByEpID s p k)"

text \<open>The abstract effect of a deletion: the keys whose endpoint satisfies \<open>P\<close> go.\<close>

definition drop_keys :: "('k \<Rightarrow> 'v \<Rightarrow> bool) \<Rightarrow> ('k \<Rightarrow> 'v option) \<Rightarrow> 'k \<Rightarrow> 'v option" where
  "drop_keys P m = (\<lambda>x. case m x of None \<Rightarrow> None | Some v \<Rightarrow> if P x v then None else Some v)"

definition sample_endpoint :: "string \<Rightarrow> string \<Rightarrow> string \<Rightarrow> LocalEndpoint" where
  "sample_endpoint sid epid path =
     \<lparr>ep_ServiceID = sid, ep_EpID = epid, ep_ServicePath = ''http://127.0.0.1:9000/a'', ep_NodePath = path,
      ep_Description = '''', ep_Healthy = True, ep_LastHeartbeat = 5, ep_Active = 0, ep_QueueLen = 0,
      ep_MaxConcurrent = 10, ep_LocalOnly = False, ep_Plugin = False\<rparr>"

text \<open>
  C1: The two-level endpoint table (\<open>LocalEndpointStore\<close>) implements a finite map from a pair of
  node path and endpoint identifier to the endpoint. From any well-formed table, \<open>Set\<close> is a map
  update, \<open>Delete\<close>, \<open>DeleteByEpID\<close> and \<open>DeleteByServiceID\<close> remove exactly the keys of that
  path, that key, or the keys of that path owned by that service, and \<open>UpdateHealthy\<close> and
  \<open>UpdateHeartbeat\<close> rewrite that one field of every endpoint; dropping emptied inner maps is
  invisible. Every one of them keeps the table well formed.
\<close>

theorem endpoint_store_refines_map:
  assumes "wf_les s" and "ep_NodePath ep = p"
  shows "wf_les (LocalEndpointStore_Set p ep s) \<and>
      les_abs (LocalEndpointStore_Set p ep s) = (les_abs s)((p, ep_EpID ep) \<mapsto> ep) \<and>
    wf_les (LocalEndpointStore_Delete q s) \<and>
      les_abs (LocalEndpointStore_Delete q s) = drop_keys (\<lambda>(p', k) ep. p' = q) (les_abs s) \<and>
    wf_les (LocalEndpointStore_DeleteByEpID q k s) \<and>
      les_abs (LocalEndpointStore_DeleteByEpID q k s) = (les_abs s)((q, k) := None) \<and>
    wf_les (LocalEndpointStore_DeleteByServiceID q sid s) \<and>
      les_abs (LocalEndpointStore_DeleteByServiceID q sid s) =
        drop_keys (\<lambda>(p', k) ep. p' = q \<and> ep_ServiceID ep = sid) (les_abs s) \<and>
    wf_les (LocalEndpointStore_UpdateHealthy h s) \<and>
      les_abs (LocalEndpointStore_UpdateHealthy h s) = map_option (ep_Healthy_update (\<lambda>_. h)) \<circ> les_abs s \<and>
    wf_les (LocalEndpointStore_UpdateHeartbeat now s) \<and>
      les_abs (LocalEndpointStore_UpdateHeartbeat now s) =
        map_option (ep_LastHeartbeat_update (\<lambda>_. now)) \<circ> les_abs s"
  using assms
  by (auto simp: les_abs_def drop_keys_def fun_eq_iff inv_intros les.look_ins les.look_del wf_les_keyed
      Delete_lookup DeleteByServiceID_lookup Update_lookup split: option.split)

theorem endpoint_store_refines_map_witness:
  "les_abs (LocalEndpointStore_Set ''/a'' (sample_endpoint ''s'' ''e'' ''/a'') NewLocalEndpointStore) =
     (les_abs NewLocalEndpointStore)((''/a'', ''e'') \<mapsto> sample_endpoint ''s'' ''e'' ''/a'')"
  using endpoint_store_refines_map [of NewLocalEndpointStore "sample_endpoint ''s'' ''e'' ''/a''" "''/a''"]
  by (simp add: sample_endpoint_def)

end
