(* ===== verification/Node_Store.thy ===== *)
theory Node_Store
  imports Go_Strings
begin

text \<open>
  \<open>internal/models/node.go\<close>: the table of remote cluster nodes, each with the states and the
  descriptions of its endpoints. A nil inner map is the empty list, which is how the source's
  \<open>make\<close> guards treat it. Each operation reads the clock once, as \<open>now\<close>.
\<close>

section \<open>Data\<close>

record EndpointState =
  es_Active :: i32
  es_QueueLen :: i32
  es_Healthy :: bool
  es_MaxConcurrent :: i32
  es_Plugin :: bool
  es_ResponseTime :: int
  es_LastSeen :: time

record EndpointMetadata =
  md_ServiceID :: string
  md_ServicePath :: string
  md_NodePath :: string
  md_Description :: string
  md_Plugin :: bool
  md_MaxConcurrent :: i32

record RemoteNode =
  rn_NodeID :: string
  rn_Address :: string
  rn_ServicePort :: int
  rn_ServicePath :: string
  rn_NodePath :: string
  rn_EpID :: string
  rn_EndpointStates :: "EndpointState gomap"
  rn_EndpointDescriptions :: "EndpointMetadata gomap"
  rn_LastSeen :: time

type_synonym RemoteNodeStore = "RemoteNode gomap"

section \<open>Operations\<close>

definition NewRemoteNodeStore :: RemoteNodeStore where
  "NewRemoteNodeStore = []"

definition RemoteNodeStore_Set :: "string \<Rightarrow> RemoteNode \<Rightarrow> RemoteNodeStore \<Rightarrow> RemoteNodeStore" where
  "RemoteNodeStore_Set nodeID node s = AList.update nodeID node s"

definition RemoteNodeStore_Upsert :: "time \<Rightarrow> string \<Rightarrow> string \<Rightarrow> int \<Rightarrow> RemoteNodeStore \<Rightarrow> RemoteNodeStore" where
  "RemoteNodeStore_Upsert now nodeID address servicePort s =
     (case map_of s nodeID of
        Some existing \<Rightarrow>
          AList.update nodeID
            (existing\<lparr>rn_Address := address, rn_ServicePort := servicePort, rn_LastSeen := now\<rparr>) s
      | None \<Rightarrow>
          AList.update nodeID
            \<lparr>rn_NodeID = nodeID, rn_Address = address, rn_ServicePort = servicePort,
             rn_ServicePath = '''', rn_NodePath = '''', rn_EpID = '''',
             rn_EndpointStates = [], rn_EndpointDescriptions = [], rn_LastSeen = now\<rparr> s)"

definition RemoteNodeStore_Get :: "RemoteNodeStore \<Rightarrow> string \<Rightarrow> RemoteNode option" where
  "RemoteNodeStore_Get s nodeID = map_of s nodeID"

definition RemoteNodeStore_Delete :: "string \<Rightarrow> RemoteNodeStore \<Rightarrow> RemoteNodeStore" where
  "RemoteNodeStore_Delete nodeID s = AList.delete nodeID s"

definition RemoteNodeStore_TouchLastSeen :: "time \<Rightarrow> string \<Rightarrow> RemoteNodeStore \<Rightarrow> RemoteNodeStore" where
  "RemoteNodeStore_TouchLastSeen now nodeID s =
     (case map_of s nodeID of
        None \<Rightarrow> s
      | Some node \<Rightarrow> AList.update nodeID (node\<lparr>rn_LastSeen := now\<rparr>) s)"

definition RemoteNodeStore_List :: "RemoteNodeStore \<Rightarrow> RemoteNode list" where
  "RemoteNodeStore_List s = map snd s"

definition RemoteNodeStore_GetAll :: "RemoteNodeStore \<Rightarrow> RemoteNode gomap" where
  "RemoteNodeStore_GetAll s = fold (\<lambda>(k, v). AList.update k v) s []"

definition RemoteNodeStore_UpdateState ::
    "time \<Rightarrow> string \<Rightarrow> EndpointState gomap \<Rightarrow> RemoteNodeStore \<Rightarrow> RemoteNodeStore" where
  "RemoteNodeStore_UpdateState now nodeID endpointStates s =
     (case map_of s nodeID of
        None \<Rightarrow> s
      | Some node \<Rightarrow>
          AList.update nodeID
            (node\<lparr>rn_EndpointStates :=
                    fold (\<lambda>(path, state). AList.update path (state\<lparr>es_LastSeen := now\<rparr>))
                      endpointStates (rn_EndpointStates node),
                  rn_LastSeen := now\<rparr>) s)"

text \<open>The state entry that \<open>UpdateMetadata\<close> leaves for a described path.\<close>

definition described_state :: "time \<Rightarrow> EndpointMetadata \<Rightarrow> EndpointState option \<Rightarrow> EndpointState" where
  "described_state now desc old =
     (case old of
        None \<Rightarrow>
          \<lparr>es_Active = 0, es_QueueLen = 0, es_Healthy = True, es_MaxConcurrent = md_MaxConcurrent desc,
           es_Plugin = False, es_ResponseTime = 0, es_LastSeen = now\<rparr>
      | Some st \<Rightarrow> st\<lparr>es_Healthy := True, es_MaxConcurrent := md_MaxConcurrent desc, es_LastSeen := now\<rparr>)"

definition describe_path :: "time \<Rightarrow> string \<Rightarrow> EndpointMetadata \<Rightarrow> RemoteNode \<Rightarrow> RemoteNode" where
  "describe_path now path desc node =
     node\<lparr>rn_EndpointDescriptions := AList.update path desc (rn_EndpointDescriptions node),
          rn_EndpointStates :=
            AList.update path (described_state now desc (map_of (rn_EndpointStates node) path))
              (rn_EndpointStates node)\<rparr>"

definition RemoteNodeStore_UpdateMetadata ::
    "time \<Rightarrow> string \<Rightarrow> EndpointMetadata gomap \<Rightarrow> RemoteNodeStore \<Rightarrow> RemoteNodeStore" where
  "RemoteNodeStore_UpdateMetadata now nodeID descriptions s =
     (case map_of s nodeID of
        None \<Rightarrow> s
      | Some node \<Rightarrow>
          AList.update nodeID (fold (\<lambda>(path, desc). describe_path now path desc) descriptions node) s)"

definition RemoteNodeStore_MarkUnhealthy :: "string \<Rightarrow> RemoteNodeStore \<Rightarrow> RemoteNodeStore" where
  "RemoteNodeStore_MarkUnhealthy nodeID s =
     (case map_of s nodeID of
        None \<Rightarrow> s
      | Some node \<Rightarrow>
          AList.update nodeID
            (node\<lparr>rn_EndpointStates := map_values (\<lambda>st. st\<lparr>es_Healthy := False\<rparr>) (rn_EndpointStates node)\<rparr>) s)"

text \<open>
  The matching rule written out in \<open>GetHealthyNodesForPath\<close>: a registered path with a trailing
  slash matches everything below it and itself without the slash; one without matches itself,
  with or without a trailing slash.
\<close>

definition path_matches :: "string \<Rightarrow> string \<Rightarrow> bool" where
  "path_matches path nodePath =
     (if HasSuffix nodePath ''/'' then
        HasPrefix path nodePath \<or> path @ ''/'' = nodePath \<or> path = take (length nodePath - 1) nodePath
      else path = nodePath \<or> path = nodePath @ ''/'')"

definition RemoteNodeStore_GetHealthyNodesForPath :: "RemoteNodeStore \<Rightarrow> string \<Rightarrow> RemoteNode list" where
  "RemoteNodeStore_GetHealthyNodesForPath s path =
     filter (\<lambda>node. \<exists>(nodePath, state) \<in> set (rn_EndpointStates node).
               es_Healthy state \<and> path_matches path nodePath)
       (map snd s)"

definition endpoint_stale :: "time \<Rightarrow> duration \<Rightarrow> EndpointState \<Rightarrow> bool" where
  "endpoint_stale now endpointTimeout state \<longleftrightarrow>
     es_LastSeen state \<noteq> 0 \<and> time_sub now (es_LastSeen state) > endpointTimeout"

definition clean_endpoints :: "time \<Rightarrow> duration \<Rightarrow> RemoteNode \<Rightarrow> RemoteNode" where
  "clean_endpoints now endpointTimeout node =
     fold (\<lambda>path node. node\<lparr>rn_EndpointStates := AList.delete path (rn_EndpointStates node),
                            rn_EndpointDescriptions := AList.delete path (rn_EndpointDescriptions node)\<rparr>)
       (map fst (filter (\<lambda>(path, state). endpoint_stale now endpointTimeout state) (rn_EndpointStates node)))
       node"

definition RemoteNodeStore_CleanStale :: "time \<Rightarrow> duration \<Rightarrow> duration \<Rightarrow> RemoteNodeStore \<Rightarrow> RemoteNodeStore" where
  "RemoteNodeStore_CleanStale now nodeTimeout endpointTimeout s =
     map_values (clean_endpoints now endpointTimeout)
       (filter (\<lambda>(nodeID, node). \<not> time_sub now (rn_LastSeen node) > nodeTimeout) s)"

definition RemoteNodeStore_RemoveEndpoint :: "string \<Rightarrow> string \<Rightarrow> RemoteNodeStore \<Rightarrow> RemoteNodeStore" where
  "RemoteNodeStore_RemoveEndpoint nodeID path s =
     (case map_of s nodeID of
        None \<Rightarrow> s
      | Some node \<Rightarrow>
          AList.update nodeID
            (node\<lparr>rn_EndpointStates := AList.delete path (rn_EndpointStates node),
                  rn_EndpointDescriptions := AList.delete path (rn_EndpointDescriptions node)\<rparr>) s)"

section \<open>Invariant\<close>

text \<open>
  A node is well formed when its maps have distinct keys and every described path has a state; the
  store when its keys are distinct, every node is well formed and filed under its own identifier.
\<close>

definition wf_node :: "RemoteNode \<Rightarrow> bool" where
  "wf_node node \<longleftrightarrow>
     wf_map (rn_EndpointStates node) \<and> wf_map (rn_EndpointDescriptions node) \<and>
     fst ` set (rn_EndpointDescriptions node) \<subseteq> fst ` set (rn_EndpointStates node)"

definition wf_rns :: "RemoteNodeStore \<Rightarrow> bool" where
  "wf_rns s \<longleftrightarrow> wf_map s \<and> (\<forall>(nodeID, node) \<in> set s. rn_NodeID node = nodeID \<and> wf_node node)"

lemma wf_rns_map [dest]: "wf_rns s \<Longrightarrow> wf_map s"
  by (simp add: wf_rns_def)

lemma wf_rns_get: "wf_rns s \<Longrightarrow> map_of s nodeID = Some node \<Longrightarrow> rn_NodeID node = nodeID \<and> wf_node node"
  by (auto simp: wf_rns_def dest: map_of_SomeD)

lemma wf_rns_New [simp]: "wf_rns NewRemoteNodeStore"
  by (simp add: wf_rns_def NewRemoteNodeStore_def)

lemma wf_rns_update:
  "wf_rns s \<Longrightarrow> rn_NodeID node = nodeID \<Longrightarrow> wf_node node \<Longrightarrow> wf_rns (AList.update nodeID node s)"
  by (auto simp: wf_rns_def wf_map_update set_alist_update)

text \<open>Every update in place of the store follows this scheme: the node found is rewritten under its own key.\<close>

lemma wf_rns_modify:
  assumes "wf_rns s" and "\<And>node. wf_node node \<Longrightarrow> rn_NodeID (f node) = rn_NodeID node \<and> wf_node (f node)"
  shows "wf_rns (case map_of s nodeID of None \<Rightarrow> s | Some node \<Rightarrow> AList.update nodeID (f node) s)"
proof (cases "map_of s nodeID")
  case (Some node)
  with wf_rns_get [OF assms(1) Some] assms show ?thesis by (simp add: wf_rns_update)
qed (simp add: assms(1))

lemma wf_rns_Set [inv_intros]:
  "wf_rns s \<Longrightarrow> rn_NodeID node = nodeID \<Longrightarrow> wf_node node \<Longrightarrow> wf_rns (RemoteNodeStore_Set nodeID node s)"
  by (simp add: RemoteNodeStore_Set_def wf_rns_update)

lemma wf_rns_Delete [inv_intros]: "wf_rns s \<Longrightarrow> wf_rns (RemoteNodeStore_Delete nodeID s)"
  by (auto simp: RemoteNodeStore_Delete_def wf_rns_def wf_map_delete set_alist_delete)

lemma wf_rns_Upsert [inv_intros]: "wf_rns s \<Longrightarrow> wf_rns (RemoteNodeStore_Upsert now nodeID address port s)"
  by (auto simp: RemoteNodeStore_Upsert_def wf_node_def split: option.split
      dest: wf_rns_get intro!: wf_rns_update)

lemma wf_rns_TouchLastSeen [inv_intros]: "wf_rns s \<Longrightarrow> wf_rns (RemoteNodeStore_TouchLastSeen now nodeID s)"
  unfolding RemoteNodeStore_TouchLastSeen_def by (rule wf_rns_modify) (auto simp: wf_node_def)

lemma wf_rns_UpdateState [inv_intros]: "wf_rns s \<Longrightarrow> wf_rns (RemoteNodeStore_UpdateState now nodeID states s)"
  unfolding RemoteNodeStore_UpdateState_def
  by (rule wf_rns_modify) (auto simp: wf_node_def fold_update_wf fold_update_keys)

lemma wf_node_describe_path: "wf_node node \<Longrightarrow> wf_node (describe_path now path desc node)"
  by (auto simp: wf_node_def describe_path_def wf_map_update keys_alist_update)

lemma wf_node_fold_describe:
  "wf_node node \<Longrightarrow> wf_node (fold (\<lambda>(path, desc). describe_path now path desc) ds node)"
  by (induction ds arbitrary: node) (auto simp: wf_node_describe_path)

lemma fold_describe_frame [simp]:
  "rn_NodeID (fold (\<lambda>(path, desc). describe_path now path desc) ds node) = rn_NodeID node"
  "rn_Address (fold (\<lambda>(path, desc). describe_path now path desc) ds node) = rn_Address node"
  "rn_ServicePort (fold (\<lambda>(path, desc). describe_path now path desc) ds node) = rn_ServicePort node"
  "rn_LastSeen (fold (\<lambda>(path, desc). describe_path now path desc) ds node) = rn_LastSeen node"
  by (induction ds arbitrary: node) (auto simp: describe_path_def)

lemma wf_rns_UpdateMetadata [inv_intros]:
  "wf_rns s \<Longrightarrow> wf_rns (RemoteNodeStore_UpdateMetadata now nodeID ds s)"
  unfolding RemoteNodeStore_UpdateMetadata_def by (rule wf_rns_modify) (auto simp: wf_node_fold_describe)

lemma wf_rns_MarkUnhealthy [inv_intros]: "wf_rns s \<Longrightarrow> wf_rns (RemoteNodeStore_MarkUnhealthy nodeID s)"
  unfolding RemoteNodeStore_MarkUnhealthy_def
  by (rule wf_rns_modify) (auto simp: wf_node_def fst_set_map_values)

lemma wf_rns_RemoveEndpoint [inv_intros]: "wf_rns s \<Longrightarrow> wf_rns (RemoteNodeStore_RemoveEndpoint nodeID path s)"
  unfolding RemoteNodeStore_RemoveEndpoint_def
  by (rule wf_rns_modify) (auto simp: wf_node_def keys_alist_delete wf_map_delete)

section \<open>Endpoint tables after a metadata update\<close>

lemma describe_path_tables:
  "rn_EndpointStates (describe_path now p d node) =
     AList.update p (described_state now d (map_of (rn_EndpointStates node) p)) (rn_EndpointStates node)"
  "rn_EndpointDescriptions (describe_path now p d node) = AList.update p d (rn_EndpointDescriptions node)"
  by (simp_all add: describe_path_def)

lemma fold_describe_states:
  "wf_map ds \<Longrightarrow>
   map_of (rn_EndpointStates (fold (\<lambda>(path, desc). describe_path now path desc) ds node)) q =
     (case map_of ds q of
        None \<Rightarrow> map_of (rn_EndpointStates node) q
      | Some desc \<Rightarrow> Some (described_state now desc (map_of (rn_EndpointStates node) q)))"
proof (induction ds arbitrary: node q)
  case (Cons x ds)
  obtain a b where x: "x = (a, b)" by (cases x)
  with Cons.prems have "map_of ds a = None" and "wf_map ds" by (simp_all add: map_of_eq_None_iff)
  with x show ?case
    by (cases "q = a") (simp_all add: Cons.IH describe_path_tables map_of_update split: option.split)
qed simp

lemma fold_describe_descriptions:
  "wf_map ds \<Longrightarrow>
   map_of (rn_EndpointDescriptions (fold (\<lambda>(path, desc). describe_path now path desc) ds node)) q =
     (case map_of ds q of
        None \<Rightarrow> map_of (rn_EndpointDescriptions node) q
      | Some desc \<Rightarrow> Some desc)"
proof (induction ds arbitrary: node q)
  case (Cons x ds)
  obtain a b where x: "x = (a, b)" by (cases x)
  with Cons.prems have "map_of ds a = None" and "wf_map ds" by (simp_all add: map_of_eq_None_iff)
  with x show ?case
    by (cases "q = a") (simp_all add: Cons.IH describe_path_tables map_of_update split: option.split)
qed simp

section \<open>Cleaning\<close>

text \<open>What is left of a node after the endpoint sweep.\<close>

lemma fold_delete_both:
  "rn_EndpointStates (fold (\<lambda>path node. node\<lparr>rn_EndpointStates := AList.delete path (rn_EndpointStates node),
        rn_EndpointDescriptions := AList.delete path (rn_EndpointDescriptions node)\<rparr>) ps node) =
     fold AList.delete ps (rn_EndpointStates node)"
  "rn_EndpointDescriptions (fold (\<lambda>path node. node\<lparr>rn_EndpointStates := AList.delete path (rn_EndpointStates node),
        rn_EndpointDescriptions := AList.delete path (rn_EndpointDescriptions node)\<rparr>) ps node) =
     fold AList.delete ps (rn_EndpointDescriptions node)"
  "rn_NodeID (fold (\<lambda>path node. node\<lparr>rn_EndpointStates := AList.delete path (rn_EndpointStates node),
        rn_EndpointDescriptions := AList.delete path (rn_EndpointDescriptions node)\<rparr>) ps node) = rn_NodeID node"
  by (induction ps arbitrary: node) simp_all

lemma keys_fold_delete: "fst ` set (fold AList.delete ps m) = fst ` set m - set ps"
  by (induction ps arbitrary: m) (auto simp: keys_alist_delete)

lemma wf_node_clean_endpoints: "wf_node node \<Longrightarrow> wf_node (clean_endpoints now timeout node)"
  by (auto simp: wf_node_def clean_endpoints_def fold_delete_both keys_fold_delete gm.inv_fold_del)

lemma clean_endpoints_NodeID [simp]: "rn_NodeID (clean_endpoints now timeout node) = rn_NodeID node"
  by (simp add: clean_endpoints_def fold_delete_both)

lemma clean_endpoints_states:
  assumes "wf_node node"
  shows "map_of (rn_EndpointStates (clean_endpoints now timeout node)) path =
    (case map_of (rn_EndpointStates node) path of
       None \<Rightarrow> None
     | Some state \<Rightarrow> if endpoint_stale now timeout state then None else Some state)"
proof -
  let ?m = "rn_EndpointStates node"
  let ?stale = "map fst (filter (\<lambda>(path, state). endpoint_stale now timeout state) ?m)"
  have wf: "wf_map ?m" using assms by (simp add: wf_node_def)
  have "map_of (rn_EndpointStates (clean_endpoints now timeout node)) path =
      (if path \<in> set ?stale then None else map_of ?m path)"
    using wf by (simp only: clean_endpoints_def fold_delete_both gm.look_fold_del)
  moreover have "path \<in> set ?stale \<longleftrightarrow> (\<exists>state. map_of ?m path = Some state \<and> endpoint_stale now timeout state)"
    using wf by (force simp: map_of_eq_Some_iff)
  ultimately show ?thesis by (auto split: option.split)
qed

lemma wf_rns_CleanStale [inv_intros]: "wf_rns s \<Longrightarrow> wf_rns (RemoteNodeStore_CleanStale now nt et s)"
  unfolding wf_rns_def RemoteNodeStore_CleanStale_def
  by (auto simp: wf_map_filter) (auto simp: map_values_def wf_node_clean_endpoints)

lemma CleanStale_lookup:
  assumes "wf_rns s"
  shows "map_of (RemoteNodeStore_CleanStale now nt et s) nodeID =
    (case map_of s nodeID of
       None \<Rightarrow> None
     | Some node \<Rightarrow>
         if time_sub now (rn_LastSeen node) > nt then None else Some (clean_endpoints now et node))"
  using map_of_filter_values [OF wf_rns_map [OF assms], of "\<lambda>nodeID node. \<not> time_sub now (rn_LastSeen node) > nt" nodeID]
  by (simp add: RemoteNodeStore_CleanStale_def split: option.split)

lemma RemoteNodeStore_GetAll_lookup:
  "wf_rns s \<Longrightarrow> map_of (RemoteNodeStore_GetAll s) nodeID = map_of s nodeID"
  using fold_update_lookup [of s "\<lambda>x. x" "[]" nodeID]
  by (auto simp: RemoteNodeStore_GetAll_def split: option.splits)

lemma RemoteNodeStore_List_iff:
  "wf_rns s \<Longrightarrow> node \<in> set (RemoteNodeStore_List s) \<longleftrightarrow> map_of s (rn_NodeID node) = Some node"
  using wf_rns_get by (auto simp: RemoteNodeStore_List_def values_iff [OF wf_rns_map])

interpretation rns: kv_store RemoteNodeStore_Get RemoteNodeStore_Set RemoteNodeStore_Delete
  "wf_map :: RemoteNodeStore \<Rightarrow> bool"
  by unfold_locales
     (auto simp: RemoteNodeStore_Get_def RemoteNodeStore_Set_def RemoteNodeStore_Delete_def go_map_simps)

section \<open>Stores the program can reach\<close>

text \<open>
  Any sequence of the store's operations from the empty store. \<open>Set\<close> is called with a node filed
  under its own identifier and fresh inner maps, as its only call sites do.
\<close>

inductive rns_step :: "RemoteNodeStore \<Rightarrow> RemoteNodeStore \<Rightarrow> bool" where
  step_Set: "rn_NodeID node = nodeID \<Longrightarrow> wf_node node \<Longrightarrow> rns_step s (RemoteNodeStore_Set nodeID node s)"
| step_Upsert: "rns_step s (RemoteNodeStore_Upsert now nodeID address port s)"
| step_Delete: "rns_step s (RemoteNodeStore_Delete nodeID s)"
| step_Touch: "rns_step s (RemoteNodeStore_TouchLastSeen now nodeID s)"
| step_UpdateState: "rns_step s (RemoteNodeStore_UpdateState now nodeID states s)"
| step_UpdateMetadata: "rns_step s (RemoteNodeStore_UpdateMetadata now nodeID descriptions s)"
| step_MarkUnhealthy: "rns_step s (RemoteNodeStore_MarkUnhealthy nodeID s)"
| step_CleanStale: "rns_step s (RemoteNodeStore_CleanStale now nodeTimeout endpointTimeout s)"
| step_RemoveEndpoint: "rns_step s (RemoteNodeStore_RemoveEndpoint nodeID path s)"

inductive_cases rns_stepE: "rns_step s t"

interpretation rns_sys: invariant_system "\<lambda>s. s = NewRemoteNodeStore" rns_step wf_rns
  by unfold_locales (auto elim!: rns_stepE intro: inv_intros)

abbreviation rns_reachable :: "RemoteNodeStore \<Rightarrow> bool" where
  "rns_reachable \<equiv> reach (\<lambda>s. s = NewRemoteNodeStore) rns_step"

lemma rns_reachable_New: "rns_reachable NewRemoteNodeStore"
  by (rule reach_init) simp

lemma rns_reachable_step: "rns_reachable s \<Longrightarrow> rns_step s t \<Longrightarrow> rns_reachable t"
  by (rule reach_step)

lemma wf_node_keys:
  "wf_node node \<Longrightarrow> map_of (rn_EndpointDescriptions node) path = Some d \<Longrightarrow>
   \<exists>st. map_of (rn_EndpointStates node) path = Some st"
proof -
  assume "wf_node node" and "map_of (rn_EndpointDescriptions node) path = Some d"
  then have "path \<in> fst ` set (rn_EndpointStates node)"
    by (force simp: wf_node_def dest!: map_of_SomeD)
  then show ?thesis using map_of_eq_None_iff [of "rn_EndpointStates node" path] by auto
qed

text \<open>
  In every remote node table the program can reach, every node is filed under its own identifier,
  and every path it has a description for also has an endpoint state: the router and the status
  handlers never see a description without a state.
\<close>

theorem remote_store_invariant:
  assumes "rns_reachable s" and "RemoteNodeStore_Get s nodeID = Some node"
  shows "rn_NodeID node = nodeID \<and>
    (\<forall>path d. map_of (rn_EndpointDescriptions node) path = Some d \<longrightarrow>
       (\<exists>st. map_of (rn_EndpointStates node) path = Some st))"
  using wf_rns_get [OF rns_sys.reach_inv [OF assms(1)]] assms(2) wf_node_keys
  by (auto simp: RemoteNodeStore_Get_def)

theorem remote_store_invariant_witness:
  "\<exists>node. RemoteNodeStore_Get (RemoteNodeStore_Upsert 7 ''n1'' ''10.0.0.1'' 15050 NewRemoteNodeStore) ''n1'' = Some node
    \<and> rn_NodeID node = ''n1''"
proof -
  let ?s = "RemoteNodeStore_Upsert 7 ''n1'' ''10.0.0.1'' 15050 NewRemoteNodeStore"
  have "rns_reachable ?s" by (rule rns_reachable_step [OF rns_reachable_New step_Upsert])
  moreover obtain node where "RemoteNodeStore_Get ?s ''n1'' = Some node"
    by (simp add: RemoteNodeStore_Get_def RemoteNodeStore_Upsert_def NewRemoteNodeStore_def)
  ultimately show ?thesis using remote_store_invariant [of ?s "''n1''" node] by blast
qed


definition sample_state :: EndpointState where
  "sample_state = \<lparr>es_Active = 1, es_QueueLen = 0, es_Healthy = True, es_MaxConcurrent = 10, es_Plugin = False,
     es_ResponseTime = 0, es_LastSeen = seconds 90\<rparr>"

definition sample_remote :: RemoteNodeStore where
  "sample_remote = RemoteNodeStore_UpdateState (seconds 90) ''n1'' [(''/a'', sample_state)]
     (RemoteNodeStore_Upsert 7 ''n1'' ''10.0.0.1'' 15050 NewRemoteNodeStore)"

lemma sample_remote_reachable: "rns_reachable sample_remote"
  unfolding sample_remote_def
  by (rule rns_reachable_step [OF rns_reachable_step [OF rns_reachable_New step_Upsert] step_UpdateState])


end
