(* ===== verification/Local_Registry.thy ===== *)
theory Local_Registry
  imports Endpoint_Store Node_Store
begin

text \<open>
  \<open>internal/registry/local/local.go\<close>: registration, removal, heartbeats, metrics and expiry of the
  endpoints served by this node. The identifiers drawn by \<open>generateServiceID\<close> (16 random bytes)
  during one registration are a supply \<open>ids\<close>: \<open>ids 0\<close> is the service identifier, \<open>ids (i + 1)\<close>
  the identifier of the \<open>i\<close>-th endpoint. Loops over \<open>List()\<close> run over the snapshot it returns.
\<close>

section \<open>Data\<close>

record LocalRegistry =
  lr_endpoints :: LocalEndpointStore
  lr_serviceMap :: "string gomap"

text \<open>How \<open>RegisterEndpoints\<close> can fail: the error it returns, or the run-time panic of \<open>paths[0]\<close>.\<close>

datatype RegisterError = PluginConflict string | IndexOutOfRange

section \<open>Operations\<close>

definition NewLocalRegistry :: LocalRegistry where
  "NewLocalRegistry = \<lparr>lr_endpoints = NewLocalEndpointStore, lr_serviceMap = []\<rparr>"

definition plugin_clash :: "LocalEndpointStore \<Rightarrow> LocalEndpoint \<Rightarrow> bool" where
  "plugin_clash s ep \<longleftrightarrow>
     (\<exists>existing \<in> set (LocalEndpointStore_List s). ep_NodePath existing = ep_NodePath ep \<and> ep_Plugin ep \<and> ep_Plugin existing)"

definition stamp_ids :: "(nat \<Rightarrow> string) \<Rightarrow> LocalEndpoint list \<Rightarrow> LocalEndpoint list" where
  "stamp_ids ids endpoints =
     map (\<lambda>(i, ep). ep\<lparr>ep_ServiceID := ids 0, ep_EpID := ids (Suc i)\<rparr>) (enumerate 0 endpoints)"

definition LocalRegistry_RegisterEndpoints ::
    "(nat \<Rightarrow> string) \<Rightarrow> LocalEndpoint list \<Rightarrow> LocalRegistry \<Rightarrow> (RegisterError + string) \<times> LocalRegistry" where
  "LocalRegistry_RegisterEndpoints ids endpoints r =
     (case find (plugin_clash (lr_endpoints r)) endpoints of
        Some ep \<Rightarrow> (Inl (PluginConflict (ep_NodePath ep)), r)
      | None \<Rightarrow>
          (let serviceID = ids 0;
               stamped = stamp_ids ids endpoints;
               r' = r\<lparr>lr_endpoints := fold (\<lambda>ep. LocalEndpointStore_Set (ep_NodePath ep) ep) stamped (lr_endpoints r)\<rparr>;
               paths = map ep_NodePath stamped
           in case paths of
                [] \<Rightarrow> (Inl IndexOutOfRange, r')
              | first # _ \<Rightarrow> (Inr serviceID, r'\<lparr>lr_serviceMap := AList.update serviceID first (lr_serviceMap r')\<rparr>)))"

definition LocalRegistry_RemoveEndpoint :: "string \<Rightarrow> LocalRegistry \<Rightarrow> LocalRegistry" where
  "LocalRegistry_RemoveEndpoint path r = r\<lparr>lr_endpoints := LocalEndpointStore_Delete path (lr_endpoints r)\<rparr>"

definition LocalRegistry_RemoveByServiceID :: "string \<Rightarrow> LocalRegistry \<Rightarrow> int \<times> LocalRegistry" where
  "LocalRegistry_RemoveByServiceID serviceID r =
     (let (removedCount, s) =
        foldl (\<lambda>(n, s) ep.
            if ep_ServiceID ep = serviceID
            then (n + 1, LocalEndpointStore_DeleteByServiceID (ep_NodePath ep) serviceID s) else (n, s))
          (0, lr_endpoints r) (LocalEndpointStore_List (lr_endpoints r))
      in (removedCount, r\<lparr>lr_endpoints := s\<rparr>))"

definition LocalRegistry_RemoveByServiceIDAndPath :: "string \<Rightarrow> string \<Rightarrow> LocalRegistry \<Rightarrow> int \<times> LocalRegistry" where
  "LocalRegistry_RemoveByServiceIDAndPath serviceID nodePath r =
     (case LocalEndpointStore_GetByServiceID (lr_endpoints r) nodePath serviceID of
        None \<Rightarrow> (0, r)
      | Some ep \<Rightarrow>
          if ep_ServiceID ep \<noteq> serviceID then (0, r)
          else (1, r\<lparr>lr_endpoints := LocalEndpointStore_DeleteByServiceID nodePath serviceID (lr_endpoints r)\<rparr>))"

definition LocalRegistry_RemoveAllEndpoints :: "LocalRegistry \<Rightarrow> LocalRegistry" where
  "LocalRegistry_RemoveAllEndpoints r =
     r\<lparr>lr_endpoints :=
         fold (\<lambda>ep. LocalEndpointStore_DeleteByEpID (ep_NodePath ep) (ep_EpID ep))
           (LocalEndpointStore_List (lr_endpoints r)) (lr_endpoints r)\<rparr>"

definition endpoint_metadata :: "LocalEndpoint \<Rightarrow> EndpointMetadata" where
  "endpoint_metadata ep =
     \<lparr>md_ServiceID = ep_ServiceID ep, md_ServicePath = ep_ServicePath ep, md_NodePath = ep_NodePath ep,
      md_Description = '''', md_Plugin = ep_Plugin ep, md_MaxConcurrent = ep_MaxConcurrent ep\<rparr>"

definition LocalRegistry_GetAllEndpointMetadata :: "LocalRegistry \<Rightarrow> EndpointMetadata gomap" where
  "LocalRegistry_GetAllEndpointMetadata r =
     fold (\<lambda>(path, ep). AList.update path (endpoint_metadata ep)) (LocalEndpointStore_GetAll (lr_endpoints r)) []"

definition endpoint_description :: "LocalEndpoint \<Rightarrow> EndpointMetadata" where
  "endpoint_description ep =
     \<lparr>md_ServiceID = ep_ServiceID ep, md_ServicePath = ep_ServicePath ep, md_NodePath = ep_NodePath ep,
      md_Description = ep_Description ep, md_Plugin = ep_Plugin ep, md_MaxConcurrent = 0\<rparr>"

definition LocalRegistry_GetEndpointDescriptions :: "LocalRegistry \<Rightarrow> EndpointMetadata gomap" where
  "LocalRegistry_GetEndpointDescriptions r =
     fold (\<lambda>(path, ep) m. if \<not> ep_LocalOnly ep then AList.update path (endpoint_description ep) m else m)
       (LocalEndpointStore_GetAll (lr_endpoints r)) []"

definition heartbeat_step :: "time \<Rightarrow> string \<Rightarrow> bool \<Rightarrow> LocalEndpoint \<Rightarrow> LocalEndpointStore \<Rightarrow> LocalEndpointStore" where
  "heartbeat_step now serviceID healthy ep s =
     (if ep_ServiceID ep = serviceID
      then LocalEndpointStore_Set (ep_NodePath ep) (ep\<lparr>ep_Healthy := healthy, ep_LastHeartbeat := now\<rparr>) s
      else s)"

definition LocalRegistry_UpdateHeartbeat ::
    "time \<Rightarrow> string \<Rightarrow> bool \<Rightarrow> LocalRegistry \<Rightarrow> (string + unit) \<times> LocalRegistry" where
  "LocalRegistry_UpdateHeartbeat now serviceID healthy r =
     (if serviceID = '''' then (Inl ''service_id is required'', r)
      else (Inr (), r\<lparr>lr_endpoints :=
              fold (heartbeat_step now serviceID healthy) (LocalEndpointStore_List (lr_endpoints r)) (lr_endpoints r)\<rparr>))"

definition metrics_step :: "string \<Rightarrow> i32 \<Rightarrow> i32 \<Rightarrow> LocalEndpoint \<Rightarrow> LocalEndpointStore \<Rightarrow> LocalEndpointStore" where
  "metrics_step nodePath active queueLen ep s =
     (if ep_NodePath ep = nodePath
      then LocalEndpointStore_Set nodePath (ep\<lparr>ep_Active := active, ep_QueueLen := queueLen\<rparr>) s else s)"

definition LocalRegistry_UpdateEndpointMetrics :: "string \<Rightarrow> i32 \<Rightarrow> i32 \<Rightarrow> LocalRegistry \<Rightarrow> LocalRegistry" where
  "LocalRegistry_UpdateEndpointMetrics nodePath active queueLen r =
     r\<lparr>lr_endpoints :=
         fold (metrics_step nodePath active queueLen) (LocalEndpointStore_List (lr_endpoints r)) (lr_endpoints r)\<rparr>"

definition LocalRegistry_UpdateEndpointMetricsByEpID ::
    "string \<Rightarrow> string \<Rightarrow> i32 \<Rightarrow> i32 \<Rightarrow> LocalRegistry \<Rightarrow> LocalRegistry" where
  "LocalRegistry_UpdateEndpointMetricsByEpID nodePath epID active queueLen r =
     (case LocalEndpointStore_GetByEpID (lr_endpoints r) nodePath epID of
        None \<Rightarrow> r
      | Some ep \<Rightarrow>
          r\<lparr>lr_endpoints :=
              LocalEndpointStore_Set nodePath (ep\<lparr>ep_Active := active, ep_QueueLen := queueLen\<rparr>) (lr_endpoints r)\<rparr>)"

text \<open>
  One iteration of the expiry loop. Marking writes through the endpoint pointer, which is the entry
  under the endpoint's own keys.
\<close>

definition stale_step :: "time \<Rightarrow> duration \<Rightarrow> LocalEndpoint \<Rightarrow> LocalEndpointStore \<Rightarrow> LocalEndpointStore" where
  "stale_step now timeout ep s =
     (if time_sub now (ep_LastHeartbeat ep) > timeout then
        if ep_Healthy ep then LocalEndpointStore_Set (ep_NodePath ep) (ep\<lparr>ep_Healthy := False\<rparr>) s
        else if time_sub now (ep_LastHeartbeat ep) > dur_mul timeout 2
          then LocalEndpointStore_DeleteByEpID (ep_NodePath ep) (ep_EpID ep) s
        else s
      else s)"

definition stale_deleted :: "time \<Rightarrow> duration \<Rightarrow> LocalEndpoint \<Rightarrow> LocalEndpoint list" where
  "stale_deleted now timeout ep =
     (if time_sub now (ep_LastHeartbeat ep) > timeout \<and> \<not> ep_Healthy ep \<and>
         time_sub now (ep_LastHeartbeat ep) > dur_mul timeout 2 then [ep] else [])"

definition LocalRegistry_CheckStaleEndpoints ::
    "time \<Rightarrow> duration \<Rightarrow> LocalRegistry \<Rightarrow> LocalEndpoint list \<times> LocalRegistry" where
  "LocalRegistry_CheckStaleEndpoints now timeout r =
     (let (s, deletedEps) =
        foldl (\<lambda>(s, deleted) ep. (stale_step now timeout ep s, deleted @ stale_deleted now timeout ep))
          (lr_endpoints r, []) (LocalEndpointStore_List (lr_endpoints r))
      in (deletedEps, r\<lparr>lr_endpoints := s\<rparr>))"

section \<open>Sweeps over the endpoint table\<close>

abbreviation ep_key :: "LocalEndpoint \<Rightarrow> string \<times> string" where
  "ep_key ep \<equiv> (ep_NodePath ep, ep_EpID ep)"

lemma distinct_List_keys: "wf_les s \<Longrightarrow> distinct (map ep_key (LocalEndpointStore_List s))"
  unfolding LocalEndpointStore_List_def
  by (rule distinct_nested_keys) (auto simp: wf_les_def)

lemma les_abs_key: "wf_les s \<Longrightarrow> les_abs s k = Some ep \<Longrightarrow> k = ep_key ep"
  using les.look_key by (cases k) (auto simp: les_abs_def wf_les_iff)

lemma les_abs_List: "wf_les s \<Longrightarrow> ep \<in> set (LocalEndpointStore_List s) \<longleftrightarrow> les_abs s (ep_key ep) = Some ep"
  by (simp add: List_iff les_abs_def)

text \<open>A loop over the whole listing whose body rewrites the visited entry by \<open>h\<close> rewrites the table by \<open>h\<close>.\<close>

lemma les_sweep:
  assumes "wf_les s"
    and "\<And>s x. wf_les s \<Longrightarrow> les_abs s (ep_key x) = Some x \<Longrightarrow>
      wf_les (step x s) \<and> (\<forall>k. les_abs (step x s) k = (if k = ep_key x then h x else les_abs s k))"
  shows "wf_les (fold step (LocalEndpointStore_List s) s) \<and>
    (\<forall>k. les_abs (fold step (LocalEndpointStore_List s) s) k = Option.bind (les_abs s k) h)"
proof -
  have "wf_les (fold step (LocalEndpointStore_List s) s) \<and>
    (\<forall>k. les_abs (fold step (LocalEndpointStore_List s) s) k =
      (if k \<in> ep_key ` set (LocalEndpointStore_List s) then Option.bind (les_abs s k) h else les_abs s k))"
    by (rule fold_pointwise [where I = wf_les]) (use assms in \<open>auto simp: distinct_List_keys les_abs_List\<close>)
  moreover have "les_abs s k = None" if "k \<notin> ep_key ` set (LocalEndpointStore_List s)" for k
  proof (rule ccontr)
    assume "les_abs s k \<noteq> None"
    then obtain ep where ep: "les_abs s k = Some ep" by blast
    then have "k = ep_key ep" using les_abs_key [OF assms(1)] by blast
    then show False using ep that les_abs_List [OF assms(1), of ep] by blast
  qed
  ultimately show ?thesis by simp
qed

lemma les_abs_Set:
  "wf_les s \<Longrightarrow> les_abs (LocalEndpointStore_Set p ep s) k = (if k = (p, ep_EpID ep) then Some ep else les_abs s k)"
  by (cases k) (auto simp: les_abs_def les.look_ins wf_les_keyed)

lemma les_abs_DeleteByEpID:
  "wf_les s \<Longrightarrow> les_abs (LocalEndpointStore_DeleteByEpID p e s) k = (if k = (p, e) then None else les_abs s k)"
  by (cases k) (auto simp: les_abs_def les.look_del wf_les_keyed)

lemma les_abs_DeleteByServiceID:
  "wf_les s \<Longrightarrow> les_abs (LocalEndpointStore_DeleteByServiceID p sid s) k =
     (case les_abs s k of None \<Rightarrow> None
      | Some ep \<Rightarrow> if fst k = p \<and> ep_ServiceID ep = sid then None else Some ep)"
  by (cases k) (simp add: les_abs_def DeleteByServiceID_lookup split: option.split)

section \<open>Registration\<close>

lemma find_clash_None:
  "find (plugin_clash s) eps = None \<longleftrightarrow> (\<forall>ep \<in> set eps. \<not> plugin_clash s ep)"
  by (auto simp: find_None_iff)

lemma length_stamp_ids [simp]: "length (stamp_ids ids eps) = length eps"
  by (simp add: stamp_ids_def)

lemma stamp_ids_nth: "i < length eps \<Longrightarrow>
   stamp_ids ids eps ! i = (eps ! i)\<lparr>ep_ServiceID := ids 0, ep_EpID := ids (Suc i)\<rparr>"
  by (simp add: stamp_ids_def nth_enumerate_eq)

lemma stamp_ids_in: "ep \<in> set (stamp_ids ids eps) \<longleftrightarrow>
   (\<exists>i < length eps. ep = (eps ! i)\<lparr>ep_ServiceID := ids 0, ep_EpID := ids (Suc i)\<rparr>)"
  by (auto simp: in_set_conv_nth stamp_ids_nth)

lemma stamp_ids_paths: "map ep_NodePath (stamp_ids ids eps) = map ep_NodePath eps"
  by (rule nth_equalityI) (simp_all add: stamp_ids_nth)

lemma stamp_ids_distinct:
  assumes "inj_on ids {1..length eps}"
  shows "distinct (map ep_EpID (stamp_ids ids eps))"
proof (rule distinct_conv_nth [THEN iffD2], intro allI impI)
  fix i j
  assume "i < length (map ep_EpID (stamp_ids ids eps))" "j < length (map ep_EpID (stamp_ids ids eps))" "i \<noteq> j"
  then show "map ep_EpID (stamp_ids ids eps) ! i \<noteq> map ep_EpID (stamp_ids ids eps) ! j"
    using inj_onD [OF assms, of "Suc i" "Suc j"] by (auto simp: stamp_ids_nth)
qed

lemma fold_Set_wf:
  "wf_les s \<Longrightarrow> wf_les (fold (\<lambda>ep. LocalEndpointStore_Set (ep_NodePath ep) ep) eps s)"
  by (induction eps arbitrary: s) (auto intro: inv_intros)

lemma fold_Set_lookup:
  assumes "wf_les s" and "distinct (map ep_key eps)"
  shows "les_abs (fold (\<lambda>ep. LocalEndpointStore_Set (ep_NodePath ep) ep) eps s) k =
    (case find (\<lambda>ep. ep_key ep = k) eps of Some ep \<Rightarrow> Some ep | None \<Rightarrow> les_abs s k)"
  using assms
proof (induction eps arbitrary: s)
  case (Cons e eps)
  show ?case
  proof (cases "ep_key e = k")
    case True
    then have "find (\<lambda>ep. ep_key ep = k) eps = None" using Cons.prems(2) by (auto simp: find_None_iff image_iff)
    then show ?thesis using Cons True by (simp add: wf_les_Set les_abs_Set)
  next
    case False
    then show ?thesis using Cons by (auto simp: wf_les_Set les_abs_Set split: option.split)
  qed
qed simp

lemma find_stamped:
  assumes "inj_on ids {1..length eps}"
  shows "find (\<lambda>ep. ep_key ep = k) (stamp_ids ids eps) = Some ep \<longleftrightarrow> ep \<in> set (stamp_ids ids eps) \<and> ep_key ep = k"
proof
  assume "find (\<lambda>ep. ep_key ep = k) (stamp_ids ids eps) = Some ep"
  then show "ep \<in> set (stamp_ids ids eps) \<and> ep_key ep = k" by (auto simp: find_Some_iff)
next
  assume ep: "ep \<in> set (stamp_ids ids eps) \<and> ep_key ep = k"
  then obtain ep' where ep': "find (\<lambda>ep. ep_key ep = k) (stamp_ids ids eps) = Some ep'"
    by (cases "find (\<lambda>ep. ep_key ep = k) (stamp_ids ids eps)") (auto simp: find_None_iff)
  then have "ep' \<in> set (stamp_ids ids eps)" "ep_EpID ep' = ep_EpID ep" using ep by (auto simp: find_Some_iff)
  with ep have "ep' = ep" using stamp_ids_distinct [OF assms] by (auto simp: distinct_map dest: inj_onD)
  with ep' show "find (\<lambda>ep. ep_key ep = k) (stamp_ids ids eps) = Some ep" by simp
qed

lemma distinct_stamped_keys: "inj_on ids {1..length eps} \<Longrightarrow> distinct (map ep_key (stamp_ids ids eps))"
  using stamp_ids_distinct [of ids eps] by (auto simp: distinct_map inj_on_def)

text \<open>
  C30: \<open>RegisterEndpoints\<close> on every branch. A plugin endpoint on a path that already has one is refused
  with an error naming such a path, and nothing changes. An empty batch panics at \<open>paths[0]\<close>
  without having stored anything. Otherwise the call returns the new service identifier, every
  endpoint of the batch is stored under its path and its own new identifier, stamped with the
  service identifier, \<open>serviceMap\<close> points the service to the first path, and no other entry changes.
\<close>

theorem register_endpoints_functional:
  assumes "wf_les (lr_endpoints r)" and "inj_on ids {1..length eps}"
  shows "case LocalRegistry_RegisterEndpoints ids eps r of
      (Inl (PluginConflict p), r') \<Rightarrow>
        r' = r \<and> (\<exists>ep \<in> set eps. plugin_clash (lr_endpoints r) ep \<and> ep_NodePath ep = p)
    | (Inl IndexOutOfRange, r') \<Rightarrow> eps = [] \<and> r' = r
    | (Inr sid, r') \<Rightarrow>
        sid = ids 0 \<and> eps \<noteq> [] \<and> (\<forall>ep \<in> set eps. \<not> plugin_clash (lr_endpoints r) ep) \<and>
        wf_les (lr_endpoints r') \<and> map_of (lr_serviceMap r') sid = Some (ep_NodePath (hd eps)) \<and>
        (\<forall>i < length eps. les_abs (lr_endpoints r') (ep_NodePath (eps ! i), ids (Suc i)) =
           Some ((eps ! i)\<lparr>ep_ServiceID := sid, ep_EpID := ids (Suc i)\<rparr>)) \<and>
        (\<forall>k. (\<forall>i < length eps. k \<noteq> (ep_NodePath (eps ! i), ids (Suc i))) \<longrightarrow>
           les_abs (lr_endpoints r') k = les_abs (lr_endpoints r) k)"
proof (cases "find (plugin_clash (lr_endpoints r)) eps")
  case (Some ep)
  then have "ep \<in> set eps \<and> plugin_clash (lr_endpoints r) ep" by (auto simp: find_Some_iff)
  then show ?thesis using Some by (auto simp: LocalRegistry_RegisterEndpoints_def simp del: find_Some_iff2)
next
  case None
  show ?thesis
  proof (cases eps)
    case Nil
    then show ?thesis by (simp add: LocalRegistry_RegisterEndpoints_def stamp_ids_def)
  next
    case (Cons e es)
    let ?s = "lr_endpoints r"
    let ?s' = "fold (\<lambda>ep. LocalEndpointStore_Set (ep_NodePath ep) ep) (stamp_ids ids eps) ?s"
    have look: "les_abs ?s' k =
        (case find (\<lambda>ep. ep_key ep = k) (stamp_ids ids eps) of Some ep \<Rightarrow> Some ep | None \<Rightarrow> les_abs ?s k)" for k
      by (rule fold_Set_lookup [OF assms(1) distinct_stamped_keys [OF assms(2)]])
    have mine: "les_abs ?s' (ep_NodePath (eps ! i), ids (Suc i)) =
        Some ((eps ! i)\<lparr>ep_ServiceID := ids 0, ep_EpID := ids (Suc i)\<rparr>)" if "i < length eps" for i
    proof -
      let ?ep = "(eps ! i)\<lparr>ep_ServiceID := ids 0, ep_EpID := ids (Suc i)\<rparr>"
      have "find (\<lambda>ep. ep_key ep = ep_key ?ep) (stamp_ids ids eps) = Some ?ep"
        using find_stamped [OF assms(2), of "ep_key ?ep" ?ep] that by (auto simp: stamp_ids_in)
      then show ?thesis by (simp add: look)
    qed
    have other: "les_abs ?s' k = les_abs ?s k"
      if "\<forall>i < length eps. k \<noteq> (ep_NodePath (eps ! i), ids (Suc i))" for k
    proof -
      have "find (\<lambda>ep. ep_key ep = k) (stamp_ids ids eps) = None"
        using that by (auto simp: find_None_iff stamp_ids_in)
      then show ?thesis by (simp add: look)
    qed
    have "map ep_NodePath (stamp_ids ids eps) = ep_NodePath e # map ep_NodePath es"
      by (simp add: stamp_ids_paths Cons)
    then have "LocalRegistry_RegisterEndpoints ids eps r =
        (Inr (ids 0), r\<lparr>lr_endpoints := ?s', lr_serviceMap := AList.update (ids 0) (ep_NodePath e) (lr_serviceMap r)\<rparr>)"
      using None by (simp add: LocalRegistry_RegisterEndpoints_def Let_def)
    moreover have "\<forall>ep \<in> set eps. \<not> plugin_clash ?s ep" using None by (simp add: find_clash_None)
    moreover have "eps \<noteq> []" "hd eps = e" using Cons by simp_all
    ultimately show ?thesis using mine other fold_Set_wf [OF assms(1)] by (simp add: map_of_update)
  qed
qed

definition sample_ids :: "nat \<Rightarrow> string" where
  "sample_ids n = replicate n CHR ''x''"

theorem register_endpoints_functional_witness:
  "\<exists>r'. LocalRegistry_RegisterEndpoints sample_ids [sample_endpoint '''' '''' ''/a'', sample_endpoint '''' '''' ''/b'']
      NewLocalRegistry = (Inr '''', r') \<and>
    les_abs (lr_endpoints r') (''/b'', ''xx'') = Some (sample_endpoint '''' ''xx'' ''/b'')"
proof -
  let ?eps = "[sample_endpoint '''' '''' ''/a'', sample_endpoint '''' '''' ''/b'']"
  have "wf_les (lr_endpoints NewLocalRegistry)" by (simp add: NewLocalRegistry_def)
  moreover have "inj_on sample_ids {1..length ?eps}" by (auto simp: inj_on_def sample_ids_def)
  ultimately show ?thesis
    using register_endpoints_functional [of NewLocalRegistry sample_ids ?eps]
    by (auto simp: LocalRegistry_RegisterEndpoints_def NewLocalRegistry_def NewLocalEndpointStore_def
        plugin_clash_def LocalEndpointStore_List_def nested_list_def stamp_ids_def sample_ids_def
        sample_endpoint_def Let_def less_Suc_eq numeral_2_eq_2)
qed

section \<open>Removal\<close>

lemma remove_loop:
  "wf_les s \<Longrightarrow>
   \<exists>s'. foldl (\<lambda>(n, s) ep. if ep_ServiceID ep = sid
            then (n + 1, LocalEndpointStore_DeleteByServiceID (ep_NodePath ep) sid s) else (n, s)) (n, s) eps
       = (n + int (length (filter (\<lambda>ep. ep_ServiceID ep = sid) eps)), s') \<and> wf_les s' \<and>
     (\<forall>k. les_abs s' k = (case les_abs s k of None \<Rightarrow> None
        | Some e \<Rightarrow> if ep_ServiceID e = sid \<and> (\<exists>ep \<in> set eps. ep_ServiceID ep = sid \<and> ep_NodePath ep = fst k)
                    then None else Some e))"
proof (induction eps arbitrary: n s)
  case Nil
  then show ?case by (auto split: option.split)
next
  case (Cons e eps)
  show ?case
  proof (cases "ep_ServiceID e = sid")
    case True
    let ?s = "LocalEndpointStore_DeleteByServiceID (ep_NodePath e) sid s"
    have "wf_les ?s" using Cons.prems by (rule wf_les_DeleteByServiceID)
    from Cons.IH [OF this, of "n + 1"] obtain s' where s':
      "foldl (\<lambda>(n, s) ep. if ep_ServiceID ep = sid
            then (n + 1, LocalEndpointStore_DeleteByServiceID (ep_NodePath ep) sid s) else (n, s)) (n + 1, ?s) eps
       = (n + 1 + int (length (filter (\<lambda>ep. ep_ServiceID ep = sid) eps)), s')" "wf_les s'"
      "\<And>k. les_abs s' k = (case les_abs ?s k of None \<Rightarrow> None
        | Some e \<Rightarrow> if ep_ServiceID e = sid \<and> (\<exists>ep \<in> set eps. ep_ServiceID ep = sid \<and> ep_NodePath ep = fst k)
                    then None else Some e)"
      by blast
    then show ?thesis
      using True Cons.prems by (auto simp: les_abs_DeleteByServiceID intro!: exI [of _ s'] split: option.split)
  next
    case False
    then show ?thesis using Cons.IH [OF Cons.prems, of n] by (auto cong: option.case_cong)
  qed
qed

lemma RemoveByServiceID_effect:
  assumes "wf_les (lr_endpoints r)"
  shows "\<exists>r'. LocalRegistry_RemoveByServiceID sid r =
      (int (length (filter (\<lambda>ep. ep_ServiceID ep = sid) (LocalEndpointStore_List (lr_endpoints r)))), r') \<and>
    wf_les (lr_endpoints r') \<and> lr_serviceMap r' = lr_serviceMap r \<and>
    les_abs (lr_endpoints r') = drop_keys (\<lambda>_ ep. ep_ServiceID ep = sid) (les_abs (lr_endpoints r))"
proof -
  let ?s = "lr_endpoints r"
  obtain s' where s': "foldl (\<lambda>(n, s) ep. if ep_ServiceID ep = sid
            then (n + 1, LocalEndpointStore_DeleteByServiceID (ep_NodePath ep) sid s) else (n, s))
          (0, ?s) (LocalEndpointStore_List ?s)
       = (int (length (filter (\<lambda>ep. ep_ServiceID ep = sid) (LocalEndpointStore_List ?s))), s')" and wf: "wf_les s'"
    and look: "\<And>k. les_abs s' k = (case les_abs ?s k of None \<Rightarrow> None
        | Some e \<Rightarrow> if ep_ServiceID e = sid \<and>
              (\<exists>ep \<in> set (LocalEndpointStore_List ?s). ep_ServiceID ep = sid \<and> ep_NodePath ep = fst k)
            then None else Some e)"
    using remove_loop [OF assms, of sid 0 "LocalEndpointStore_List ?s"] by auto
  have "les_abs s' k = drop_keys (\<lambda>_ ep. ep_ServiceID ep = sid) (les_abs ?s) k" for k
  proof (cases "les_abs ?s k")
    case (Some e)
    then have "k = ep_key e" and "e \<in> set (LocalEndpointStore_List ?s)"
      using les_abs_key [OF assms] les_abs_List [OF assms] by auto
    then show ?thesis using Some by (auto simp: look drop_keys_def)
  qed (simp add: look drop_keys_def)
  then show ?thesis using s' wf by (auto simp: LocalRegistry_RemoveByServiceID_def)
qed

text \<open>
  \<open>RemoveByServiceID\<close> removes every endpoint of the service, on all its paths, and nothing else,
  and returns how many it removed. It leaves \<open>serviceMap\<close> as it was.
\<close>

theorem remove_by_service_exact:
  assumes "wf_les (lr_endpoints r)"
  shows "\<exists>r'. LocalRegistry_RemoveByServiceID sid r =
      (int (length (filter (\<lambda>ep. ep_ServiceID ep = sid) (LocalEndpointStore_List (lr_endpoints r)))), r') \<and>
    wf_les (lr_endpoints r') \<and> lr_serviceMap r' = lr_serviceMap r \<and>
    les_abs (lr_endpoints r') = drop_keys (\<lambda>_ ep. ep_ServiceID ep = sid) (les_abs (lr_endpoints r))"
  by (rule RemoveByServiceID_effect [OF assms])

definition sample_registry :: LocalRegistry where
  "sample_registry = \<lparr>lr_endpoints =
     LocalEndpointStore_Set ''/b'' (sample_endpoint ''t'' ''e2'' ''/b'')
       (LocalEndpointStore_Set ''/a'' (sample_endpoint ''s'' ''e1'' ''/a'') NewLocalEndpointStore), lr_serviceMap = []\<rparr>"

lemma wf_sample_registry: "wf_les (lr_endpoints sample_registry)"
  unfolding sample_registry_def by (simp add: wf_les_Set sample_endpoint_def)

lemma sample_registry_list:
  "LocalEndpointStore_List (lr_endpoints sample_registry) =
     [sample_endpoint ''s'' ''e1'' ''/a'', sample_endpoint ''t'' ''e2'' ''/b'']"
  by (simp add: sample_registry_def LocalEndpointStore_List_def LocalEndpointStore_Set_def nested_list_def
      nested_put_def NewLocalEndpointStore_def sample_endpoint_def)

theorem remove_by_service_exact_witness:
  "\<exists>r'. LocalRegistry_RemoveByServiceID ''s'' sample_registry = (1, r') \<and>
    les_abs (lr_endpoints r') = drop_keys (\<lambda>_ ep. ep_ServiceID ep = ''s'') (les_abs (lr_endpoints sample_registry))"
  using remove_by_service_exact [OF wf_sample_registry, of "''s''"]
  by (auto simp: sample_registry_list sample_endpoint_def)

lemma RemoveAll_empty:
  assumes "wf_les (lr_endpoints r)"
  shows "LocalEndpointStore_List (lr_endpoints (LocalRegistry_RemoveAllEndpoints r)) = []"
proof -
  let ?s = "lr_endpoints r"
  have "(p, k) \<in> ep_key ` set (LocalEndpointStore_List ?s)"
    if "LocalEndpointStore_GetByEpID ?s p k = Some v" for p k v
  proof -
    have v: "les_abs ?s (p, k) = Some v" using that by (simp add: les_abs_def)
    then have "(p, k) = ep_key v" by (rule les_abs_key [OF assms])
    moreover have "v \<in> set (LocalEndpointStore_List ?s)"
      using v les_abs_List [OF assms, of v] \<open>(p, k) = ep_key v\<close> by simp
    ultimately show ?thesis by blast
  qed
  then show ?thesis
    using les.fold_del_all_empty [OF wf_les_keyed [OF assms], of ep_NodePath ep_EpID "LocalEndpointStore_List ?s"]
    by (simp add: LocalRegistry_RemoveAllEndpoints_def)
qed

section \<open>Heartbeats and expiry\<close>

lemma heartbeat_step_sweep:
  assumes "wf_les s" and "les_abs s (ep_key x) = Some x"
  shows "wf_les (heartbeat_step now sid h x s) \<and>
    (\<forall>k. les_abs (heartbeat_step now sid h x s) k =
      (if k = ep_key x then Some (if ep_ServiceID x = sid then x\<lparr>ep_Healthy := h, ep_LastHeartbeat := now\<rparr> else x)
       else les_abs s k))"
  using assms by (auto simp: heartbeat_step_def les_abs_Set wf_les_Set)

text \<open>
  A heartbeat is refused exactly when the service identifier is empty, changing nothing. Otherwise it
  sets the health flag and the time stamp of every endpoint of that service, on all its paths, and
  leaves every other endpoint as it was.
\<close>

theorem heartbeat_exact:
  assumes "wf_les (lr_endpoints r)"
  shows "LocalRegistry_UpdateHeartbeat now '''' healthy r = (Inl ''service_id is required'', r) \<and>
    (sid \<noteq> '''' \<longrightarrow> (\<exists>r'. LocalRegistry_UpdateHeartbeat now sid healthy r = (Inr (), r') \<and>
      wf_les (lr_endpoints r') \<and> lr_serviceMap r' = lr_serviceMap r \<and>
      (\<forall>k. les_abs (lr_endpoints r') k =
         map_option (\<lambda>ep. if ep_ServiceID ep = sid then ep\<lparr>ep_Healthy := healthy, ep_LastHeartbeat := now\<rparr> else ep)
           (les_abs (lr_endpoints r) k))))"
proof -
  have "wf_les (fold (heartbeat_step now sid healthy) (LocalEndpointStore_List (lr_endpoints r)) (lr_endpoints r)) \<and>
    (\<forall>k. les_abs (fold (heartbeat_step now sid healthy) (LocalEndpointStore_List (lr_endpoints r)) (lr_endpoints r)) k =
      Option.bind (les_abs (lr_endpoints r) k)
        (\<lambda>x. Some (if ep_ServiceID x = sid then x\<lparr>ep_Healthy := healthy, ep_LastHeartbeat := now\<rparr> else x)))"
    by (rule les_sweep [OF assms heartbeat_step_sweep])
  then show ?thesis
    by (simp add: LocalRegistry_UpdateHeartbeat_def map_conv_bind_option comp_def)
qed

theorem heartbeat_exact_witness:
  "\<exists>r'. LocalRegistry_UpdateHeartbeat 99 ''s'' False sample_registry = (Inr (), r') \<and>
    les_abs (lr_endpoints r') (''/a'', ''e1'') =
      Some ((sample_endpoint ''s'' ''e1'' ''/a'')\<lparr>ep_Healthy := False, ep_LastHeartbeat := 99\<rparr>)"
proof -
  have "les_abs (lr_endpoints sample_registry) (''/a'', ''e1'') = Some (sample_endpoint ''s'' ''e1'' ''/a'')"
    using les_abs_List [OF wf_sample_registry, of "sample_endpoint ''s'' ''e1'' ''/a''"]
    by (simp add: sample_registry_list sample_endpoint_def)
  then show ?thesis
    using heartbeat_exact [OF wf_sample_registry, of 99 False "''s''"] by (auto simp: sample_endpoint_def)
qed

text \<open>What the expiry loop makes of one endpoint.\<close>

definition expire :: "time \<Rightarrow> duration \<Rightarrow> LocalEndpoint \<Rightarrow> LocalEndpoint option" where
  "expire now timeout ep =
     (if now - ep_LastHeartbeat ep \<le> timeout then Some ep
      else if ep_Healthy ep then Some (ep\<lparr>ep_Healthy := False\<rparr>)
      else if now - ep_LastHeartbeat ep > 2 * timeout then None
      else Some ep)"

lemma stale_step_sweep:
  assumes "0 \<le> timeout" and "2 * timeout < i64_max"
    and "wf_les s" and "les_abs s (ep_key x) = Some x"
  shows "wf_les (stale_step now timeout x s) \<and>
    (\<forall>k. les_abs (stale_step now timeout x s) k = (if k = ep_key x then expire now timeout x else les_abs s k))"
proof -
  have "dur_mul timeout 2 = 2 * timeout"
    using assms(1,2) by (simp add: dur_mul_def wrap64_id i64_min_def mult.commute)
  with assms show ?thesis
    by (auto simp: stale_step_def expire_def les_abs_Set les_abs_DeleteByEpID wf_les_Set wf_les_DeleteByEpID time_sub_gt)
qed

lemma CheckStale_split:
  "LocalRegistry_CheckStaleEndpoints now timeout r =
     (concat (map (stale_deleted now timeout) (LocalEndpointStore_List (lr_endpoints r))),
      r\<lparr>lr_endpoints := fold (stale_step now timeout) (LocalEndpointStore_List (lr_endpoints r)) (lr_endpoints r)\<rparr>)"
  unfolding LocalRegistry_CheckStaleEndpoints_def foldl_state_out by simp

lemma stale_deleted_expire:
  assumes "0 \<le> timeout" and "2 * timeout < i64_max"
  shows "ep' \<in> set (stale_deleted now timeout ep) \<longleftrightarrow> ep' = ep \<and> expire now timeout ep = None"
proof -
  have "dur_mul timeout 2 = 2 * timeout"
    using assms by (simp add: dur_mul_def wrap64_id i64_min_def mult.commute)
  with assms show ?thesis by (auto simp: stale_deleted_def expire_def time_sub_gt)
qed

text \<open>
  C15: One expiry sweep, for a non-negative timeout whose double fits in a duration. An endpoint heard from
  within the timeout is kept unchanged; a silent healthy one is only marked unhealthy; a silent
  unhealthy one is removed once it has been silent for more than twice the timeout. The returned
  list is exactly the removed endpoints, so one sweep never removes an endpoint it found healthy.
\<close>

theorem check_stale_exact:
  assumes "wf_les (lr_endpoints r)" and "0 \<le> timeout" and "2 * timeout < i64_max"
  shows "\<exists>deleted r'. LocalRegistry_CheckStaleEndpoints now timeout r = (deleted, r') \<and>
    wf_les (lr_endpoints r') \<and>
    (\<forall>k. les_abs (lr_endpoints r') k = Option.bind (les_abs (lr_endpoints r) k) (expire now timeout)) \<and>
    (\<forall>ep. ep \<in> set deleted \<longleftrightarrow> les_abs (lr_endpoints r) (ep_key ep) = Some ep \<and> expire now timeout ep = None) \<and>
    (\<forall>ep \<in> set deleted. \<not> ep_Healthy ep)"
proof -
  have "\<forall>ep. ep \<in> set (concat (map (stale_deleted now timeout) (LocalEndpointStore_List (lr_endpoints r)))) \<longleftrightarrow>
      les_abs (lr_endpoints r) (ep_key ep) = Some ep \<and> expire now timeout ep = None"
    using stale_deleted_expire [OF assms(2,3)] les_abs_List [OF assms(1)] by auto
  moreover have "\<not> ep_Healthy ep" if "expire now timeout ep = None" for ep
    using that by (simp add: expire_def split: if_splits)
  ultimately show ?thesis
    unfolding CheckStale_split
    using les_sweep [OF assms(1) stale_step_sweep [OF assms(2,3), where now = now]] by auto
qed

theorem check_stale_exact_witness:
  "\<exists>deleted r'. LocalRegistry_CheckStaleEndpoints (seconds 100) (seconds 30) sample_registry = (deleted, r') \<and>
    deleted = [] \<and> les_abs (lr_endpoints r') (''/a'', ''e1'') =
      Some ((sample_endpoint ''s'' ''e1'' ''/a'')\<lparr>ep_Healthy := False\<rparr>)"
proof -
  have "les_abs (lr_endpoints sample_registry) (''/a'', ''e1'') = Some (sample_endpoint ''s'' ''e1'' ''/a'')"
    using les_abs_List [OF wf_sample_registry, of "sample_endpoint ''s'' ''e1'' ''/a''"]
    by (simp add: sample_registry_list sample_endpoint_def)
  moreover have "fst (LocalRegistry_CheckStaleEndpoints (seconds 100) (seconds 30) sample_registry) = []"
    by (simp add: CheckStale_split sample_registry_list stale_deleted_def sample_endpoint_def)
  ultimately show ?thesis
    using check_stale_exact [OF wf_sample_registry, of "seconds 30" "seconds 100"]
    by (fastforce simp: i64_max_def expire_def sample_endpoint_def)
qed

end
