(* ===== verification/Registry.thy ===== *)
theory Registry
  imports Local_Registry
begin

text \<open>
  \<open>internal/registry/remote/remote.go\<close> and \<open>internal/registry/registry.go\<close>: the registry of remote
  nodes, the facade over both registries that every other component calls, and the aggregation of
  local endpoints per path that gossip announces.
\<close>

section \<open>The facade\<close>

record Registry =
  reg_local :: LocalRegistry
  reg_remote :: RemoteNodeStore

definition Registry_New :: Registry where
  "Registry_New = \<lparr>reg_local = NewLocalRegistry, reg_remote = NewRemoteNodeStore\<rparr>"

definition Registry_RegisterEndpoints ::
    "(nat \<Rightarrow> string) \<Rightarrow> LocalEndpoint list \<Rightarrow> Registry \<Rightarrow> (RegisterError + string) \<times> Registry" where
  "Registry_RegisterEndpoints ids endpoints r =
     (let (res, l) = LocalRegistry_RegisterEndpoints ids endpoints (reg_local r) in (res, r\<lparr>reg_local := l\<rparr>))"

definition Registry_RemoveEndpoint :: "string \<Rightarrow> Registry \<Rightarrow> Registry" where
  "Registry_RemoveEndpoint path r = r\<lparr>reg_local := LocalRegistry_RemoveEndpoint path (reg_local r)\<rparr>"

definition Registry_RemoveByServiceID :: "string \<Rightarrow> Registry \<Rightarrow> int \<times> Registry" where
  "Registry_RemoveByServiceID serviceID r =
     (let (n, l) = LocalRegistry_RemoveByServiceID serviceID (reg_local r) in (n, r\<lparr>reg_local := l\<rparr>))"

definition Registry_RemoveByServiceIDAndPath :: "string \<Rightarrow> string \<Rightarrow> Registry \<Rightarrow> int \<times> Registry" where
  "Registry_RemoveByServiceIDAndPath serviceID nodePath r =
     (let (n, l) = LocalRegistry_RemoveByServiceIDAndPath serviceID nodePath (reg_local r) in (n, r\<lparr>reg_local := l\<rparr>))"

definition Registry_RemoveAllEndpoints :: "Registry \<Rightarrow> Registry" where
  "Registry_RemoveAllEndpoints r = r\<lparr>reg_local := LocalRegistry_RemoveAllEndpoints (reg_local r)\<rparr>"

definition Registry_GetEndpoint :: "Registry \<Rightarrow> string \<Rightarrow> LocalEndpoint option" where
  "Registry_GetEndpoint r path = LocalEndpointStore_Get (lr_endpoints (reg_local r)) path"

definition Registry_GetEndpointByEpID :: "Registry \<Rightarrow> string \<Rightarrow> string \<Rightarrow> LocalEndpoint option" where
  "Registry_GetEndpointByEpID r path epID = LocalEndpointStore_GetByEpID (lr_endpoints (reg_local r)) path epID"

definition Registry_ListEndpoints :: "Registry \<Rightarrow> LocalEndpoint list" where
  "Registry_ListEndpoints r = LocalEndpointStore_List (lr_endpoints (reg_local r))"

definition Registry_ListEndpointsByNodePath :: "Registry \<Rightarrow> string \<Rightarrow> LocalEndpoint list" where
  "Registry_ListEndpointsByNodePath r nodePath = LocalEndpointStore_ListByNodePath (lr_endpoints (reg_local r)) nodePath"

definition Registry_GetAllLocalEndpoints :: "Registry \<Rightarrow> LocalEndpoint gomap" where
  "Registry_GetAllLocalEndpoints r = LocalEndpointStore_GetAll (lr_endpoints (reg_local r))"

definition Registry_UpdateHeartbeat :: "time \<Rightarrow> string \<Rightarrow> bool \<Rightarrow> Registry \<Rightarrow> (string + unit) \<times> Registry" where
  "Registry_UpdateHeartbeat now serviceID healthy r =
     (let (res, l) = LocalRegistry_UpdateHeartbeat now serviceID healthy (reg_local r) in (res, r\<lparr>reg_local := l\<rparr>))"

definition Registry_UpdateEndpointMetrics :: "string \<Rightarrow> i32 \<Rightarrow> i32 \<Rightarrow> Registry \<Rightarrow> Registry" where
  "Registry_UpdateEndpointMetrics nodePath active queueLen r =
     r\<lparr>reg_local := LocalRegistry_UpdateEndpointMetrics nodePath active queueLen (reg_local r)\<rparr>"

definition Registry_UpdateEndpointMetricsByEpID :: "string \<Rightarrow> string \<Rightarrow> i32 \<Rightarrow> i32 \<Rightarrow> Registry \<Rightarrow> Registry" where
  "Registry_UpdateEndpointMetricsByEpID nodePath epID active queueLen r =
     r\<lparr>reg_local := LocalRegistry_UpdateEndpointMetricsByEpID nodePath epID active queueLen (reg_local r)\<rparr>"

definition Registry_CheckStaleEndpoints :: "time \<Rightarrow> duration \<Rightarrow> Registry \<Rightarrow> LocalEndpoint list \<times> Registry" where
  "Registry_CheckStaleEndpoints now timeout r =
     (let (ds, l) = LocalRegistry_CheckStaleEndpoints now timeout (reg_local r) in (ds, r\<lparr>reg_local := l\<rparr>))"

definition Registry_UpdateRemoteNode :: "time \<Rightarrow> string \<Rightarrow> string \<Rightarrow> int \<Rightarrow> Registry \<Rightarrow> Registry" where
  "Registry_UpdateRemoteNode now nodeID address port r =
     r\<lparr>reg_remote := RemoteNodeStore_Upsert now nodeID address port (reg_remote r)\<rparr>"

definition Registry_GetRemoteNode :: "Registry \<Rightarrow> string \<Rightarrow> RemoteNode option" where
  "Registry_GetRemoteNode r nodeID = RemoteNodeStore_Get (reg_remote r) nodeID"

definition Registry_HasRemoteNode :: "Registry \<Rightarrow> string \<Rightarrow> bool" where
  "Registry_HasRemoteNode r nodeID \<longleftrightarrow> RemoteNodeStore_Get (reg_remote r) nodeID \<noteq> None"

definition Registry_UpdateRemoteNodeState :: "time \<Rightarrow> string \<Rightarrow> EndpointState gomap \<Rightarrow> Registry \<Rightarrow> Registry" where
  "Registry_UpdateRemoteNodeState now nodeID states r =
     r\<lparr>reg_remote := RemoteNodeStore_UpdateState now nodeID states (reg_remote r)\<rparr>"

definition Registry_UpdateRemoteNodeMetadata :: "time \<Rightarrow> string \<Rightarrow> EndpointMetadata gomap \<Rightarrow> Registry \<Rightarrow> Registry" where
  "Registry_UpdateRemoteNodeMetadata now nodeID descriptions r =
     (let converted = fold (\<lambda>(nodePath, desc). AList.update nodePath desc) descriptions []
      in r\<lparr>reg_remote := RemoteNodeStore_UpdateMetadata now nodeID converted (reg_remote r)\<rparr>)"

definition Registry_RemoveRemoteNode :: "string \<Rightarrow> Registry \<Rightarrow> Registry" where
  "Registry_RemoveRemoteNode nodeID r = r\<lparr>reg_remote := RemoteNodeStore_Delete nodeID (reg_remote r)\<rparr>"

definition Registry_TouchRemoteNodeLastSeen :: "time \<Rightarrow> string \<Rightarrow> Registry \<Rightarrow> Registry" where
  "Registry_TouchRemoteNodeLastSeen now nodeID r =
     r\<lparr>reg_remote := RemoteNodeStore_TouchLastSeen now nodeID (reg_remote r)\<rparr>"

definition Registry_GetRemoteNodes :: "Registry \<Rightarrow> RemoteNode list" where
  "Registry_GetRemoteNodes r = RemoteNodeStore_List (reg_remote r)"

definition Registry_GetAllRemoteNodes :: "Registry \<Rightarrow> RemoteNode gomap" where
  "Registry_GetAllRemoteNodes r = RemoteNodeStore_GetAll (reg_remote r)"

definition Registry_GetHealthyNodesForPath :: "Registry \<Rightarrow> string \<Rightarrow> RemoteNode list" where
  "Registry_GetHealthyNodesForPath r path = RemoteNodeStore_GetHealthyNodesForPath (reg_remote r) path"

definition Registry_CleanStaleRemoteNodes :: "time \<Rightarrow> duration \<Rightarrow> duration \<Rightarrow> Registry \<Rightarrow> Registry" where
  "Registry_CleanStaleRemoteNodes now nodeTimeout endpointTimeout r =
     r\<lparr>reg_remote := RemoteNodeStore_CleanStale now nodeTimeout endpointTimeout (reg_remote r)\<rparr>"

definition Registry_GetEndpointDescriptions :: "Registry \<Rightarrow> EndpointMetadata gomap" where
  "Registry_GetEndpointDescriptions r = LocalRegistry_GetEndpointDescriptions (reg_local r)"

definition Registry_GetAllEndpointMetadata :: "Registry \<Rightarrow> EndpointMetadata gomap" where
  "Registry_GetAllEndpointMetadata r = LocalRegistry_GetAllEndpointMetadata (reg_local r)"

definition Registry_AddRemoteNode :: "RemoteNode \<Rightarrow> Registry \<Rightarrow> Registry" where
  "Registry_AddRemoteNode node r = r\<lparr>reg_remote := RemoteNodeStore_Set (rn_NodeID node) node (reg_remote r)\<rparr>"

definition Registry_RemoveRemoteEndpoint :: "string \<Rightarrow> string \<Rightarrow> Registry \<Rightarrow> Registry" where
  "Registry_RemoveRemoteEndpoint nodeID path r =
     r\<lparr>reg_remote := RemoteNodeStore_RemoveEndpoint nodeID path (reg_remote r)\<rparr>"

section \<open>Aggregation per path\<close>

definition aggregate_step :: "AggregatedPathInfo gomap \<Rightarrow> LocalEndpoint \<Rightarrow> AggregatedPathInfo gomap" where
  "aggregate_step result ep =
     (let agg = (case map_of result (ep_NodePath ep) of
                   Some agg \<Rightarrow> agg
                 | None \<Rightarrow> \<lparr>agg_NodePath = ep_NodePath ep, agg_Active = 0, agg_QueueLen = 0, agg_Healthy = False,
                            agg_MaxConcurrent = 0, agg_Plugin = ep_Plugin ep\<rparr>);
          agg = (if ep_Healthy ep
                 then agg\<lparr>agg_Healthy := True, agg_MaxConcurrent := agg_MaxConcurrent agg + ep_MaxConcurrent ep\<rparr>
                 else agg);
          agg = agg\<lparr>agg_Active := agg_Active agg + ep_Active ep, agg_QueueLen := agg_QueueLen agg + ep_QueueLen ep\<rparr>
      in AList.update (ep_NodePath ep) agg result)"

definition Registry_AggregateLocalPathInfos :: "Registry \<Rightarrow> AggregatedPathInfo gomap" where
  "Registry_AggregateLocalPathInfos r = foldl aggregate_step [] (Registry_ListEndpoints r)"

text \<open>What the aggregate of a non-empty group of endpoints of one path should be.\<close>

definition aggregate_of :: "string \<Rightarrow> LocalEndpoint list \<Rightarrow> AggregatedPathInfo" where
  "aggregate_of p eps =
     \<lparr>agg_NodePath = p, agg_Active = sum_list (map ep_Active eps), agg_QueueLen = sum_list (map ep_QueueLen eps),
      agg_Healthy = (\<exists>ep \<in> set eps. ep_Healthy ep),
      agg_MaxConcurrent = sum_list (map ep_MaxConcurrent (filter ep_Healthy eps)), agg_Plugin = ep_Plugin (hd eps)\<rparr>"

abbreviation on_path :: "string \<Rightarrow> LocalEndpoint list \<Rightarrow> LocalEndpoint list" where
  "on_path p eps \<equiv> filter (\<lambda>ep. ep_NodePath ep = p) eps"

lemma aggregate_fold:
  "map_of (foldl aggregate_step [] eps) p = (if on_path p eps = [] then None else Some (aggregate_of p (on_path p eps)))"
proof (induction eps rule: rev_induct)
  case (snoc e eps)
  then show ?case
    by (auto simp: aggregate_step_def map_of_update aggregate_of_def Let_def filter_empty_conv hd_append)
qed simp

text \<open>
  C31: The aggregate that gossip announces for a path is the exact account of the local endpoints of
  that path: there is one iff the path has endpoints, it is healthy iff some endpoint is, its
  capacity is the sum over the healthy endpoints and its active and queued counts the sums over
  all, with no 32-bit wrap-around while the exact sums of the non-negative counters fit.
\<close>

theorem aggregate_exact:
  assumes "\<And>ep. ep \<in> set (Registry_ListEndpoints r) \<Longrightarrow>
      0 \<le> sint (ep_Active ep) \<and> 0 \<le> sint (ep_QueueLen ep) \<and> 0 \<le> sint (ep_MaxConcurrent ep)"
    and "(\<Sum>ep \<leftarrow> on_path p (Registry_ListEndpoints r). sint (ep_Active ep)) < 2 ^ 31"
    and "(\<Sum>ep \<leftarrow> on_path p (Registry_ListEndpoints r). sint (ep_QueueLen ep)) < 2 ^ 31"
    and "(\<Sum>ep \<leftarrow> filter ep_Healthy (on_path p (Registry_ListEndpoints r)). sint (ep_MaxConcurrent ep)) < 2 ^ 31"
  shows "case map_of (Registry_AggregateLocalPathInfos r) p of
      None \<Rightarrow> \<forall>ep \<in> set (Registry_ListEndpoints r). ep_NodePath ep \<noteq> p
    | Some agg \<Rightarrow>
        (\<exists>ep \<in> set (Registry_ListEndpoints r). ep_NodePath ep = p) \<and> agg_NodePath agg = p \<and>
        (agg_Healthy agg \<longleftrightarrow> (\<exists>ep \<in> set (Registry_ListEndpoints r). ep_NodePath ep = p \<and> ep_Healthy ep)) \<and>
        sint (agg_Active agg) = (\<Sum>ep \<leftarrow> on_path p (Registry_ListEndpoints r). sint (ep_Active ep)) \<and>
        sint (agg_QueueLen agg) = (\<Sum>ep \<leftarrow> on_path p (Registry_ListEndpoints r). sint (ep_QueueLen ep)) \<and>
        sint (agg_MaxConcurrent agg) =
          (\<Sum>ep \<leftarrow> filter ep_Healthy (on_path p (Registry_ListEndpoints r)). sint (ep_MaxConcurrent ep))"
proof -
  let ?g = "on_path p (Registry_ListEndpoints r)"
  have "sint (sum_list (map ep_Active ?g)) = (\<Sum>ep \<leftarrow> ?g. sint (ep_Active ep))"
    using sint_i32_sum_list [of "map ep_Active ?g"] assms(1,2) by (auto simp: comp_def)
  moreover have "sint (sum_list (map ep_QueueLen ?g)) = (\<Sum>ep \<leftarrow> ?g. sint (ep_QueueLen ep))"
    using sint_i32_sum_list [of "map ep_QueueLen ?g"] assms(1,3) by (auto simp: comp_def)
  moreover have "sint (sum_list (map ep_MaxConcurrent (filter ep_Healthy ?g))) =
      (\<Sum>ep \<leftarrow> filter ep_Healthy ?g. sint (ep_MaxConcurrent ep))"
    using sint_i32_sum_list [of "map ep_MaxConcurrent (filter ep_Healthy ?g)"] assms(1,4) by (auto simp: comp_def)
  ultimately show ?thesis
    by (auto simp: Registry_AggregateLocalPathInfos_def aggregate_fold aggregate_of_def filter_empty_conv)
qed

theorem aggregate_exact_witness:
  "\<exists>agg. map_of (Registry_AggregateLocalPathInfos (Registry_New\<lparr>reg_local := sample_registry\<rparr>)) ''/a'' = Some agg \<and>
    sint (agg_MaxConcurrent agg) = 10"
proof -
  let ?r = "Registry_New\<lparr>reg_local := sample_registry\<rparr>"
  have eps: "Registry_ListEndpoints ?r = [sample_endpoint ''s'' ''e1'' ''/a'', sample_endpoint ''t'' ''e2'' ''/b'']"
    by (simp add: Registry_ListEndpoints_def sample_registry_list)
  have "map_of (Registry_AggregateLocalPathInfos ?r) ''/a'' \<noteq> None"
    unfolding Registry_AggregateLocalPathInfos_def aggregate_fold eps by (simp add: sample_endpoint_def)
  then obtain agg where "map_of (Registry_AggregateLocalPathInfos ?r) ''/a'' = Some agg" by blast
  moreover have nn: "0 \<le> sint (ep_Active ep) \<and> 0 \<le> sint (ep_QueueLen ep) \<and> 0 \<le> sint (ep_MaxConcurrent ep)"
    if "ep \<in> set (Registry_ListEndpoints ?r)" for ep
    using that by (auto simp: eps sample_endpoint_def)
  ultimately show ?thesis
    using aggregate_exact [of ?r "''/a''", OF nn] by (simp add: eps sample_endpoint_def)
qed

section \<open>Registries the program can reach\<close>

text \<open>
  At most one plugin endpoint per path, the contract \<open>RegisterEndpoints\<close> enforces against the table.
  It does not compare the endpoints of one batch with each other, so a registration step below
  assumes that the batch itself names no path twice for plugins.
\<close>

definition one_plugin :: "LocalEndpointStore \<Rightarrow> bool" where
  "one_plugin s \<longleftrightarrow>
     (\<forall>ep \<in> set (LocalEndpointStore_List s). \<forall>ep' \<in> set (LocalEndpointStore_List s).
        ep_Plugin ep \<longrightarrow> ep_Plugin ep' \<longrightarrow> ep_NodePath ep = ep_NodePath ep' \<longrightarrow> ep = ep')"

inductive reg_step :: "Registry \<Rightarrow> Registry \<Rightarrow> bool" where
  reg_Register: "inj_on ids {1..length eps} \<Longrightarrow>
     (\<And>ep i. ep \<in> set (Registry_ListEndpoints r) \<Longrightarrow> i \<in> {1..length eps} \<Longrightarrow> ep_EpID ep \<noteq> ids i) \<Longrightarrow>
     distinct (map ep_NodePath (filter ep_Plugin eps)) \<Longrightarrow>
     reg_step r (snd (Registry_RegisterEndpoints ids eps r))"
| reg_RemoveEndpoint: "reg_step r (Registry_RemoveEndpoint path r)"
| reg_RemoveService: "reg_step r (snd (Registry_RemoveByServiceID sid r))"
| reg_RemoveServicePath: "reg_step r (snd (Registry_RemoveByServiceIDAndPath sid path r))"
| reg_RemoveAll: "reg_step r (Registry_RemoveAllEndpoints r)"
| reg_Heartbeat: "reg_step r (snd (Registry_UpdateHeartbeat now sid healthy r))"
| reg_Metrics: "reg_step r (Registry_UpdateEndpointMetrics path active queued r)"
| reg_MetricsEp: "reg_step r (Registry_UpdateEndpointMetricsByEpID path epid active queued r)"
| reg_Stale: "0 \<le> timeout \<Longrightarrow> 2 * timeout < i64_max \<Longrightarrow> reg_step r (snd (Registry_CheckStaleEndpoints now timeout r))"
| reg_Remote: "rns_step (reg_remote r) s \<Longrightarrow> reg_step r (r\<lparr>reg_remote := s\<rparr>)"

inductive_cases reg_stepE: "reg_step r r'"

definition reg_inv :: "Registry \<Rightarrow> bool" where
  "reg_inv r \<longleftrightarrow> wf_les (lr_endpoints (reg_local r)) \<and> one_plugin (lr_endpoints (reg_local r)) \<and> wf_rns (reg_remote r)"

lemma one_plugin_iff:
  assumes "wf_les s"
  shows "one_plugin s \<longleftrightarrow>
    (\<forall>k k' ep ep'. les_abs s k = Some ep \<longrightarrow> les_abs s k' = Some ep' \<longrightarrow> ep_Plugin ep \<longrightarrow> ep_Plugin ep' \<longrightarrow>
       fst k = fst k' \<longrightarrow> k = k')"
proof (intro iffI allI impI)
  fix k k' ep ep'
  assume "one_plugin s" and ep: "les_abs s k = Some ep" "les_abs s k' = Some ep'"
    and pl: "ep_Plugin ep" "ep_Plugin ep'" and "fst k = fst k'"
  then have "k = ep_key ep" "k' = ep_key ep'" using les_abs_key [OF assms] by blast+
  moreover from this ep have "ep \<in> set (LocalEndpointStore_List s)" "ep' \<in> set (LocalEndpointStore_List s)"
    using les_abs_List [OF assms] by auto
  ultimately show "k = k'"
    using \<open>one_plugin s\<close> pl \<open>fst k = fst k'\<close> unfolding one_plugin_def by auto
next
  assume H: "\<forall>k k' ep ep'. les_abs s k = Some ep \<longrightarrow> les_abs s k' = Some ep' \<longrightarrow> ep_Plugin ep \<longrightarrow>
    ep_Plugin ep' \<longrightarrow> fst k = fst k' \<longrightarrow> k = k'"
  show "one_plugin s"
    unfolding one_plugin_def
  proof (intro ballI impI)
    fix ep ep'
    assume mem: "ep \<in> set (LocalEndpointStore_List s)" "ep' \<in> set (LocalEndpointStore_List s)"
      and pl: "ep_Plugin ep" "ep_Plugin ep'" "ep_NodePath ep = ep_NodePath ep'"
    have e: "les_abs s (ep_key ep) = Some ep" "les_abs s (ep_key ep') = Some ep'"
      using mem les_abs_List [OF assms] by blast+
    have "ep_key ep = ep_key ep'" by (rule H [rule_format, OF e]) (simp_all add: pl)
    then show "ep = ep'" using e by (metis option.inject)
  qed
qed

text \<open>Operations that only remove endpoints or rewrite their other fields keep the contract.\<close>

lemma one_plugin_shrink:
  assumes "wf_les s" and "wf_les s'" and "one_plugin s"
    and "\<And>k ep'. les_abs s' k = Some ep' \<Longrightarrow> \<exists>ep. les_abs s k = Some ep \<and> ep_Plugin ep = ep_Plugin ep'"
  shows "one_plugin s'"
  using assms unfolding one_plugin_iff [OF assms(1)] one_plugin_iff [OF assms(2)] by metis

lemma fold_metrics_sweep:
  assumes "wf_les s" and "les_abs s (ep_key x) = Some x"
  shows "wf_les (metrics_step p a q x s) \<and>
    (\<forall>k. les_abs (metrics_step p a q x s) k =
      (if k = ep_key x then Some (if ep_NodePath x = p then x\<lparr>ep_Active := a, ep_QueueLen := q\<rparr> else x) else les_abs s k))"
  using assms by (auto simp: metrics_step_def les_abs_Set wf_les_Set)

text \<open>How each operation of the facade changes the endpoint table, read through \<open>les_abs\<close>.\<close>

definition table_of :: "Registry \<Rightarrow> LocalEndpointStore" where
  "table_of r = lr_endpoints (reg_local r)"

definition shrinks :: "LocalEndpointStore \<Rightarrow> LocalEndpointStore \<Rightarrow> bool" where
  "shrinks s s' \<longleftrightarrow> wf_les s' \<and>
     (\<forall>k ep'. les_abs s' k = Some ep' \<longrightarrow> (\<exists>ep. les_abs s k = Some ep \<and> ep_Plugin ep = ep_Plugin ep'))"

lemma shrinks_sweep:
  assumes "wf_les s"
    and "\<And>s x. wf_les s \<Longrightarrow> les_abs s (ep_key x) = Some x \<Longrightarrow>
      wf_les (step x s) \<and> (\<forall>k. les_abs (step x s) k = (if k = ep_key x then h x else les_abs s k))"
    and "\<And>x y. h x = Some y \<Longrightarrow> ep_Plugin y = ep_Plugin x"
  shows "shrinks s (fold step (LocalEndpointStore_List s) s)"
  using les_sweep [OF assms(1,2)] assms(3) by (auto simp: shrinks_def Option.bind_eq_Some_conv)

lemma shrinks_ops:
  assumes "wf_les (table_of r)"
  shows "shrinks (table_of r) (table_of (Registry_RemoveEndpoint path r))"
    and "shrinks (table_of r) (table_of (snd (Registry_RemoveByServiceID sid r)))"
    and "shrinks (table_of r) (table_of (snd (Registry_RemoveByServiceIDAndPath sid path r)))"
    and "shrinks (table_of r) (table_of (Registry_RemoveAllEndpoints r))"
    and "shrinks (table_of r) (table_of (snd (Registry_UpdateHeartbeat now sid healthy r)))"
    and "shrinks (table_of r) (table_of (Registry_UpdateEndpointMetrics path active queued r))"
    and "shrinks (table_of r) (table_of (Registry_UpdateEndpointMetricsByEpID path epid active queued r))"
proof -
  let ?s = "table_of r"
  have id: "shrinks ?s ?s" using assms by (simp add: shrinks_def)
  show "shrinks ?s (table_of (Registry_RemoveEndpoint path r))"
    using assms by (auto simp: table_of_def shrinks_def Registry_RemoveEndpoint_def LocalRegistry_RemoveEndpoint_def
        wf_les_Delete les_abs_def Delete_lookup split: if_splits)
  show "shrinks ?s (table_of (snd (Registry_RemoveByServiceID sid r)))"
    using RemoveByServiceID_effect [OF assms [unfolded table_of_def], of sid]
    by (auto simp: shrinks_def table_of_def Registry_RemoveByServiceID_def drop_keys_def
        split: option.splits if_splits)
  have "shrinks ?s (LocalEndpointStore_DeleteByServiceID path sid ?s)"
    using assms by (auto simp: shrinks_def les_abs_DeleteByServiceID wf_les_DeleteByServiceID split: option.splits if_splits)
  with id show "shrinks ?s (table_of (snd (Registry_RemoveByServiceIDAndPath sid path r)))"
    by (auto simp: table_of_def Registry_RemoveByServiceIDAndPath_def LocalRegistry_RemoveByServiceIDAndPath_def
        split: option.split)
  have "shrinks ?s (fold (\<lambda>ep. LocalEndpointStore_DeleteByEpID (ep_NodePath ep) (ep_EpID ep)) (LocalEndpointStore_List ?s) ?s)"
    by (rule shrinks_sweep [OF assms, where h = "\<lambda>_. None"]) (auto simp: wf_les_DeleteByEpID les_abs_DeleteByEpID)
  then show "shrinks ?s (table_of (Registry_RemoveAllEndpoints r))"
    by (simp add: table_of_def Registry_RemoveAllEndpoints_def LocalRegistry_RemoveAllEndpoints_def)
  have "shrinks ?s (fold (heartbeat_step now sid healthy) (LocalEndpointStore_List ?s) ?s)"
    by (rule shrinks_sweep [OF assms heartbeat_step_sweep]) (auto split: if_splits)
  with id show "shrinks ?s (table_of (snd (Registry_UpdateHeartbeat now sid healthy r)))"
    by (simp add: table_of_def Registry_UpdateHeartbeat_def LocalRegistry_UpdateHeartbeat_def)
  have "shrinks ?s (fold (metrics_step path active queued) (LocalEndpointStore_List ?s) ?s)"
    by (rule shrinks_sweep [OF assms fold_metrics_sweep]) (auto split: if_splits)
  then show "shrinks ?s (table_of (Registry_UpdateEndpointMetrics path active queued r))"
    by (simp add: table_of_def Registry_UpdateEndpointMetrics_def LocalRegistry_UpdateEndpointMetrics_def)
  have "shrinks ?s (LocalEndpointStore_Set path (ep\<lparr>ep_Active := active, ep_QueueLen := queued\<rparr>) ?s)"
    if "les_abs ?s (path, epid) = Some ep" for ep
    using that les_abs_key [OF assms that] assms by (auto simp: shrinks_def les_abs_Set wf_les_Set split: if_splits)
  with id show "shrinks ?s (table_of (Registry_UpdateEndpointMetricsByEpID path epid active queued r))"
    by (auto simp: table_of_def les_abs_def Registry_UpdateEndpointMetricsByEpID_def
        LocalRegistry_UpdateEndpointMetricsByEpID_def split: option.split)
qed

lemma shrinks_stale:
  assumes "wf_les (table_of r)" and "0 \<le> timeout" and "2 * timeout < i64_max"
  shows "shrinks (table_of r) (table_of (snd (Registry_CheckStaleEndpoints now timeout r)))"
  using shrinks_sweep [OF assms(1) stale_step_sweep [OF assms(2,3), where now = now]]
  by (force simp: table_of_def Registry_CheckStaleEndpoints_def CheckStale_split expire_def split: if_splits)

lemma stamp_ids_plugins: "map ep_NodePath (filter ep_Plugin (stamp_ids ids eps)) = map ep_NodePath (filter ep_Plugin eps)"
proof -
  have "map ep_NodePath (filter ep_Plugin (map (\<lambda>(i, ep). ep\<lparr>ep_ServiceID := ids 0, ep_EpID := ids (Suc i)\<rparr>) (enumerate n eps)))
      = map ep_NodePath (filter ep_Plugin eps)" for n
    by (induction eps arbitrary: n) auto
  then show ?thesis by (simp add: stamp_ids_def)
qed

lemma stamped_one_plugin:
  assumes "distinct (map ep_NodePath (filter ep_Plugin eps))"
    and "ep \<in> set (stamp_ids ids eps)" and "ep' \<in> set (stamp_ids ids eps)"
    and "ep_Plugin ep" and "ep_Plugin ep'" and "ep_NodePath ep = ep_NodePath ep'"
  shows "ep = ep'"
proof -
  have "inj_on ep_NodePath (set (filter ep_Plugin (stamp_ids ids eps)))"
    using assms(1) stamp_ids_plugins [of ids eps] by (metis distinct_map)
  then show ?thesis by (rule inj_onD) (use assms(2-) in auto)
qed

lemma one_plugin_register:
  assumes wf: "wf_les s" and one: "one_plugin s" and inj: "inj_on ids {1..length eps}"
    and batch: "distinct (map ep_NodePath (filter ep_Plugin eps))"
    and clash: "\<And>ep. ep \<in> set eps \<Longrightarrow> \<not> plugin_clash s ep"
  shows "one_plugin (fold (\<lambda>ep. LocalEndpointStore_Set (ep_NodePath ep) ep) (stamp_ids ids eps) s)"
    (is "one_plugin ?s'")
proof -
  have src: "ep \<in> set (stamp_ids ids eps) \<and> ep_key ep = k \<or> les_abs s k = Some ep" if "les_abs ?s' k = Some ep" for k ep
    using that fold_Set_lookup [OF wf distinct_stamped_keys [OF inj], of k] find_stamped [OF inj, of k ep]
    by (auto split: option.splits)
  have old_new: False if new: "ep \<in> set (stamp_ids ids eps)" and old: "les_abs s k = Some ep'" and "fst k = ep_NodePath ep"
    and "ep_Plugin ep" "ep_Plugin ep'" for ep ep' k
  proof -
    obtain i where i: "i < length eps" "ep = (eps ! i)\<lparr>ep_ServiceID := ids 0, ep_EpID := ids (Suc i)\<rparr>"
      using new by (auto simp: stamp_ids_in)
    have "k = ep_key ep'" by (rule les_abs_key [OF wf old])
    then have "ep' \<in> set (LocalEndpointStore_List s)" "ep_NodePath ep' = ep_NodePath (eps ! i)"
      using old that i les_abs_List [OF wf, of ep'] by auto
    then show False using clash [of "eps ! i"] i that by (auto simp: plugin_clash_def)
  qed
  show ?thesis
    unfolding one_plugin_iff [OF fold_Set_wf [OF wf]]
  proof (intro allI impI)
    fix k k' ep ep'
    assume l: "les_abs ?s' k = Some ep" "les_abs ?s' k' = Some ep'"
      and pl: "ep_Plugin ep" "ep_Plugin ep'" and eq: "fst k = fst k'"
    from src [OF l(1)] src [OF l(2)] show "k = k'"
    proof (elim disjE conjE)
      assume "ep \<in> set (stamp_ids ids eps)" "ep_key ep = k" "ep' \<in> set (stamp_ids ids eps)" "ep_key ep' = k'"
      then show ?thesis using stamped_one_plugin [OF batch, of ep ids ep'] pl eq by auto
    next
      assume "les_abs s k = Some ep" "les_abs s k' = Some ep'"
      then show ?thesis using one pl eq unfolding one_plugin_iff [OF wf] by blast
    qed (use old_new pl eq in \<open>metis fst_conv\<close>)+
  qed
qed

lemma Register_cases:
  "table_of (snd (Registry_RegisterEndpoints ids eps r)) = table_of r \<or>
   (\<forall>ep \<in> set eps. \<not> plugin_clash (table_of r) ep) \<and>
     table_of (snd (Registry_RegisterEndpoints ids eps r)) =
       fold (\<lambda>ep. LocalEndpointStore_Set (ep_NodePath ep) ep) (stamp_ids ids eps) (table_of r)"
proof (cases "find (plugin_clash (table_of r)) eps")
  case None
  moreover from this have "\<forall>ep \<in> set eps. \<not> plugin_clash (table_of r) ep" by (simp only: find_clash_None)
  ultimately show ?thesis
    by (simp add: table_of_def Registry_RegisterEndpoints_def LocalRegistry_RegisterEndpoints_def Let_def split: list.split)
next
  case (Some ep)
  then show ?thesis
    by (simp add: table_of_def Registry_RegisterEndpoints_def LocalRegistry_RegisterEndpoints_def)
qed

lemma reg_remote_frame [simp]:
  "reg_remote (snd (Registry_RegisterEndpoints ids eps r)) = reg_remote r"
  "reg_remote (Registry_RemoveEndpoint path r) = reg_remote r"
  "reg_remote (snd (Registry_RemoveByServiceID sid r)) = reg_remote r"
  "reg_remote (snd (Registry_RemoveByServiceIDAndPath sid path r)) = reg_remote r"
  "reg_remote (Registry_RemoveAllEndpoints r) = reg_remote r"
  "reg_remote (snd (Registry_UpdateHeartbeat now sid healthy r)) = reg_remote r"
  "reg_remote (Registry_UpdateEndpointMetrics path active queued r) = reg_remote r"
  "reg_remote (Registry_UpdateEndpointMetricsByEpID path epid active queued r) = reg_remote r"
  "reg_remote (snd (Registry_CheckStaleEndpoints now timeout r)) = reg_remote r"
  by (simp_all add: Registry_RegisterEndpoints_def Registry_RemoveEndpoint_def Registry_RemoveByServiceID_def
      Registry_RemoveByServiceIDAndPath_def Registry_RemoveAllEndpoints_def Registry_UpdateHeartbeat_def
      Registry_UpdateEndpointMetrics_def Registry_UpdateEndpointMetricsByEpID_def Registry_CheckStaleEndpoints_def
      case_prod_unfold Let_def)

lemma reg_inv_table:
  "reg_inv r \<longleftrightarrow> wf_les (table_of r) \<and> one_plugin (table_of r) \<and> wf_rns (reg_remote r)"
  by (simp add: reg_inv_def table_of_def)

lemma reg_inv_shrinks:
  "reg_inv r \<Longrightarrow> reg_remote r' = reg_remote r \<Longrightarrow> shrinks (table_of r) (table_of r') \<Longrightarrow> reg_inv r'"
  using one_plugin_shrink by (auto simp: reg_inv_table shrinks_def)

lemma reg_inv_step:
  assumes inv: "reg_inv r" and "reg_step r r'"
  shows "reg_inv r'"
  using assms(2)
proof cases
  case (reg_Register ids eps)
  then show ?thesis
    using inv Register_cases [of ids eps r] one_plugin_register [of "table_of r" ids eps] fold_Set_wf
    by (auto simp: reg_inv_table)
next
  case (reg_Stale timeout now)
  then show ?thesis
    using inv reg_inv_shrinks [OF inv] shrinks_stale [of r timeout now] by (simp add: reg_inv_table)
next
  case (reg_Remote s)
  then show ?thesis using inv rns_sys.inv_step by (auto simp: reg_inv_def)
qed (use reg_inv_shrinks [OF inv] shrinks_ops [of r] inv in \<open>simp_all add: reg_inv_table\<close>)

interpretation reg_sys: invariant_system "\<lambda>r. r = Registry_New" reg_step reg_inv
proof
  show "reg_inv r" if "r = Registry_New" for r
    using that by (simp add: reg_inv_def Registry_New_def NewLocalRegistry_def one_plugin_def
        NewLocalEndpointStore_def LocalEndpointStore_List_def nested_list_def wf_les_def)
qed (rule reg_inv_step)

abbreviation reg_reachable :: "Registry \<Rightarrow> bool" where
  "reg_reachable \<equiv> reach (\<lambda>r. r = Registry_New) reg_step"

lemma reg_reachable_New: "reg_reachable Registry_New"
  by (rule reach_init) simp

lemma reg_reachable_step: "reg_reachable r \<Longrightarrow> reg_step r r' \<Longrightarrow> reg_reachable r'"
  by (rule reach_step)

definition plugin_endpoint :: "string \<Rightarrow> LocalEndpoint" where
  "plugin_endpoint path = (sample_endpoint '''' '''' path)\<lparr>ep_Plugin := True\<rparr>"



text \<open>
  Without the assumption on the batch the contract breaks: one registration may bring two plugins
  for the same path, because the conflict check only looks at the endpoints stored before.
\<close>

lemma batch_duplicate_plugins:
  "\<exists>sid r'. Registry_RegisterEndpoints sample_ids [plugin_endpoint ''/a'', plugin_endpoint ''/a''] Registry_New =
      (Inr sid, r') \<and> length (filter ep_Plugin (Registry_ListEndpointsByNodePath r' ''/a'')) = 2"
  by (simp add: Registry_ListEndpointsByNodePath_def LocalEndpointStore_ListByNodePath_def Registry_New_def
      NewLocalRegistry_def NewLocalEndpointStore_def LocalEndpointStore_List_def nested_list_def
      Registry_RegisterEndpoints_def LocalRegistry_RegisterEndpoints_def plugin_clash_def stamp_ids_def Let_def
      sample_ids_def plugin_endpoint_def sample_endpoint_def LocalEndpointStore_Set_def nested_put_def numeral_2_eq_2)

end
