(* ===== verification/Gossip.thy ===== *)
theory Gossip
  imports Auth Registry
begin

text \<open>
  \<open>internal/gossip/message/message.go\<close>, \<open>internal/gossip/sync/sync.go\<close> and \<open>internal/gossip/gossip.go\<close>: the peer
  table, the messages between nodes, how a received message changes the registry, and the HTTP handlers.
  Sending is asynchronous: an operation returns the posts it starts, in order, and delivery is a
  handler call at the receiver. A request body is the decoded value, \<open>None\<close> when decoding fails.
\<close>

declare map_of_eq_Some_iff [simp del] Some_eq_map_of_iff [simp del]

section \<open>Messages\<close>

record PathInfo =
  pi_ServiceID :: string
  pi_ServicePath :: string
  pi_NodePath :: string
  pi_Active :: i32
  pi_QueueLen :: i32
  pi_Healthy :: bool
  pi_MaxConcurrent :: i32
  pi_Plugin :: bool

record NodeEndpointInfo =
  ne_Path :: string
  ne_Active :: i32
  ne_QueueLen :: i32
  ne_Healthy :: bool
  ne_MaxConcurrent :: i32
  ne_Plugin :: bool

record PeerInfo =
  ni_NodeID :: string
  ni_Address :: string
  ni_ServicePort :: int
  ni_Healthy :: bool
  ni_Endpoints :: "NodeEndpointInfo list"

record GossipMessage =
  gm_Type :: string
  gm_NodeID :: string
  gm_Peer :: "PeerInfo option"
  gm_PathInfos :: "PathInfo list"
  gm_DeletedPaths :: "string list"
  gm_DeletedNode :: bool
  gm_Config :: "Config option"

definition empty_message :: GossipMessage where
  "empty_message =
     \<lparr>gm_Type = '''', gm_NodeID = '''', gm_Peer = None, gm_PathInfos = [], gm_DeletedPaths = [], gm_DeletedNode = False,
      gm_Config = None\<rparr>"

text \<open>A post to a peer: the URL, the API key header (none when no key is configured) and the message.\<close>

record Post =
  po_url :: string
  po_key :: "string option"
  po_msg :: GossipMessage

section \<open>State\<close>

record Peer =
  pe_NodeID :: string
  pe_Address :: string
  pe_LastSeen :: time

record Sync =
  sy_peers :: "Peer gomap"
  sy_registry :: Registry

definition Sync_New :: "Registry \<Rightarrow> Sync" where
  "Sync_New reg = \<lparr>sy_peers = [], sy_registry = reg\<rparr>"

definition GetNodes :: "Sync \<Rightarrow> Peer list" where
  "GetNodes s = map snd (sy_peers s)"

definition GetClusterSize :: "Sync \<Rightarrow> int" where
  "GetClusterSize s = int (length (sy_peers s)) + 1"

section \<open>Sending\<close>

definition PostToPeerAsync :: "Config \<Rightarrow> string \<Rightarrow> string \<Rightarrow> GossipMessage \<Rightarrow> Post" where
  "PostToPeerAsync config peerIP path msg =
     \<lparr>po_url = ''http://'' @ peerIP @ '':'' @ Itoa (sscanf_port (GetListenAddr config) + 1) @ path,
      po_key = (if cfg_APIKey config \<noteq> '''' then Some (cfg_APIKey config) else None), po_msg = msg\<rparr>"

definition path_info_of :: "AggregatedPathInfo \<Rightarrow> PathInfo" where
  "path_info_of agg =
     \<lparr>pi_ServiceID = '''', pi_ServicePath = '''', pi_NodePath = agg_NodePath agg, pi_Active = agg_Active agg,
      pi_QueueLen = agg_QueueLen agg, pi_Healthy = agg_Healthy agg, pi_MaxConcurrent = agg_MaxConcurrent agg,
      pi_Plugin = agg_Plugin agg\<rparr>"

text \<open>The message of \<open>BroadcastSync\<close> and \<open>sendSyncToPeer\<close>: the node's aggregated paths.\<close>

definition sync_message :: "Config \<Rightarrow> Registry \<Rightarrow> GossipMessage" where
  "sync_message config reg =
     empty_message\<lparr>gm_NodeID := GetNodeID config,
       gm_PathInfos := map (\<lambda>(_, agg). path_info_of agg) (Registry_AggregateLocalPathInfos reg)\<rparr>"

definition BroadcastSync :: "Config \<Rightarrow> Sync \<Rightarrow> Post list" where
  "BroadcastSync config s =
     map (\<lambda>peer. PostToPeerAsync config (pe_Address peer) ''/v1/gossip/sync'' (sync_message config (sy_registry s))) (GetNodes s)"

definition notifyPeersOfNewNode :: "Config \<Rightarrow> string \<Rightarrow> string \<Rightarrow> Sync \<Rightarrow> Post list" where
  "notifyPeersOfNewNode config newNodeID newNodeAddr s =
     (let msg = empty_message\<lparr>gm_Type := ''peer_announce'',
                  gm_Peer := Some \<lparr>ni_NodeID = newNodeID, ni_Address = newNodeAddr, ni_ServicePort = 0, ni_Healthy = True,
                                   ni_Endpoints = []\<rparr>\<rparr>
      in map (\<lambda>peer. PostToPeerAsync config (pe_Address peer) ''/v1/gossip/peer'' msg)
           (filter (\<lambda>peer. pe_NodeID peer \<noteq> newNodeID) (GetNodes s)))"

record EndpointMetrics =
  em_ServiceID :: string
  em_ServicePath :: string
  em_NodePath :: string
  em_Active :: i32
  em_QueueLen :: i32
  em_Healthy :: bool
  em_MaxConcurrent :: i32
  em_Plugin :: bool

definition BroadcastState :: "Config \<Rightarrow> EndpointMetrics gomap \<Rightarrow> Sync \<Rightarrow> Post list" where
  "BroadcastState config states s =
     (let pathInfos = map (\<lambda>(_, m). \<lparr>pi_ServiceID = em_ServiceID m, pi_ServicePath = em_ServicePath m,
                        pi_NodePath = em_NodePath m, pi_Active = em_Active m, pi_QueueLen = em_QueueLen m,
                        pi_Healthy = em_Healthy m, pi_MaxConcurrent = em_MaxConcurrent m, pi_Plugin = em_Plugin m\<rparr>) states;
          msg = empty_message\<lparr>gm_NodeID := GetNodeID config, gm_PathInfos := pathInfos\<rparr>
      in map (\<lambda>peer. PostToPeerAsync config (pe_Address peer) ''/v1/gossip/sync'' msg) (GetNodes s))"

definition BroadcastDeletedPaths :: "Config \<Rightarrow> string list \<Rightarrow> Sync \<Rightarrow> Post list" where
  "BroadcastDeletedPaths config paths s =
     map (\<lambda>peer. PostToPeerAsync config (pe_Address peer) ''/v1/gossip/sync''
            (empty_message\<lparr>gm_NodeID := GetNodeID config, gm_DeletedPaths := paths\<rparr>)) (GetNodes s)"

definition BroadcastNodeLeave :: "Config \<Rightarrow> Sync \<Rightarrow> Post list" where
  "BroadcastNodeLeave config s =
     map (\<lambda>peer. PostToPeerAsync config (pe_Address peer) ''/v1/gossip/sync''
            (empty_message\<lparr>gm_NodeID := GetNodeID config, gm_DeletedNode := True\<rparr>)) (GetNodes s)"

section \<open>Peers\<close>

text \<open>Host and port of a joining node's address; without a port the node's own business port is assumed.\<close>

definition peer_host_port :: "Config \<Rightarrow> string \<Rightarrow> string \<times> int" where
  "peer_host_port config address =
     (let parts = Split CHR '':'' address;
          host = parts ! 0;
          port = (if length parts \<ge> 2 \<and> parts ! 1 \<noteq> ''''
                  then (case Sscanf_d (parts ! 1) of Some p \<Rightarrow> p | None \<Rightarrow> 0)
                  else base_port (GetListenAddr config))
      in (if host = '''' then ''127.0.0.1'' else host, port))"

definition addPeerLocked :: "Config \<Rightarrow> time \<Rightarrow> string \<Rightarrow> string \<Rightarrow> Sync \<Rightarrow> bool \<times> Sync" where
  "addPeerLocked config now nodeID address s =
     (case map_of (sy_peers s) nodeID of
        None \<Rightarrow>
          let (host, port) = peer_host_port config address
          in (True, s\<lparr>sy_peers := AList.update nodeID \<lparr>pe_NodeID = nodeID, pe_Address = address, pe_LastSeen = now\<rparr> (sy_peers s),
                     sy_registry := Registry_UpdateRemoteNode now nodeID host port (sy_registry s)\<rparr>)
      | Some peer \<Rightarrow>
          (False, s\<lparr>sy_peers := AList.update nodeID (peer\<lparr>pe_LastSeen := now\<rparr>) (sy_peers s),
                   sy_registry := Registry_TouchRemoteNodeLastSeen now nodeID (sy_registry s)\<rparr>))"

definition AddPeer :: "Config \<Rightarrow> time \<Rightarrow> string \<Rightarrow> string \<Rightarrow> Sync \<Rightarrow> Sync \<times> Post list" where
  "AddPeer config now nodeID address s =
     (let (isNew, s) = addPeerLocked config now nodeID address s
      in (s, if isNew then BroadcastSync config s @ notifyPeersOfNewNode config nodeID address s else []))"

definition RemovePeer :: "string \<Rightarrow> Sync \<Rightarrow> Sync" where
  "RemovePeer nodeID s =
     s\<lparr>sy_peers := AList.delete nodeID (sy_peers s), sy_registry := Registry_RemoveRemoteNode nodeID (sy_registry s)\<rparr>"

definition cleanupStalePeers :: "Config \<Rightarrow> time \<Rightarrow> Sync \<Rightarrow> Sync" where
  "cleanupStalePeers config now s =
     fold (\<lambda>(nodeID, peer) s.
             if time_sub now (pe_LastSeen peer) > GetSyncPeerTimeout config then RemovePeer nodeID s else s)
       (sy_peers s) s"

section \<open>State messages\<close>

definition announced_state :: "PathInfo \<Rightarrow> EndpointState" where
  "announced_state p =
     \<lparr>es_Active = pi_Active p, es_QueueLen = pi_QueueLen p, es_Healthy = pi_Healthy p,
      es_MaxConcurrent = pi_MaxConcurrent p, es_Plugin = pi_Plugin p, es_ResponseTime = 0, es_LastSeen = 0\<rparr>"

definition announced_metadata :: "PathInfo \<Rightarrow> EndpointMetadata" where
  "announced_metadata p =
     \<lparr>md_ServiceID = '''', md_ServicePath = '''', md_NodePath = pi_NodePath p, md_Description = '''',
      md_Plugin = pi_Plugin p, md_MaxConcurrent = pi_MaxConcurrent p\<rparr>"

text \<open>The node is created if it is unknown but its peer is known.\<close>

definition ensure_remote_node :: "Config \<Rightarrow> time \<Rightarrow> string \<Rightarrow> Sync \<Rightarrow> Sync" where
  "ensure_remote_node config now nodeID s =
     (if \<not> Registry_HasRemoteNode (sy_registry s) nodeID then
        (case map_of (sy_peers s) nodeID of
           Some peer \<Rightarrow>
             s\<lparr>sy_registry := Registry_UpdateRemoteNode now nodeID (pe_Address peer) (base_port (GetListenAddr config)) (sy_registry s)\<rparr>
         | None \<Rightarrow> s)
      else s)"

definition apply_path_infos :: "Config \<Rightarrow> time \<Rightarrow> string \<Rightarrow> PathInfo list \<Rightarrow> Sync \<Rightarrow> Sync" where
  "apply_path_infos config now nodeID infos s =
     (let s = ensure_remote_node config now nodeID s;
          endpoints = fold (\<lambda>p. AList.update (pi_NodePath p) (announced_state p)) infos [];
          metadata = fold (\<lambda>p. AList.update (pi_NodePath p) (announced_metadata p)) infos [];
          reg = Registry_UpdateRemoteNodeState now nodeID endpoints (sy_registry s)
      in s\<lparr>sy_registry := Registry_UpdateRemoteNodeMetadata now nodeID metadata reg\<rparr>)"

definition HandleStateMessage :: "Config \<Rightarrow> time \<Rightarrow> GossipMessage \<Rightarrow> Sync \<Rightarrow> Sync" where
  "HandleStateMessage config now msg s =
     (let nodeID = gm_NodeID msg;
          s = (if length (gm_PathInfos msg) > 0 then apply_path_infos config now nodeID (gm_PathInfos msg) s else s);
          s = s\<lparr>sy_registry := fold (Registry_RemoveRemoteEndpoint nodeID) (gm_DeletedPaths msg) (sy_registry s)\<rparr>
      in if gm_DeletedNode msg then
           s\<lparr>sy_registry := Registry_RemoveRemoteNode nodeID (sy_registry s), sy_peers := AList.delete nodeID (sy_peers s)\<rparr>
         else s)"

section \<open>The server\<close>

text \<open>
  The port the server listens on, and the port its peers are addressed on: the first is taken from the
  text after a colon that is not the first byte, the second from a text that begins with the colon.
\<close>

definition gossip_listen_port :: "Config \<Rightarrow> int" where
  "gossip_listen_port config =
     (let addr = cfg_ListenAddr config; idx = LastIndex addr CHR '':'';
          bindPort = (if idx > 0 then sscanf_port (drop (nat idx) addr) else 0);
          bindPort = (if bindPort = 0 then 15050 else bindPort)
      in bindPort + 1)"

definition gossip_peer_port :: "Config \<Rightarrow> int" where
  "gossip_peer_port config = sscanf_port (cfg_ListenAddr config) + 1"

text \<open>The routes that \<open>Start\<close> registers; anything else is answered 404.\<close>

datatype GossipRoute = RHealth | RJoin | RSync | RState | RNodes | RConfig | RUnknown

definition gossip_route :: "string \<Rightarrow> GossipRoute" where
  "gossip_route path =
     (if path = ''/health'' then RHealth
      else if path = ''/v1/gossip/join'' then RJoin
      else if path = ''/v1/gossip/sync'' then RSync
      else if path = ''/v1/gossip/peer'' then RSync
      else if path = ''/v1/gossip/state'' then RState
      else if path = ''/v1/gossip/nodes'' then RNodes
      else if path = ''/v1/gossip/config'' then RConfig
      else RUnknown)"

text \<open>What a handler writes: a plain response, a JSON value, or nothing (an empty 200).\<close>

datatype 'a Reply = Plain ResponseWriter | Json 'a | Silent

definition new_writer :: ResponseWriter where
  "new_writer = \<lparr>w_header = [], w_sent = None, w_body = ''''\<rparr>"

definition fail :: "string \<Rightarrow> int \<Rightarrow> 'a Reply" where
  "fail msg code = Plain (http_error msg code new_writer)"

record NodeStateResponse =
  nr_NodeID :: string
  nr_Healthy :: bool
  nr_PathInfos :: "PathInfo list"

definition getLocalPathInfos :: "Registry \<Rightarrow> PathInfo list" where
  "getLocalPathInfos reg = map (\<lambda>(_, agg). path_info_of agg) (Registry_AggregateLocalPathInfos reg)"

definition remote_ip :: "Request \<Rightarrow> string" where
  "remote_ip r = (case SplitHostPort (rq_remoteAddr r) of Some (host, _) \<Rightarrow> host | None \<Rightarrow> '''')"

definition sendSyncToPeer :: "Config \<Rightarrow> string \<Rightarrow> Sync \<Rightarrow> Post" where
  "sendSyncToPeer config peerIP s =
     \<lparr>po_url = ''http://'' @ peerIP @ '':'' @ Itoa (gossip_peer_port config) @ ''/v1/gossip/sync'',
      po_key = (if cfg_APIKey config \<noteq> '''' then Some (cfg_APIKey config) else None),
      po_msg = sync_message config (sy_registry s)\<rparr>"

definition handleGossipJoin ::
    "Config \<Rightarrow> time \<Rightarrow> Request \<Rightarrow> string option \<Rightarrow> Sync \<Rightarrow> NodeStateResponse Reply \<times> Sync \<times> Post list" where
  "handleGossipJoin config now r body s =
     (case requireGossipAuth config r new_writer of
        (False, w) \<Rightarrow> (Plain w, s, [])
      | (True, w) \<Rightarrow>
          if rq_method r \<noteq> ''POST'' then (fail ''Method not allowed'' 405, s, [])
          else (case body of
                  None \<Rightarrow> (fail ''Invalid request'' 400, s, [])
                | Some nodeID \<Rightarrow>
                    if nodeID = '''' then (fail ''node_id is required'' 400, s, [])
                    else let remoteIP = remote_ip r; (s, posts) = AddPeer config now nodeID remoteIP s
                         in (Json \<lparr>nr_NodeID = cfg_NodeID config, nr_Healthy = True, nr_PathInfos = getLocalPathInfos (sy_registry s)\<rparr>,
                             s, posts @ [sendSyncToPeer config remoteIP s])))"

definition remote_path_infos :: "RemoteNode \<Rightarrow> PathInfo list" where
  "remote_path_infos rn =
     map (\<lambda>(path, ep).
            \<lparr>pi_ServiceID = '''',
             pi_ServicePath = (case map_of (rn_EndpointDescriptions rn) path of Some m \<Rightarrow> md_ServicePath m | None \<Rightarrow> ''''),
             pi_NodePath = path, pi_Active = es_Active ep, pi_QueueLen = es_QueueLen ep, pi_Healthy = es_Healthy ep,
             pi_MaxConcurrent = es_MaxConcurrent ep, pi_Plugin = es_Plugin ep\<rparr>) (rn_EndpointStates rn)"

definition handleGossipState ::
    "Config \<Rightarrow> time \<Rightarrow> Request \<Rightarrow> GossipMessage option \<Rightarrow> Sync \<Rightarrow> NodeStateResponse Reply \<times> Sync" where
  "handleGossipState config now r body s =
     (case requireGossipAuth config r new_writer of
        (False, w) \<Rightarrow> (Plain w, s)
      | (True, w) \<Rightarrow>
          if rq_method r = ''GET'' then
            let nodeID = header_get (rq_query r) ''node_id''
            in if nodeID = '''' then (fail ''node_id is required'' 400, s)
               else (case find (\<lambda>p. pe_NodeID p = nodeID) (GetNodes s) of
                       None \<Rightarrow> (fail ''Node not found'' 404, s)
                     | Some peer \<Rightarrow>
                         let pathInfos = (case find (\<lambda>rn. rn_NodeID rn = nodeID) (Registry_GetRemoteNodes (sy_registry s)) of
                                            Some rn \<Rightarrow> remote_path_infos rn | None \<Rightarrow> [])
                         in (Json \<lparr>nr_NodeID = pe_NodeID peer, nr_Healthy = True, nr_PathInfos = pathInfos\<rparr>, s))
          else if rq_method r \<noteq> ''POST'' then (fail ''Method not allowed'' 405, s)
          else (case body of
                  None \<Rightarrow> (fail ''Invalid request'' 400, s)
                | Some msg \<Rightarrow> (Silent, HandleStateMessage config now msg s)))"

definition handleGossipNodes :: "Config \<Rightarrow> Request \<Rightarrow> Sync \<Rightarrow> string list Reply" where
  "handleGossipNodes config r s =
     (case requireGossipAuth config r new_writer of
        (False, w) \<Rightarrow> Plain w
      | (True, w) \<Rightarrow>
          if rq_method r \<noteq> ''GET'' then fail ''Method not allowed'' 405
          else Json (cfg_NodeID config # map pe_NodeID (GetNodes s)))"

definition handleGossipSync ::
    "Config \<Rightarrow> time \<Rightarrow> Request \<Rightarrow> GossipMessage option \<Rightarrow> Sync \<Rightarrow> string Reply \<times> Sync \<times> Post list" where
  "handleGossipSync config now r body s =
     (case requireGossipAuth config r new_writer of
        (False, w) \<Rightarrow> (Plain w, s, [])
      | (True, w) \<Rightarrow>
          if rq_method r \<noteq> ''POST'' then (fail ''Method not allowed'' 405, s, [])
          else (case body of
                  None \<Rightarrow> (fail ''Invalid request'' 400, s, [])
                | Some msg \<Rightarrow>
                    if gm_NodeID msg \<noteq> '''' then
                      let (s, posts) = AddPeer config now (gm_NodeID msg) (remote_ip r) s;
                          s = (if length (gm_PathInfos msg) > 0 \<or> length (gm_DeletedPaths msg) > 0 \<or> gm_DeletedNode msg
                               then HandleStateMessage config now msg s else s)
                      in (Json ''ok'', s, posts)
                    else (Json ''ok'', s, [])))"

definition handleGossipConfig :: "Config \<Rightarrow> Request \<Rightarrow> GossipMessage option \<Rightarrow> string Reply" where
  "handleGossipConfig config r body =
     (case requireGossipAuth config r new_writer of
        (False, w) \<Rightarrow> Plain w
      | (True, w) \<Rightarrow>
          if rq_method r \<noteq> ''POST'' then fail ''Method not allowed'' 405
          else (case body of None \<Rightarrow> fail ''Invalid request'' 400 | Some msg \<Rightarrow> Json ''ok''))"

definition JoinNode :: "Config \<Rightarrow> time \<Rightarrow> string \<Rightarrow> string \<Rightarrow> Sync \<Rightarrow> Sync \<times> Post list" where
  "JoinNode config now nodeID address s = AddPeer config now nodeID address s"

text \<open>The outcome of a health request to a peer.\<close>

datatype HealthResult = BadRequest | NoAnswer | Status int

definition health_url :: "Config \<Rightarrow> Peer \<Rightarrow> string" where
  "health_url config node = ''http://'' @ pe_Address node @ '':'' @ Itoa (gossip_peer_port config) @ ''/health''"

definition checkSinglePeerHealth :: "Config \<Rightarrow> (string \<Rightarrow> HealthResult) \<Rightarrow> Peer \<Rightarrow> Sync \<Rightarrow> Sync" where
  "checkSinglePeerHealth config probe node s =
     (case probe (health_url config node) of
        BadRequest \<Rightarrow> s
      | NoAnswer \<Rightarrow> RemovePeer (pe_NodeID node) s
      | Status code \<Rightarrow> if code \<noteq> 200 then RemovePeer (pe_NodeID node) s else s)"

definition checkPeerHealth :: "Config \<Rightarrow> (string \<Rightarrow> HealthResult) \<Rightarrow> Sync \<Rightarrow> Sync" where
  "checkPeerHealth config probe s = fold (checkSinglePeerHealth config probe) (GetNodes s) s"

definition config_message :: "Config \<Rightarrow> GossipMessage \<Rightarrow> GossipMessage" where
  "config_message config configUpdate =
     empty_message\<lparr>gm_Type := ''config_update'', gm_NodeID := cfg_NodeID config, gm_Config := gm_Config configUpdate\<rparr>"

definition BroadcastConfigUpdate :: "Config \<Rightarrow> GossipMessage \<Rightarrow> Sync \<Rightarrow> Post list" where
  "BroadcastConfigUpdate config configUpdate s =
     map (\<lambda>node. PostToPeerAsync config (pe_Address node) ''/v1/gossip/config'' (config_message config configUpdate)) (GetNodes s)"

definition BroadcastConfigUpdateExclude :: "Config \<Rightarrow> GossipMessage \<Rightarrow> string \<Rightarrow> Sync \<Rightarrow> Post list" where
  "BroadcastConfigUpdateExclude config configUpdate excludeNodeID s =
     map (\<lambda>node. PostToPeerAsync config (pe_Address node) ''/v1/gossip/config'' (config_message config configUpdate))
       (filter (\<lambda>node. pe_NodeID node \<noteq> excludeNodeID) (GetNodes s))"

text \<open>
  \<open>Shutdown\<close> announces the departure and closes the channel \<open>done\<close>, which panics when it is closed already.
\<close>

definition GossipServer_Shutdown :: "Config \<Rightarrow> bool \<Rightarrow> Sync \<Rightarrow> Post list \<times> bool option" where
  "GossipServer_Shutdown config doneClosed s = (BroadcastNodeLeave config s, if doneClosed then None else Some True)"


section \<open>Every remote node is a peer\<close>

inductive gossip_step :: "Config \<Rightarrow> Sync \<Rightarrow> Sync \<Rightarrow> bool" for config :: Config where
  add_peer: "gossip_step config s (fst (AddPeer config now nodeID address s))"
| remove_peer: "gossip_step config s (RemovePeer nodeID s)"
| state_message: "gossip_step config s (HandleStateMessage config now msg s)"
| health_check: "gossip_step config s (checkPeerHealth config probe s)"
| peer_cleanup: "gossip_step config s (cleanupStalePeers config now s)"
| node_sweep: "gossip_step config s (s\<lparr>sy_registry := Registry_CleanStaleRemoteNodes now nt et (sy_registry s)\<rparr>)"
| local_change: "gossip_step config s (s\<lparr>sy_registry := (sy_registry s)\<lparr>reg_local := l\<rparr>\<rparr>)"

abbreviation remote_of :: "Sync \<Rightarrow> RemoteNodeStore" where
  "remote_of s \<equiv> reg_remote (sy_registry s)"

definition sync_inv :: "Sync \<Rightarrow> bool" where
  "sync_inv s \<longleftrightarrow>
     wf_map (sy_peers s) \<and> (\<forall>k pe. map_of (sy_peers s) k = Some pe \<longrightarrow> pe_NodeID pe = k) \<and>
     wf_rns (remote_of s) \<and> dom (map_of (remote_of s)) \<subseteq> dom (map_of (sy_peers s))"

lemmas remote_store_ops =
  RemoteNodeStore_Upsert_def RemoteNodeStore_TouchLastSeen_def RemoteNodeStore_UpdateState_def
  RemoteNodeStore_UpdateMetadata_def RemoteNodeStore_RemoveEndpoint_def RemoteNodeStore_Delete_def

lemmas registry_remote_ops =
  Registry_UpdateRemoteNode_def Registry_TouchRemoteNodeLastSeen_def Registry_UpdateRemoteNodeState_def
  Registry_UpdateRemoteNodeMetadata_def Registry_RemoveRemoteEndpoint_def Registry_RemoveRemoteNode_def
  Registry_CleanStaleRemoteNodes_def Registry_HasRemoteNode_def RemoteNodeStore_Get_def

lemma RemoveEndpoints_remote:
  "reg_remote (fold (Registry_RemoveRemoteEndpoint nodeID) paths reg) =
     fold (RemoteNodeStore_RemoveEndpoint nodeID) paths (reg_remote reg)"
  by (induction paths arbitrary: reg) (simp_all add: Registry_RemoveRemoteEndpoint_def)

lemma wf_rns_fold_RemoveEndpoint: "wf_rns t \<Longrightarrow> wf_rns (fold (RemoteNodeStore_RemoveEndpoint nodeID) paths t)"
  by (induction paths arbitrary: t) (auto intro: wf_rns_RemoveEndpoint)

lemma dom_map_update [simp]: "dom (map_of (AList.update k v m)) = insert k (dom (map_of m))"
  by (auto simp: map_of_update split: if_splits)

lemma dom_map_delete [simp]: "dom (map_of (AList.delete k m)) = dom (map_of m) - {k}"
  by (auto simp: map_of_delete split: if_splits)

lemma remote_store_dom [simp]:
  "dom (map_of (RemoteNodeStore_Upsert now k a p t)) = insert k (dom (map_of t))"
  "dom (map_of (RemoteNodeStore_TouchLastSeen now k t)) = dom (map_of t)"
  "dom (map_of (RemoteNodeStore_UpdateState now k st t)) = dom (map_of t)"
  "dom (map_of (RemoteNodeStore_UpdateMetadata now k md t)) = dom (map_of t)"
  "dom (map_of (RemoteNodeStore_RemoveEndpoint k path t)) = dom (map_of t)"
  "dom (map_of (RemoteNodeStore_Delete k t)) = dom (map_of t) - {k}"
  by (auto simp: remote_store_ops map_of_update map_of_delete split: option.splits if_splits)

lemma dom_fold_RemoveEndpoint [simp]: "dom (map_of (fold (RemoteNodeStore_RemoveEndpoint n) ps t)) = dom (map_of t)"
  by (induction ps arbitrary: t) simp_all

text \<open>
  Writing a peer under its own id, and a change of the remote table that adds at most that id, keep
  the invariant; so does removing an id from both tables.
\<close>

lemma sync_inv_write:
  assumes "sync_inv s" and "pe_NodeID pe = k" and "wf_rns t" and "dom (map_of t) \<subseteq> insert k (dom (map_of (remote_of s)))"
  shows "sync_inv (s\<lparr>sy_peers := AList.update k pe (sy_peers s), sy_registry := r\<lparr>reg_remote := t\<rparr>\<rparr>)"
proof -
  have "dom (map_of t) \<subseteq> insert k (dom (map_of (sy_peers s)))"
    using assms(1,4) unfolding sync_inv_def by blast
  then show ?thesis using assms(1-3) unfolding sync_inv_def by (simp add: map_of_update wf_map_update)
qed

lemma sync_inv_remote:
  assumes "sync_inv s" and "wf_rns (reg_remote r)" and "dom (map_of (reg_remote r)) \<subseteq> dom (map_of (sy_peers s))"
  shows "sync_inv (s\<lparr>sy_registry := r\<rparr>)"
  using assms by (simp add: sync_inv_def)

lemma sync_invD:
  assumes "sync_inv s"
  shows "wf_map (sy_peers s)" and "map_of (sy_peers s) k = Some pe \<Longrightarrow> pe_NodeID pe = k" and "wf_rns (remote_of s)"
    and "dom (map_of (remote_of s)) \<subseteq> dom (map_of (sy_peers s))"
  using assms by (simp_all add: sync_inv_def)

lemma sync_inv_addPeerLocked:
  assumes "sync_inv s"
  shows "sync_inv (snd (addPeerLocked config now nodeID address s))"
proof (cases "map_of (sy_peers s) nodeID")
  case None
  obtain host port where "peer_host_port config address = (host, port)" by fastforce
  then show ?thesis
    using None sync_inv_write [OF assms _ wf_rns_Upsert [OF sync_invD(3) [OF assms]]]
    by (simp add: addPeerLocked_def Registry_UpdateRemoteNode_def subset_insertI)
next
  case (Some pe)
  then show ?thesis
    using sync_inv_write [OF assms _ wf_rns_TouchLastSeen [OF sync_invD(3) [OF assms]]] sync_invD(2) [OF assms Some]
    by (simp add: addPeerLocked_def Registry_TouchRemoteNodeLastSeen_def subset_insertI)
qed

lemma sync_inv_AddPeer: "sync_inv s \<Longrightarrow> sync_inv (fst (AddPeer config now nodeID address s))"
  using sync_inv_addPeerLocked [of s config now nodeID address]
  by (cases "addPeerLocked config now nodeID address s") (simp add: AddPeer_def)

lemma sync_inv_RemovePeer: "sync_inv s \<Longrightarrow> sync_inv (RemovePeer nodeID s)"
  unfolding sync_inv_def RemovePeer_def Registry_RemoveRemoteNode_def
  by (simp add: map_of_delete wf_map_delete wf_rns_Delete) blast

lemma sync_inv_checkSingle: "sync_inv s \<Longrightarrow> sync_inv (checkSinglePeerHealth config probe node s)"
  by (simp add: checkSinglePeerHealth_def sync_inv_RemovePeer split: HealthResult.split)

lemma sync_inv_fold: "(\<And>x s. sync_inv s \<Longrightarrow> sync_inv (f x s)) \<Longrightarrow> sync_inv s \<Longrightarrow> sync_inv (fold f xs s)"
  by (induction xs arbitrary: s) auto

lemma sync_inv_ensure:
  assumes "sync_inv s"
  shows "sync_inv (ensure_remote_node config now nodeID s)"
proof (cases "map_of (sy_peers s) nodeID")
  case (Some pe)
  then have "nodeID \<in> dom (map_of (sy_peers s))" by blast
  then show ?thesis
    using assms Some sync_invD(3,4) [OF assms] sync_inv_remote [OF assms]
    by (simp add: ensure_remote_node_def Registry_UpdateRemoteNode_def wf_rns_Upsert)
qed (use assms in \<open>simp add: ensure_remote_node_def\<close>)

lemma sync_inv_apply_path_infos:
  assumes "sync_inv s"
  shows "sync_inv (apply_path_infos config now nodeID infos s)"
  using sync_inv_remote [OF sync_inv_ensure [OF assms]] sync_invD(3,4) [OF sync_inv_ensure [OF assms]]
  by (simp add: apply_path_infos_def Registry_UpdateRemoteNodeState_def Registry_UpdateRemoteNodeMetadata_def Let_def
      wf_rns_UpdateState wf_rns_UpdateMetadata)

lemma HandleStateMessage_alt:
  "HandleStateMessage config now msg s =
     (let s = (if gm_PathInfos msg \<noteq> [] then apply_path_infos config now (gm_NodeID msg) (gm_PathInfos msg) s else s);
          s = s\<lparr>sy_registry := fold (Registry_RemoveRemoteEndpoint (gm_NodeID msg)) (gm_DeletedPaths msg) (sy_registry s)\<rparr>
      in if gm_DeletedNode msg then RemovePeer (gm_NodeID msg) s else s)"
  by (simp add: HandleStateMessage_def RemovePeer_def Let_def)

lemma sync_inv_HandleStateMessage: "sync_inv s \<Longrightarrow> sync_inv (HandleStateMessage config now msg s)"
proof -
  assume "sync_inv s"
  then have "sync_inv (if gm_PathInfos msg \<noteq> [] then apply_path_infos config now (gm_NodeID msg) (gm_PathInfos msg) s else s)"
    (is "sync_inv ?s") by (simp add: sync_inv_apply_path_infos)
  then have "sync_inv (?s\<lparr>sy_registry := fold (Registry_RemoveRemoteEndpoint (gm_NodeID msg)) (gm_DeletedPaths msg) (sy_registry ?s)\<rparr>)"
    using sync_invD(3,4) by (intro sync_inv_remote) (simp_all add: RemoveEndpoints_remote wf_rns_fold_RemoveEndpoint)
  then show ?thesis unfolding HandleStateMessage_alt Let_def by (simp add: sync_inv_RemovePeer)
qed

lemma sync_inv_cleanup: "sync_inv s \<Longrightarrow> sync_inv (cleanupStalePeers config now s)"
  unfolding cleanupStalePeers_def by (rule sync_inv_fold) (auto simp: sync_inv_RemovePeer split: prod.split)

lemma sync_inv_sweep:
  assumes "sync_inv s"
  shows "sync_inv (s\<lparr>sy_registry := Registry_CleanStaleRemoteNodes now nt et (sy_registry s)\<rparr>)"
proof (rule sync_inv_remote [OF assms])
  let ?t = "remote_of s"
  show "wf_rns (reg_remote (Registry_CleanStaleRemoteNodes now nt et (sy_registry s)))"
    using sync_invD(3) [OF assms] by (simp add: Registry_CleanStaleRemoteNodes_def wf_rns_CleanStale)
  have "dom (map_of (RemoteNodeStore_CleanStale now nt et ?t)) \<subseteq> dom (map_of ?t)"
    unfolding RemoteNodeStore_CleanStale_def dom_map_of_conv_image_fst fst_set_map_values by auto
  then show "dom (map_of (reg_remote (Registry_CleanStaleRemoteNodes now nt et (sy_registry s)))) \<subseteq> dom (map_of (sy_peers s))"
    using sync_invD(4) [OF assms] by (simp add: Registry_CleanStaleRemoteNodes_def)
qed

interpretation gossip_sys: invariant_system "\<lambda>s. \<exists>l. s = Sync_New (Registry_New\<lparr>reg_local := l\<rparr>)" "gossip_step config" sync_inv
  for config
proof
  show "sync_inv s" if "\<exists>l. s = Sync_New (Registry_New\<lparr>reg_local := l\<rparr>)" for s
    using that by (auto simp: sync_inv_def Sync_New_def Registry_New_def NewRemoteNodeStore_def wf_rns_def)
  show "sync_inv t" if "sync_inv s" and "gossip_step config s t" for s t
    using that(2)
  proof cases
    case (health_check probe)
    then show ?thesis using that(1) by (simp add: checkPeerHealth_def sync_inv_fold sync_inv_checkSingle)
  next
    case (local_change l)
    then show ?thesis using that(1) by (simp add: sync_inv_def)
  qed (use that(1) in \<open>simp_all add: sync_inv_AddPeer sync_inv_RemovePeer sync_inv_HandleStateMessage
      sync_inv_cleanup sync_inv_sweep\<close>)
qed

abbreviation gossip_reachable :: "Config \<Rightarrow> Sync \<Rightarrow> bool" where
  "gossip_reachable config \<equiv> reach (\<lambda>s. \<exists>l. s = Sync_New (Registry_New\<lparr>reg_local := l\<rparr>)) (gossip_step config)"

lemma remote_node_peer:
  assumes inv: "sync_inv s" and rn: "rn \<in> set (Registry_GetRemoteNodes (sy_registry s))"
  shows "\<exists>pe \<in> set (GetNodes s). pe_NodeID pe = rn_NodeID rn"
proof -
  obtain k where "map_of (remote_of s) k = Some rn"
    using rn values_iff [OF wf_rns_map [OF sync_invD(3) [OF inv]], of rn]
    by (simp add: Registry_GetRemoteNodes_def RemoteNodeStore_List_def) blast
  moreover from this have "rn_NodeID rn = k" using sync_invD(3) [OF inv] wf_rns_get by blast
  moreover from calculation obtain pe where "map_of (sy_peers s) k = Some pe" using sync_invD(4) [OF inv] by blast
  ultimately show ?thesis using sync_invD(2) [OF inv] map_of_SomeD [of "sy_peers s" k pe] by (force simp: GetNodes_def)
qed

text \<open>
  In every state the gossip layer can reach, whatever peers join, leave, fail their health check or
  send in, and however the stale sweeps interleave, each peer is filed under its own id and every
  node of the remote table (hence every node a request can be forwarded to) is a known peer.
\<close>

theorem remote_nodes_are_peers:
  assumes "gossip_reachable config s"
  shows "distinct (map fst (sy_peers s)) \<and> (\<forall>(k, pe) \<in> set (sy_peers s). pe_NodeID pe = k) \<and>
    (\<forall>rn \<in> set (Registry_GetRemoteNodes (sy_registry s)). \<exists>pe \<in> set (GetNodes s). pe_NodeID pe = rn_NodeID rn)"
proof -
  have inv: "sync_inv s" by (rule gossip_sys.reach_inv [OF assms])
  then show ?thesis using sync_invD(1,2) [OF inv] remote_node_peer [OF inv] by (auto simp: map_of_eq_Some_iff)
qed

definition sample_sync :: Sync where
  "sample_sync = fst (AddPeer (load_config sample_env) 7 ''n2'' ''10.0.0.2'' (Sync_New Registry_New))"

lemma sample_sync_reachable: "gossip_reachable (load_config sample_env) sample_sync"
proof -
  have "gossip_reachable (load_config sample_env) (Sync_New Registry_New)"
    by (rule reach_init) (metis (full_types) Registry.surjective Registry.update_convs(1))
  then show ?thesis unfolding sample_sync_def by (rule reach_step) (rule add_peer)
qed

theorem remote_nodes_are_peers_witness:
  "\<exists>rn. Registry_GetRemoteNodes (sy_registry sample_sync) = [rn] \<and> (\<exists>pe \<in> set (GetNodes sample_sync). pe_NodeID pe = rn_NodeID rn)"
proof -
  have "\<exists>rn. Registry_GetRemoteNodes (sy_registry sample_sync) = [rn]"
    by (simp add: sample_sync_def AddPeer_def addPeerLocked_def Sync_New_def Registry_UpdateRemoteNode_def RemoteNodeStore_Upsert_def
        Registry_New_def NewRemoteNodeStore_def Registry_GetRemoteNodes_def RemoteNodeStore_List_def split: prod.split)
  then show ?thesis using remote_nodes_are_peers [OF sample_sync_reachable] by auto
qed

section \<open>What a state message leaves behind\<close>

text \<open>The last announcement for a path in a message.\<close>

definition last_info :: "PathInfo list \<Rightarrow> string \<Rightarrow> PathInfo option" where
  "last_info infos q = map_of (rev (map (\<lambda>p. (pi_NodePath p, p)) infos)) q"

lemma fold_infos_lookup:
  "map_of (fold (\<lambda>p. AList.update (pi_NodePath p) (f p)) infos m) q =
     (case last_info infos q of Some p \<Rightarrow> Some (f p) | None \<Rightarrow> map_of m q)"
  unfolding last_info_def
proof (induction infos arbitrary: m rule: rev_induct)
  case (snoc p infos)
  then show ?case by (simp add: map_of_update)
qed simp

lemma wf_fold_infos: "wf_map m \<Longrightarrow> wf_map (fold (\<lambda>p. AList.update (pi_NodePath p) (f p)) infos m)"
  by (rule gm.inv_fold_put)

text \<open>The state recorded for an announced path: healthy whatever the announcement says.\<close>

definition heard_state :: "time \<Rightarrow> PathInfo \<Rightarrow> EndpointState" where
  "heard_state now p =
     \<lparr>es_Active = pi_Active p, es_QueueLen = pi_QueueLen p, es_Healthy = True, es_MaxConcurrent = pi_MaxConcurrent p,
      es_Plugin = pi_Plugin p, es_ResponseTime = 0, es_LastSeen = now\<rparr>"

lemma described_announced:
  "described_state now (announced_metadata p) (Some ((announced_state p)\<lparr>es_LastSeen := now\<rparr>)) = heard_state now p"
  by (simp add: described_state_def announced_metadata_def announced_state_def heard_state_def)

abbreviation states_at :: "Sync \<Rightarrow> string \<Rightarrow> string \<Rightarrow> EndpointState option" where
  "states_at s nodeID q \<equiv> Option.bind (map_of (remote_of s) nodeID) (\<lambda>rn. map_of (rn_EndpointStates rn) q)"

text \<open>The two registry calls on an existing node.\<close>

lemma apply_infos_remote:
  assumes "map_of t nodeID = Some rn"
    and "t' = RemoteNodeStore_UpdateMetadata now nodeID
      (fold (\<lambda>(nodePath, desc). AList.update nodePath desc) (fold (\<lambda>p. AList.update (pi_NodePath p) (announced_metadata p)) infos []) [])
      (RemoteNodeStore_UpdateState now nodeID (fold (\<lambda>p. AList.update (pi_NodePath p) (announced_state p)) infos []) t)"
  shows "\<exists>rn'. map_of t' nodeID = Some rn' \<and> rn_Address rn' = rn_Address rn \<and> rn_ServicePort rn' = rn_ServicePort rn \<and>
    (\<forall>q. map_of (rn_EndpointStates rn') q =
      (case last_info infos q of Some p \<Rightarrow> Some (heard_state now p) | None \<Rightarrow> map_of (rn_EndpointStates rn) q))"
    and "k \<noteq> nodeID \<Longrightarrow> map_of t' k = map_of t k"
proof -
  let ?st = "fold (\<lambda>p. AList.update (pi_NodePath p) (announced_state p)) infos []"
  let ?md = "fold (\<lambda>p. AList.update (pi_NodePath p) (announced_metadata p)) infos []"
  let ?cv = "fold (\<lambda>(nodePath, desc). AList.update nodePath desc) ?md []"
  let ?rn1 = "rn\<lparr>rn_EndpointStates := fold (\<lambda>(path, state). AList.update path (state\<lparr>es_LastSeen := now\<rparr>)) ?st (rn_EndpointStates rn),
      rn_LastSeen := now\<rparr>"
  let ?rn' = "fold (\<lambda>(path, desc). describe_path now path desc) ?cv ?rn1"
  have wf: "wf_map ?st" "wf_map ?md" by (simp_all add: wf_fold_infos)
  have cv: "wf_map ?cv" using fold_update_wf [of "[]" "\<lambda>x. x" ?md] by simp
  have cvq: "map_of ?cv q = map_of ?md q" for q
    using fold_update_lookup [OF wf(2), of "\<lambda>x. x" "[]" q] by (simp split: option.split)
  have t': "map_of t' nodeID = Some ?rn'"
    using assms by (simp add: RemoteNodeStore_UpdateState_def RemoteNodeStore_UpdateMetadata_def map_of_update)
  have "map_of (rn_EndpointStates ?rn') q =
      (case last_info infos q of Some p \<Rightarrow> Some (heard_state now p) | None \<Rightarrow> map_of (rn_EndpointStates rn) q)" for q
    unfolding fold_describe_states [OF cv] cvq fold_infos_lookup
    by (simp add: fold_update_lookup [OF wf(1)] fold_infos_lookup described_announced split: option.split)
  then show "\<exists>rn'. map_of t' nodeID = Some rn' \<and> rn_Address rn' = rn_Address rn \<and> rn_ServicePort rn' = rn_ServicePort rn \<and>
    (\<forall>q. map_of (rn_EndpointStates rn') q =
      (case last_info infos q of Some p \<Rightarrow> Some (heard_state now p) | None \<Rightarrow> map_of (rn_EndpointStates rn) q))"
    using t' by auto
  show "k \<noteq> nodeID \<Longrightarrow> map_of t' k = map_of t k"
    using assms by (simp add: RemoteNodeStore_UpdateState_def RemoteNodeStore_UpdateMetadata_def map_of_update)
qed


lemma ensure_remote_node_cases:
  assumes "map_of (sy_peers s) nodeID = Some peer"
  shows "\<exists>rn. map_of (remote_of (ensure_remote_node config now nodeID s)) nodeID = Some rn \<and>
      (\<forall>q. map_of (rn_EndpointStates rn) q = states_at s nodeID q)"
    and "k \<noteq> nodeID \<Longrightarrow> map_of (remote_of (ensure_remote_node config now nodeID s)) k = map_of (remote_of s) k"
    and "sy_peers (ensure_remote_node config now nodeID s) = sy_peers s"
  using assms
  by (auto simp: ensure_remote_node_def registry_remote_ops RemoteNodeStore_Upsert_def map_of_update fun_eq_iff
      split: option.splits)

lemma apply_path_infos_effect:
  assumes "map_of (sy_peers s) nodeID = Some peer"
  shows "states_at (apply_path_infos config now nodeID infos s) nodeID q =
      (case last_info infos q of Some p \<Rightarrow> Some (heard_state now p) | None \<Rightarrow> states_at s nodeID q)"
    and "map_of (remote_of (apply_path_infos config now nodeID infos s)) nodeID \<noteq> None"
    and "k \<noteq> nodeID \<Longrightarrow> map_of (remote_of (apply_path_infos config now nodeID infos s)) k = map_of (remote_of s) k"
    and "sy_peers (apply_path_infos config now nodeID infos s) = sy_peers s"
proof -
  obtain rn where rn: "map_of (remote_of (ensure_remote_node config now nodeID s)) nodeID = Some rn"
    "\<And>q. map_of (rn_EndpointStates rn) q = states_at s nodeID q"
    using ensure_remote_node_cases(1) [OF assms] by blast
  note app = apply_infos_remote [OF rn(1) refl, where now = now and infos = infos]
  note defs = apply_path_infos_def Registry_UpdateRemoteNodeState_def Registry_UpdateRemoteNodeMetadata_def Let_def
  show "states_at (apply_path_infos config now nodeID infos s) nodeID q =
      (case last_info infos q of Some p \<Rightarrow> Some (heard_state now p) | None \<Rightarrow> states_at s nodeID q)"
    using app(1) rn(2) by (auto simp: defs split: option.split)
  show "map_of (remote_of (apply_path_infos config now nodeID infos s)) nodeID \<noteq> None"
    using app(1) by (auto simp: defs)
  show "map_of (remote_of (apply_path_infos config now nodeID infos s)) k = map_of (remote_of s) k" if "k \<noteq> nodeID"
    using app(2) [OF that] ensure_remote_node_cases(2) [OF assms that] by (simp add: defs)
  show "sy_peers (apply_path_infos config now nodeID infos s) = sy_peers s"
    using ensure_remote_node_cases(3) [OF assms] by (simp add: defs)
qed

lemma fold_RemoveEndpoint_states:
  "Option.bind (map_of (fold (RemoteNodeStore_RemoveEndpoint n) ps t) n) (\<lambda>rn. map_of (rn_EndpointStates rn) q) =
     (if q \<in> set ps then None else Option.bind (map_of t n) (\<lambda>rn. map_of (rn_EndpointStates rn) q))"
proof (induction ps arbitrary: t)
  case (Cons p ps)
  have "Option.bind (map_of (RemoteNodeStore_RemoveEndpoint n p t) n) (\<lambda>rn. map_of (rn_EndpointStates rn) q) =
      (if q = p then None else Option.bind (map_of t n) (\<lambda>rn. map_of (rn_EndpointStates rn) q))"
    by (auto simp: RemoteNodeStore_RemoveEndpoint_def map_of_update map_of_delete split: option.split)
  then show ?case using Cons.IH by (auto split: if_splits)
qed simp

lemma fold_RemoveEndpoint_other: "k \<noteq> n \<Longrightarrow> map_of (fold (RemoteNodeStore_RemoveEndpoint n) ps t) k = map_of t k"
  by (induction ps arbitrary: t) (simp_all add: RemoteNodeStore_RemoveEndpoint_def map_of_update split: option.split)

text \<open>
  C16: A state message from a known peer. The message touches only the sender's entry; the paths it
  deletes are gone; each other path it announces has the state of its last announcement in the
  message, seen now and marked healthy; all other paths of the sender are as before, and a sender
  that was not in the remote table is put there as soon as it announces a path. A message that says the
  node leaves removes it from both tables.
\<close>

theorem state_message_exact:
  assumes "map_of (sy_peers s) (gm_NodeID msg) = Some peer"
  shows "(\<forall>k. k \<noteq> gm_NodeID msg \<longrightarrow>
       map_of (remote_of (HandleStateMessage config now msg s)) k = map_of (remote_of s) k \<and>
       map_of (sy_peers (HandleStateMessage config now msg s)) k = map_of (sy_peers s) k) \<and>
    (if gm_DeletedNode msg then
       map_of (remote_of (HandleStateMessage config now msg s)) (gm_NodeID msg) = None \<and>
       map_of (sy_peers (HandleStateMessage config now msg s)) (gm_NodeID msg) = None
     else
       (gm_PathInfos msg \<noteq> [] \<longrightarrow> map_of (remote_of (HandleStateMessage config now msg s)) (gm_NodeID msg) \<noteq> None) \<and>
       (\<forall>q. states_at (HandleStateMessage config now msg s) (gm_NodeID msg) q =
          (if q \<in> set (gm_DeletedPaths msg) then None
           else case last_info (gm_PathInfos msg) q of Some p \<Rightarrow> Some (heard_state now p)
                | None \<Rightarrow> states_at s (gm_NodeID msg) q)))"
proof -
  let ?n = "gm_NodeID msg"
  define s1 where "s1 = (if gm_PathInfos msg \<noteq> [] then apply_path_infos config now ?n (gm_PathInfos msg) s else s)"
  define s2 where "s2 = s1\<lparr>sy_registry := fold (Registry_RemoveRemoteEndpoint ?n) (gm_DeletedPaths msg) (sy_registry s1)\<rparr>"
  have s': "HandleStateMessage config now msg s = (if gm_DeletedNode msg then RemovePeer ?n s2 else s2)"
    by (simp add: HandleStateMessage_alt s1_def s2_def Let_def)
  note app = apply_path_infos_effect [OF assms]
  have s1: "states_at s1 ?n q = (case last_info (gm_PathInfos msg) q of Some p \<Rightarrow> Some (heard_state now p) | None \<Rightarrow> states_at s ?n q)"
    "sy_peers s1 = sy_peers s" "gm_PathInfos msg \<noteq> [] \<Longrightarrow> map_of (remote_of s1) ?n \<noteq> None" for q
    using app(1,2,4) by (simp_all add: s1_def last_info_def)
  have s1k: "map_of (remote_of s1) k = map_of (remote_of s) k" if "k \<noteq> ?n" for k
    using app(3) [OF that] by (simp add: s1_def)
  have r2: "remote_of s2 = fold (RemoteNodeStore_RemoveEndpoint ?n) (gm_DeletedPaths msg) (remote_of s1)"
    by (simp add: s2_def RemoveEndpoints_remote)
  have "states_at s2 ?n q = (if q \<in> set (gm_DeletedPaths msg) then None else states_at s1 ?n q)" for q
    unfolding r2 by (rule fold_RemoveEndpoint_states)
  moreover have "map_of (remote_of s2) k = map_of (remote_of s) k" if "k \<noteq> ?n" for k
    unfolding r2 using fold_RemoveEndpoint_other [OF that] s1k [OF that] by simp
  moreover have "gm_PathInfos msg \<noteq> [] \<Longrightarrow> map_of (remote_of s2) ?n \<noteq> None"
    using s1(3) dom_fold_RemoveEndpoint [of ?n "gm_DeletedPaths msg" "remote_of s1"] unfolding r2 by (metis domIff)
  moreover have "sy_peers s2 = sy_peers s" using s1(2) by (simp add: s2_def)
  ultimately show ?thesis
    using s1(1) by (simp add: s' RemovePeer_def Registry_RemoveRemoteNode_def RemoteNodeStore_Delete_def map_of_delete)
qed


definition sample_info :: "string \<Rightarrow> bool \<Rightarrow> PathInfo" where
  "sample_info path healthy =
     \<lparr>pi_ServiceID = '''', pi_ServicePath = '''', pi_NodePath = path, pi_Active = 1, pi_QueueLen = 0, pi_Healthy = healthy,
      pi_MaxConcurrent = 4, pi_Plugin = False\<rparr>"

lemma sample_sync_peer: "\<exists>peer. map_of (sy_peers sample_sync) ''n2'' = Some peer"
  by (simp add: sample_sync_def AddPeer_def addPeerLocked_def Sync_New_def map_of_update split: prod.split)

theorem state_message_exact_witness:
  "states_at (HandleStateMessage (load_config sample_env) 9
      (empty_message\<lparr>gm_NodeID := ''n2'', gm_PathInfos := [sample_info ''/v1/'' False]\<rparr>) sample_sync) ''n2'' ''/v1/'' =
   Some (heard_state 9 (sample_info ''/v1/'' False))"
proof -
  let ?msg = "empty_message\<lparr>gm_NodeID := ''n2'', gm_PathInfos := [sample_info ''/v1/'' False]\<rparr>"
  obtain peer where "map_of (sy_peers sample_sync) (gm_NodeID ?msg) = Some peer" using sample_sync_peer by auto
  from state_message_exact [OF this, of "load_config sample_env" 9] show ?thesis
    by (simp add: empty_message_def last_info_def sample_info_def)
qed

text \<open>An endpoint announced as unhealthy is recorded as healthy: \<open>UpdateMetadata\<close> runs after \<open>UpdateState\<close> and overwrites it.\<close>

lemma unhealthy_announced_healthy:
  assumes "map_of (sy_peers s) nodeID = Some peer" and "last_info infos q = Some p" and "\<not> pi_Healthy p"
  shows "\<exists>st. states_at (apply_path_infos config now nodeID infos s) nodeID q = Some st \<and> es_Healthy st"
  using apply_path_infos_effect(1) [OF assms(1)] assms(2) by (simp add: heard_state_def)

section \<open>Ports\<close>

text \<open>
  For the documented form \<open>:p\<close> of the listen address the server always listens on 15051, while peers
  address it on \<open>p+1\<close>: they meet only on the default port. For \<open>host:p\<close> it is the other way round.
\<close>

lemma gossip_ports_differ:
  assumes "1 \<le> p" and "p \<le> 65535"
  shows "cfg_ListenAddr config = '':'' @ Itoa p \<Longrightarrow> gossip_listen_port config = 15051 \<and> gossip_peer_port config = p + 1"
    and "cfg_ListenAddr config = host @ '':'' @ Itoa p \<Longrightarrow> host \<noteq> '''' \<Longrightarrow> hd host \<noteq> CHR '':'' \<Longrightarrow>
      gossip_listen_port config = p + 1 \<and> gossip_peer_port config = 1"
proof -
  have no: "CHR '':'' \<notin> set (Itoa p)" using assms by (simp add: Itoa_no_colon)
  have port: "sscanf_port (CHR '':'' # Itoa p) = p" using assms by (simp add: sscanf_port_colon i64_max_def)
  show "gossip_listen_port config = 15051 \<and> gossip_peer_port config = p + 1" if "cfg_ListenAddr config = '':'' @ Itoa p"
    using that port LastIndex_append [OF no, of "[]"] by (simp add: gossip_listen_port_def gossip_peer_port_def)
  show "gossip_listen_port config = p + 1 \<and> gossip_peer_port config = 1"
    if "cfg_ListenAddr config = host @ '':'' @ Itoa p" "host \<noteq> ''''" "hd host \<noteq> CHR '':''"
    using that port LastIndex_append [OF no, of host] assms(1) sscanf_port_no_colon [of "host @ '':'' @ Itoa p"]
    by (simp add: gossip_listen_port_def gossip_peer_port_def)
qed

text \<open>A second \<open>Shutdown\<close> closes the closed channel; the gateway runs it explicitly and again as a deferred call.\<close>

lemma double_shutdown_panics: "snd (GossipServer_Shutdown config True s) = None"
  by (simp add: GossipServer_Shutdown_def)

text \<open>The announcement of a new peer carries no sender, so the receiver ignores it.\<close>

lemma peer_announce_ignored:
  assumes "post \<in> set (notifyPeersOfNewNode config n a s)"
  shows "snd (handleGossipSync config' now r (Some (po_msg post)) s') = (s', [])"
  using assms
  by (auto simp: notifyPeersOfNewNode_def PostToPeerAsync_def empty_message_def handleGossipSync_def Let_def
      split: prod.split bool.split)


end
