(* ===== verification/Gateway.thy ===== *)
theory Gateway
  imports Gossip
begin

text \<open>
  \<open>cmd/gateway/main.go\<close>: the ports the program looks at before it starts, what it does when one is taken,
  the figures it announces to its peers in every interval, and the monitor that restarts its servers. Whether a
  port can be listened on and whether the admin server answers its health check are arguments.
\<close>

declare map_of_eq_Some_iff [simp del] Some_eq_map_of_iff [simp del]

section \<open>Ports\<close>

record portInfo =
  pt_port :: int
  pt_name :: string

definition port_name :: "string list \<Rightarrow> nat \<Rightarrow> string" where
  "port_name names i = (if i < length names then names ! i else ''unknown'')"

definition checkPorts :: "(int \<Rightarrow> bool) \<Rightarrow> int list \<Rightarrow> string list \<Rightarrow> int list \<times> portInfo list" where
  "checkPorts listen ports names =
     foldl (\<lambda>(available, unavailable) (i, port).
         if \<not> listen port then (available, unavailable @ [\<lparr>pt_port = port, pt_name = port_name names i\<rparr>])
         else (available @ [port], unavailable))
       ([], []) (enumerate 0 ports)"

definition getPortList :: "portInfo list \<Rightarrow> string" where
  "getPortList ports =
     foldl (\<lambda>result (i, p). (if i > 0 then result @ '', '' else result) @ Itoa (pt_port p)) '''' (enumerate (0 :: nat) ports)"

text \<open>
  \<open>killPort\<close>: up to three rounds of looking at the port, killing, and looking again. \<open>listen\<close> says what
  the n-th look finds; the result is how often the kill command was run.
\<close>

fun kill_rounds :: "nat \<Rightarrow> (nat \<Rightarrow> bool) \<Rightarrow> nat \<Rightarrow> nat" where
  "kill_rounds 0 listen n = 0"
| "kill_rounds (Suc k) listen n =
     (if listen n then 0 else if listen (Suc n) then 1 else Suc (kill_rounds k listen (Suc (Suc n))))"

definition killPort :: "(nat \<Rightarrow> bool) \<Rightarrow> nat" where
  "killPort listen = kill_rounds 3 listen 0"

definition bind_port :: "Config \<Rightarrow> int" where
  "bind_port config = (let bindPort = sscanf_port (cfg_ListenAddr config) in if bindPort \<le> 0 then 15050 else bindPort)"

definition checked_ports :: "Config \<Rightarrow> int list" where
  "checked_ports config =
     (let bindPort = bind_port config; adminPort = bindPort - 1; gossipPort = bindPort - 2; udpPort = bindPort + 2
      in [bindPort, adminPort, gossipPort, udpPort])"

text \<open>The outcome of the check: an error, or the ports found free and those whose users are killed.\<close>

datatype PortCheck = PortsInUse string | PortsChecked "int list" "int list"

definition port_check :: "(int \<Rightarrow> bool) \<Rightarrow> bool \<Rightarrow> Config \<Rightarrow> PortCheck" where
  "port_check listen forceRun config =
     (let (available, unavailable) = checkPorts listen (checked_ports config) [''business'', ''admin'', ''gossip'', ''UDP discovery'']
      in if length unavailable > 0 \<and> \<not> forceRun
         then PortsInUse (''ports '' @ getPortList unavailable @ '' are already in use'')
         else PortsChecked available (map pt_port unavailable))"

section \<open>The announcement of every interval\<close>

definition gossip_states :: "Registry \<Rightarrow> EndpointMetrics gomap" where
  "gossip_states reg =
     fold (\<lambda>(_, agg). AList.update (agg_NodePath agg)
         \<lparr>em_ServiceID = '''', em_ServicePath = '''', em_NodePath = agg_NodePath agg, em_Active = agg_Active agg, em_QueueLen = agg_QueueLen agg,
          em_Healthy = agg_Healthy agg, em_MaxConcurrent = agg_MaxConcurrent agg, em_Plugin = agg_Plugin agg\<rparr>)
       (Registry_AggregateLocalPathInfos reg) []"

definition state_round :: "Config \<Rightarrow> Sync \<Rightarrow> PoolManager \<Rightarrow> PoolManager \<times> Post list" where
  "state_round config s m = (SnapshotRemoteActives m, BroadcastState config (gossip_states (sy_registry s)) s)"

section \<open>The monitor\<close>

text \<open>The health request: it fails, or is answered with a status.\<close>

definition checkServiceHealth :: "(string \<Rightarrow> int option) \<Rightarrow> string \<Rightarrow> bool" where
  "checkServiceHealth get url = (case get url of None \<Rightarrow> False | Some code \<Rightarrow> code = 200)"

datatype Restart = RestartAdmin | RestartBusiness

definition monitor_addr :: "Config \<Rightarrow> string" where
  "monitor_addr config = ''127.0.0.1:'' @ Itoa (sscanf_port (cfg_ListenAddr config) - 1)"

definition monitor_tick :: "(string \<Rightarrow> int option) \<Rightarrow> string \<Rightarrow> Restart list" where
  "monitor_tick get adminAddr =
     (if \<not> checkServiceHealth get (''http://'' @ adminAddr @ ''/health'') then [RestartAdmin, RestartBusiness] else [])"

section \<open>Properties\<close>

lemma checkPorts_split:
  "checkPorts listen ports names =
     (filter listen ports,
      map (\<lambda>(i, port). \<lparr>pt_port = port, pt_name = port_name names i\<rparr>) (filter (\<lambda>(i, port). \<not> listen port) (enumerate 0 ports)))"
proof -
  have "foldl (\<lambda>(available, unavailable) (i, port).
         if \<not> listen port then (available, unavailable @ [\<lparr>pt_port = port, pt_name = port_name names i\<rparr>])
         else (available @ [port], unavailable)) (a, u) (enumerate n ports) =
      (a @ filter listen ports,
       u @ map (\<lambda>(i, port). \<lparr>pt_port = port, pt_name = port_name names i\<rparr>) (filter (\<lambda>(i, port). \<not> listen port) (enumerate n ports)))" for a u n
    by (induction ports arbitrary: a u n) simp_all
  from this [of "[]" "[]" 0] show ?thesis by (simp add: checkPorts_def)
qed

text \<open>Killing takes at most three commands, and fewer than three only when the port came free.\<close>

lemma kill_rounds_bounded: "kill_rounds k listen n \<le> k \<and> (kill_rounds k listen n < k \<longrightarrow> (\<exists>j < 2 * k. listen (n + j)))"
proof (induction k listen n rule: kill_rounds.induct)
  case (2 k listen n)
  have "\<exists>j < 2 * Suc k. listen (n + j)" if less: "kill_rounds (Suc k) listen n < Suc k"
  proof (cases "listen n \<or> listen (Suc n)")
    case True
    then show ?thesis
    proof
      assume "listen n"
      then show ?thesis by (intro exI [of _ 0]) simp
    next
      assume "listen (Suc n)"
      then show ?thesis by (intro exI [of _ 1]) simp
    qed
  next
    case False
    then obtain j where "j < 2 * k" "listen (Suc (Suc n) + j)" using 2 less by auto
    then show ?thesis by (intro exI [of _ "j + 2"]) simp
  qed
  then show ?case using 2 by auto
qed simp

lemma killPort_bounded: "killPort listen \<le> 3 \<and> (killPort listen < 3 \<longrightarrow> (\<exists>n < 6. listen n))"
  using kill_rounds_bounded [of 3 listen 0] by (simp add: killPort_def)

text \<open>
  The port that is looked at for gossip is not the one the gossip server opens: for a listen address
  \<open>:p\<close> it looks at \<open>p - 2\<close>, and the server opens 15051.
\<close>

lemma gossip_port_not_checked:
  assumes "1 \<le> p" and "p \<le> 65535" and "cfg_ListenAddr config = '':'' @ Itoa p" and "p \<notin> {15049, 15051, 15052, 15053}"
  shows "gossip_listen_port config \<notin> set (checked_ports config)"
proof -
  have "sscanf_port (CHR '':'' # Itoa p) = p" using assms(1,2) by (simp add: sscanf_port_colon i64_max_def)
  then show ?thesis
    using gossip_ports_differ(1) [OF assms(1-3)] assms(1,3,4) by (auto simp: checked_ports_def bind_port_def Let_def)
qed

section \<open>Announcements carry the aggregate\<close>

lemma aggregate_wf: "wf_map (foldl aggregate_step m eps)" if "wf_map m"
  using that by (induction eps arbitrary: m) (simp_all add: aggregate_step_def Let_def wf_map_update)

lemma aggregate_keys:
  assumes "(p, agg) \<in> set (Registry_AggregateLocalPathInfos reg)"
  shows "agg_NodePath agg = p"
proof -
  have "map_of (Registry_AggregateLocalPathInfos reg) p = Some agg"
    using assms wf_map_iff [OF aggregate_wf, of "[]" p agg "Registry_ListEndpoints reg"] by (simp add: Registry_AggregateLocalPathInfos_def)
  then show ?thesis
    by (auto simp: Registry_AggregateLocalPathInfos_def aggregate_fold aggregate_of_def split: if_splits)
qed

lemma fold_update_distinct:
  "distinct (map fst m @ map fst xs) \<Longrightarrow> fold (\<lambda>(k, v). AList.update k (f v)) xs m = m @ map (\<lambda>(k, v). (k, f v)) xs"
proof (induction xs arbitrary: m)
  case (Cons e xs)
  obtain k v where e: "e = (k, v)" by (cases e)
  have "k \<notin> fst ` set m" using Cons.prems by (auto simp: e)
  then have "AList.update k (f v) m = m @ [(k, f v)]" by (induction m) auto
  then show ?case using Cons.IH [of "m @ [(k, f v)]"] Cons.prems by (simp add: e)
qed simp

text \<open>
  The periodic announcement and the announcement after a change are the same message: the exact aggregate of
  every local path.
\<close>

lemma state_round_is_sync: "snd (state_round config s m) = BroadcastSync config s"
proof -
  let ?agg = "Registry_AggregateLocalPathInfos (sy_registry s)"
  let ?f = "\<lambda>agg. \<lparr>em_ServiceID = '''', em_ServicePath = '''', em_NodePath = agg_NodePath agg, em_Active = agg_Active agg, em_QueueLen = agg_QueueLen agg,
          em_Healthy = agg_Healthy agg, em_MaxConcurrent = agg_MaxConcurrent agg, em_Plugin = agg_Plugin agg\<rparr>"
  have "fold (\<lambda>(_, agg). AList.update (agg_NodePath agg) (?f agg)) ?agg [] = fold (\<lambda>(k, agg). AList.update k (?f agg)) ?agg []"
    by (rule fold_cong) (auto dest: aggregate_keys)
  also have "\<dots> = map (\<lambda>(k, agg). (k, ?f agg)) ?agg"
    using fold_update_distinct [of "[]" ?agg ?f] aggregate_wf [of "[]" "Registry_ListEndpoints (sy_registry s)"]
    by (simp add: Registry_AggregateLocalPathInfos_def)
  finally have "gossip_states (sy_registry s) = map (\<lambda>(k, agg). (k, ?f agg)) ?agg" by (simp add: gossip_states_def)
  then show ?thesis
    by (simp add: state_round_def BroadcastState_def BroadcastSync_def sync_message_def path_info_of_def Let_def comp_def case_prod_unfold)
qed

end
