(* ===== verification/Discovery.thy ===== *)
theory Discovery
  imports Config
begin

text \<open>
  \<open>internal/gossip/discovery/discovery.go\<close>: presence announcements over UDP and the list of candidate
  nodes. The socket is outside the model: a datagram is its source address and its decoded message, if it
  decodes. HMAC-SHA256 is an argument \<open>hmac key text\<close> that returns the digest's bytes; everything below
  holds for whatever function it is. The candidate list is guarded by a one-slot channel, so its
  operations are atomic.
\<close>

section \<open>Definitions\<close>

record NodeInfo =
  dn_NodeID :: string
  dn_AdminAddr :: string
  dn_DiscPort :: int
  dn_LastSeen :: time

record BroadcastMessage =
  bm_Type :: string
  bm_NodeID :: string
  bm_Addr :: string
  bm_BasePort :: int
  bm_DiscPort :: int
  bm_AuthHash :: string

definition DiscPortOffset :: int where "DiscPortOffset = 2"
definition DiscoveryPort :: int where "DiscoveryPort = 15052"
definition DiscoveryPortUsed :: bool where "DiscoveryPortUsed = True"
definition candidateTimeout :: duration where "candidateTimeout = seconds 60"

definition GetBroadcastPort :: "Config \<Rightarrow> int" where
  "GetBroadcastPort config = (if DiscoveryPortUsed then sscanf_port (cfg_ListenAddr config) + DiscPortOffset else DiscoveryPort)"

definition EncodeToString :: "8 word list \<Rightarrow> string" where
  "EncodeToString bs = concat (map (\<lambda>b. hex_padded 2 (unat b)) bs)"

definition computeAuthHash :: "(string \<Rightarrow> string \<Rightarrow> 8 word list) \<Rightarrow> string \<Rightarrow> string \<Rightarrow> string \<Rightarrow> string" where
  "computeAuthHash hmac nodeID addr apiKey = (if apiKey = '''' then '''' else EncodeToString (hmac apiKey (nodeID @ addr)))"

definition verifyAuthHash :: "(string \<Rightarrow> string \<Rightarrow> 8 word list) \<Rightarrow> string \<Rightarrow> string \<Rightarrow> string \<Rightarrow> string \<Rightarrow> bool" where
  "verifyAuthHash hmac nodeID addr authHash apiKey =
     (if apiKey = '''' then True else authHash = computeAuthHash hmac nodeID addr apiKey)"

text \<open>The announcement that \<open>broadcastPresence\<close> sends three times to the broadcast address.\<close>

definition presence :: "(string \<Rightarrow> string \<Rightarrow> 8 word list) \<Rightarrow> Config \<Rightarrow> BroadcastMessage" where
  "presence hmac config =
     \<lparr>bm_Type = ''announce'', bm_NodeID = cfg_NodeID config, bm_Addr = '''',
      bm_BasePort = sscanf_port (cfg_ListenAddr config), bm_DiscPort = GetBroadcastPort config,
      bm_AuthHash = computeAuthHash hmac (cfg_NodeID config) '''' (cfg_APIKey config)\<rparr>"

text \<open>
  \<open>addCandidate\<close>: the first entry with the node's id is refreshed, otherwise the node is appended and the
  join callback is started with its id and address.
\<close>

fun refresh_candidate :: "time \<Rightarrow> NodeInfo \<Rightarrow> NodeInfo list \<Rightarrow> NodeInfo list" where
  "refresh_candidate now n [] = []"
| "refresh_candidate now n (c # cs) =
     (if dn_NodeID c = dn_NodeID n then c\<lparr>dn_LastSeen := now, dn_AdminAddr := dn_AdminAddr n\<rparr> # cs
      else c # refresh_candidate now n cs)"

definition addCandidate :: "time \<Rightarrow> NodeInfo \<Rightarrow> NodeInfo list \<Rightarrow> NodeInfo list \<times> (string \<times> string) list" where
  "addCandidate now n cs =
     (if \<exists>c \<in> set cs. dn_NodeID c = dn_NodeID n then (refresh_candidate now n cs, [])
      else (cs @ [n], [(dn_NodeID n, dn_AdminAddr n)]))"

text \<open>One datagram through the body of the listener's loop.\<close>

definition receive_datagram ::
    "(string \<Rightarrow> string \<Rightarrow> 8 word list) \<Rightarrow> Config \<Rightarrow> time \<Rightarrow> string \<times> BroadcastMessage option \<Rightarrow> NodeInfo list \<Rightarrow>
     NodeInfo list \<times> (string \<times> string) list" where
  "receive_datagram hmac config now dgram cs =
     (case dgram of
        (srcIP, None) \<Rightarrow> (cs, [])
      | (srcIP, Some msg) \<Rightarrow>
          if bm_Type msg \<noteq> ''announce'' then (cs, [])
          else if bm_NodeID msg = cfg_NodeID config then (cs, [])
          else if cfg_APIKey config \<noteq> '''' \<and>
                  \<not> verifyAuthHash hmac (bm_NodeID msg) (bm_Addr msg) (bm_AuthHash msg) (cfg_APIKey config) then (cs, [])
          else
            let adminAddr = (if bm_Addr msg \<noteq> '''' then bm_Addr msg else srcIP)
            in addCandidate now
                 \<lparr>dn_NodeID = bm_NodeID msg, dn_AdminAddr = adminAddr, dn_DiscPort = bm_DiscPort msg, dn_LastSeen = now\<rparr> cs)"

definition cleanupStaleCandidates :: "time \<Rightarrow> NodeInfo list \<Rightarrow> NodeInfo list" where
  "cleanupStaleCandidates now cs = filter (\<lambda>c. \<not> time_sub now (dn_LastSeen c) > candidateTimeout) cs"

text \<open>\<open>startDiscovery\<close> joins every candidate known after the first second.\<close>

definition startDiscovery :: "NodeInfo list \<Rightarrow> (string \<times> string) list" where
  "startDiscovery cs = map (\<lambda>c. (dn_NodeID c, dn_AdminAddr c)) cs"

text \<open>A history of the service: datagrams, cleanups and the end of the first second, with the calls of the join callback.\<close>

datatype disc_event = Datagram time "string \<times> BroadcastMessage option" | Cleanup time | FirstSecond

fun disc_run ::
    "(string \<Rightarrow> string \<Rightarrow> 8 word list) \<Rightarrow> Config \<Rightarrow> disc_event list \<Rightarrow> NodeInfo list \<Rightarrow> NodeInfo list \<times> (string \<times> string) list" where
  "disc_run hmac config [] cs = (cs, [])"
| "disc_run hmac config (Datagram now d # es) cs =
     (let (cs1, j1) = receive_datagram hmac config now d cs; (cs2, j2) = disc_run hmac config es cs1 in (cs2, j1 @ j2))"
| "disc_run hmac config (Cleanup now # es) cs = disc_run hmac config es (cleanupStaleCandidates now cs)"
| "disc_run hmac config (FirstSecond # es) cs = (let (cs1, j1) = disc_run hmac config es cs in (cs1, startDiscovery cs @ j1))"

section \<open>Authentic candidates\<close>

lemma refresh_candidate_ids [simp]: "map dn_NodeID (refresh_candidate now n cs) = map dn_NodeID cs"
  by (induction cs) auto

lemma refresh_candidate_addrs:
  "c \<in> set (refresh_candidate now n cs) \<Longrightarrow>
   c \<in> set cs \<or> (dn_NodeID c = dn_NodeID n \<and> dn_AdminAddr c = dn_AdminAddr n)"
  by (induction cs) (auto split: if_splits)

text \<open>Whose announcement was accepted: the message is genuine and gives the recorded address.\<close>

definition announced :: "(string \<Rightarrow> string \<Rightarrow> 8 word list) \<Rightarrow> Config \<Rightarrow> disc_event set \<Rightarrow> string \<times> string \<Rightarrow> bool" where
  "announced hmac config E na \<longleftrightarrow>
     fst na \<noteq> cfg_NodeID config \<and>
     (\<exists>now srcIP msg. Datagram now (srcIP, Some msg) \<in> E \<and> bm_Type msg = ''announce'' \<and> bm_NodeID msg = fst na \<and>
        snd na = (if bm_Addr msg \<noteq> '''' then bm_Addr msg else srcIP) \<and>
        (cfg_APIKey config \<noteq> '''' \<longrightarrow>
           bm_AuthHash msg = EncodeToString (hmac (cfg_APIKey config) (bm_NodeID msg @ bm_Addr msg))))"

definition cands_ok :: "(string \<Rightarrow> string \<Rightarrow> 8 word list) \<Rightarrow> Config \<Rightarrow> disc_event set \<Rightarrow> NodeInfo list \<Rightarrow> bool" where
  "cands_ok hmac config E cs \<longleftrightarrow>
     distinct (map dn_NodeID cs) \<and> (\<forall>c \<in> set cs. announced hmac config E (dn_NodeID c, dn_AdminAddr c))"

lemma cands_ok_cleanup: "cands_ok hmac config E cs \<Longrightarrow> cands_ok hmac config E (cleanupStaleCandidates now cs)"
  by (auto simp: cands_ok_def cleanupStaleCandidates_def distinct_map_filter)

lemma cands_ok_add:
  assumes "cands_ok hmac config E cs" and "announced hmac config E (dn_NodeID n, dn_AdminAddr n)"
    and "addCandidate now n cs = (cs', js)"
  shows "cands_ok hmac config E cs' \<and> (\<forall>j \<in> set js. announced hmac config E j)"
  using assms refresh_candidate_addrs [of _ now n cs]
  by (fastforce simp: cands_ok_def addCandidate_def split: if_splits)

lemma receive_datagram_ok:
  assumes "cands_ok hmac config E cs" and "Datagram now d \<in> E" and "receive_datagram hmac config now d cs = (cs', js)"
  shows "cands_ok hmac config E cs' \<and> (\<forall>j \<in> set js. announced hmac config E j)"
proof -
  obtain srcIP m where d: "d = (srcIP, m)" by (cases d)
  show ?thesis
  proof (cases "cs' = cs \<and> js = []")
    case True
    then show ?thesis using assms(1) by simp
  next
    case False
    then obtain msg where m: "m = Some msg" using assms(3) d by (cases m) (auto simp: receive_datagram_def)
    let ?n = "\<lparr>dn_NodeID = bm_NodeID msg, dn_AdminAddr = (if bm_Addr msg \<noteq> '''' then bm_Addr msg else srcIP),
      dn_DiscPort = bm_DiscPort msg, dn_LastSeen = now\<rparr>"
    have c: "bm_Type msg = ''announce''" "bm_NodeID msg \<noteq> cfg_NodeID config"
      "cfg_APIKey config = '''' \<or> verifyAuthHash hmac (bm_NodeID msg) (bm_Addr msg) (bm_AuthHash msg) (cfg_APIKey config)"
      and r: "addCandidate now ?n cs = (cs', js)"
      using False assms(3) by (auto simp: receive_datagram_def d m Let_def split: if_splits)
    have "announced hmac config E (dn_NodeID ?n, dn_AdminAddr ?n)"
      unfolding announced_def
    proof (intro conjI exI)
      show "Datagram now (srcIP, Some msg) \<in> E" using assms(2) d m by simp
      show "cfg_APIKey config \<noteq> [] \<longrightarrow>
          bm_AuthHash msg = EncodeToString (hmac (cfg_APIKey config) (bm_NodeID msg @ bm_Addr msg))"
        using c(3) by (auto simp: verifyAuthHash_def computeAuthHash_def)
    qed (use c in simp_all)
    then show ?thesis using cands_ok_add [OF assms(1) _ r] by blast
  qed
qed

lemma disc_run_ok:
  assumes "cands_ok hmac config E cs" and "set es \<subseteq> E" and "disc_run hmac config es cs = (cs', js)"
  shows "cands_ok hmac config E cs' \<and> (\<forall>j \<in> set js. announced hmac config E j)"
  using assms
proof (induction hmac config es cs arbitrary: cs' js rule: disc_run.induct)
  case (2 hmac config now d es cs)
  obtain cs1 j1 where r: "receive_datagram hmac config now d cs = (cs1, j1)" by fastforce
  obtain cs2 j2 where q: "disc_run hmac config es cs1 = (cs2, j2)" by fastforce
  have "cands_ok hmac config E cs1" "\<forall>j \<in> set j1. announced hmac config E j"
    using receive_datagram_ok [OF 2(2) _ r] 2(3) by auto
  then show ?case using 2(1) [OF r [symmetric] refl, of cs2 j2] 2(3,4) r q by auto
next
  case (3 hmac config now es cs)
  then show ?case using cands_ok_cleanup by simp
next
  case (4 hmac config es cs)
  obtain cs1 j1 where r: "disc_run hmac config es cs = (cs1, j1)" by fastforce
  then show ?case using 4(1) [of cs1 j1] 4(2,3,4) by (auto simp: cands_ok_def startDiscovery_def)
qed auto

text \<open>
  Whatever datagrams arrive, in any order and mixed with cleanups and the start, the candidates have distinct ids,
  never include the node itself, and each candidate and each call of the join callback goes back to
  an announcement with that id and address whose authentication hash is the one computed with the
  node's own API key, when one is configured.
\<close>

theorem discovery_authentic:
  assumes "disc_run hmac config es [] = (cs, joins)"
  shows "distinct (map dn_NodeID cs) \<and>
    (\<forall>na \<in> set joins \<union> set (startDiscovery cs). announced hmac config (set es) na)"
proof -
  have "cands_ok hmac config (set es) []" by (simp add: cands_ok_def)
  from disc_run_ok [OF this subset_refl assms] show ?thesis by (auto simp: cands_ok_def startDiscovery_def)
qed

definition sample_announce :: BroadcastMessage where
  "sample_announce =
     \<lparr>bm_Type = ''announce'', bm_NodeID = ''n2'', bm_Addr = '''', bm_BasePort = 15050, bm_DiscPort = 15052, bm_AuthHash = ''''\<rparr>"

theorem discovery_authentic_witness:
  "\<exists>cs. disc_run (\<lambda>_ _. []) (load_config sample_env) [Datagram 5 (''10.0.0.2'', Some sample_announce)] [] =
      (cs, [(''n2'', ''10.0.0.2'')]) \<and>
    announced (\<lambda>_ _. []) (load_config sample_env) {Datagram 5 (''10.0.0.2'', Some sample_announce)} (''n2'', ''10.0.0.2'')"
proof -
  have "load_node_id sample_env \<noteq> ''n2''"
    by (simp add: load_node_id_def sample_env_def flag_viper_def AddFlags_def getNodeIDFromMAC_def)
  then have "\<exists>cs. disc_run (\<lambda>_ _. []) (load_config sample_env) [Datagram 5 (''10.0.0.2'', Some sample_announce)] [] =
      (cs, [(''n2'', ''10.0.0.2'')])"
    by (simp add: receive_datagram_def sample_announce_def verifyAuthHash_def computeAuthHash_def EncodeToString_def addCandidate_def Let_def)
  then show ?thesis using discovery_authentic [of "\<lambda>_ _. []" "load_config sample_env"
      "[Datagram 5 (''10.0.0.2'', Some sample_announce)]"] by fastforce
qed

text \<open>
  The hash covers the bare concatenation of id and address, so a genuine announcement can be replayed
  with the boundary moved: a prefix of the id as the id and the rest as the address.
\<close>

lemma auth_hash_ambiguous:
  "verifyAuthHash hmac (nodeID @ addr) '''' h key = verifyAuthHash hmac nodeID addr h key"
  by (simp add: verifyAuthHash_def computeAuthHash_def)

end
