(* ===== verification/Discovery_Service.thy ===== *)
theory Discovery_Service
  imports Discovery
begin

text \<open>
  The running discovery service (\<open>internal/gossip/discovery/discovery.go\<close>: \<open>New\<close>, \<open>Start\<close>, \<open>Stop\<close>, \<open>startUDPListener\<close>,
  \<open>broadcastPresence\<close> and the periodic loops): the listener's goroutine with its socket, the list of
  candidates and the channel that ends the service, interleaved with \<open>Stop\<close>. The network is nondeterministic: opening the
  socket, reading and writing may fail at any time.
\<close>

section \<open>Announcing\<close>

text \<open>
  \<open>broadcastPresence\<close>: nothing is sent when the address cannot be resolved or the connection not made; otherwise the
  announcement is written three times, up to the first failing write. The result is what was sent where.
\<close>

definition broadcast_addr :: "Config \<Rightarrow> string" where
  "broadcast_addr config = ''255.255.255.255:'' @ Itoa (GetBroadcastPort config)"

definition broadcastPresence ::
    "(string \<Rightarrow> string \<Rightarrow> 8 word list) \<Rightarrow> Config \<Rightarrow> bool \<Rightarrow> (nat \<Rightarrow> bool) \<Rightarrow> (string \<times> BroadcastMessage) list" where
  "broadcastPresence hmac config dial write =
     (if \<not> dial then [] else map (\<lambda>_. (broadcast_addr config, presence hmac config)) (takeWhile write [0..<3]))"

text \<open>\<open>discoverNewNodes\<close> names the candidates in the log and does nothing else.\<close>

definition discoverNewNodes :: "Config \<Rightarrow> NodeInfo list \<Rightarrow> NodeInfo list" where
  "discoverNewNodes config cs = filter (\<lambda>c. dn_NodeID c \<noteq> cfg_NodeID config) cs"

lemma broadcastPresence_bounded:
  "length (broadcastPresence hmac config dial write) \<le> 3 \<and>
   (dial \<and> (\<forall>n. write n) \<longrightarrow> length (broadcastPresence hmac config dial write) = 3) \<and>
   set (broadcastPresence hmac config dial write) \<subseteq> {(broadcast_addr config, presence hmac config)}"
proof -
  have "length (takeWhile write [0..<3]) \<le> length [0..<3]" by (rule length_takeWhile_le)
  moreover have "length (takeWhile write [0..<3]) = 3" if "\<forall>n. write n"
  proof -
    have "takeWhile write [0..<3] = [0..<3]" using that by (simp add: takeWhile_eq_all_conv)
    then show ?thesis by (simp only: length_upt)
  qed
  ultimately show ?thesis by (auto simp: broadcastPresence_def)
qed

text \<open>What a node sends is accepted by every other node with the same key, and by no node as its own.\<close>

lemma presence_accepted:
  assumes "cfg_APIKey a = cfg_APIKey b"
  shows "receive_datagram hmac b now (ip, Some (presence hmac a)) cs =
    (if cfg_NodeID a = cfg_NodeID b then (cs, [])
     else addCandidate now \<lparr>dn_NodeID = cfg_NodeID a, dn_AdminAddr = ip, dn_DiscPort = GetBroadcastPort a, dn_LastSeen = now\<rparr> cs)"
  using assms by (simp add: receive_datagram_def presence_def verifyAuthHash_def)

section \<open>The listener\<close>

datatype Listener = LCheck | LListen | LOpened | LReading | LWaiting | LEnded

datatype UDPConn = NoConn | OpenConn | ClosedConn

text \<open>
  \<open>ds_udpConn\<close> is the field that \<open>Stop\<close> closes. A socket is opened first and assigned to the field after that, so in
  \<open>LOpened\<close> there is an open socket that the field does not show. \<open>ds_starting\<close> is the first second of
  \<open>startDiscovery\<close>, which sleeps and then joins the candidates there are, without a look at the channel.
\<close>

record DiscoveryState =
  ds_candidates :: "NodeInfo list"
  ds_joins :: "(string \<times> string) list"
  ds_done :: bool
  ds_udpConn :: UDPConn
  ds_listener :: Listener
  ds_starting :: bool

definition Discovery_New :: DiscoveryState where
  "Discovery_New = \<lparr>ds_candidates = [], ds_joins = [], ds_done = False, ds_udpConn = NoConn, ds_listener = LCheck, ds_starting = True\<rparr>"

text \<open>\<open>Stop\<close> panics when the channel is closed already.\<close>

definition Discovery_Stop :: "DiscoveryState \<Rightarrow> DiscoveryState option" where
  "Discovery_Stop d =
     (if ds_done d then None
      else Some (d\<lparr>ds_done := True, ds_udpConn := (if ds_udpConn d = OpenConn then ClosedConn else ds_udpConn d)\<rparr>))"

inductive listener_step :: "(string \<Rightarrow> string \<Rightarrow> 8 word list) \<Rightarrow> Config \<Rightarrow> DiscoveryState \<Rightarrow> DiscoveryState \<Rightarrow> bool"
  for hmac :: "string \<Rightarrow> string \<Rightarrow> 8 word list" and config :: Config where
  check_done: "ds_listener d = LCheck \<Longrightarrow> ds_done d \<Longrightarrow> listener_step hmac config d (d\<lparr>ds_listener := LEnded\<rparr>)"
| check: "ds_listener d = LCheck \<Longrightarrow> \<not> ds_done d \<Longrightarrow> listener_step hmac config d (d\<lparr>ds_listener := LListen\<rparr>)"
| listen_fail: "ds_listener d = LListen \<Longrightarrow> listener_step hmac config d (d\<lparr>ds_listener := LWaiting\<rparr>)"
| wait_done: "ds_listener d = LWaiting \<Longrightarrow> ds_done d \<Longrightarrow> listener_step hmac config d (d\<lparr>ds_listener := LEnded\<rparr>)"
| wait_retry: "ds_listener d = LWaiting \<Longrightarrow> listener_step hmac config d (d\<lparr>ds_listener := LCheck\<rparr>)"
| listen: "ds_listener d = LListen \<Longrightarrow> listener_step hmac config d (d\<lparr>ds_listener := LOpened\<rparr>)"
| assign: "ds_listener d = LOpened \<Longrightarrow> listener_step hmac config d (d\<lparr>ds_listener := LReading, ds_udpConn := OpenConn\<rparr>)"
| datagram: "ds_listener d = LReading \<Longrightarrow> ds_udpConn d = OpenConn \<Longrightarrow> receive_datagram hmac config now dg (ds_candidates d) = (cs, js) \<Longrightarrow>
    listener_step hmac config d (d\<lparr>ds_candidates := cs, ds_joins := ds_joins d @ js\<rparr>)"
| read_error: "ds_listener d = LReading \<Longrightarrow> listener_step hmac config d (d\<lparr>ds_listener := LCheck, ds_udpConn := ClosedConn\<rparr>)"

inductive disc_step :: "(string \<Rightarrow> string \<Rightarrow> 8 word list) \<Rightarrow> Config \<Rightarrow> DiscoveryState \<Rightarrow> DiscoveryState \<Rightarrow> bool"
  for hmac :: "string \<Rightarrow> string \<Rightarrow> 8 word list" and config :: Config where
  disc_listener: "listener_step hmac config d d' \<Longrightarrow> disc_step hmac config d d'"
| disc_cleanup: "disc_step hmac config d (d\<lparr>ds_candidates := cleanupStaleCandidates now (ds_candidates d)\<rparr>)"
| disc_first_second: "ds_starting d \<Longrightarrow>
    disc_step hmac config d (d\<lparr>ds_starting := False, ds_joins := ds_joins d @ startDiscovery (ds_candidates d)\<rparr>)"
| disc_stop: "Discovery_Stop d = Some d' \<Longrightarrow> disc_step hmac config d d'"

section \<open>Stopping\<close>

text \<open>The states after a \<open>Stop\<close> that found the listener outside the gap between its check and the assignment.\<close>

definition quiet :: "DiscoveryState \<Rightarrow> bool" where
  "quiet d \<longleftrightarrow> ds_done d \<and> ds_udpConn d \<noteq> OpenConn \<and> ds_listener d \<notin> {LListen, LOpened}"

definition listener_left :: "DiscoveryState \<Rightarrow> nat" where
  "listener_left d = (case ds_listener d of LReading \<Rightarrow> 2 | LWaiting \<Rightarrow> 2 | LCheck \<Rightarrow> 1 | _ \<Rightarrow> 0)"

lemma quiet_listener_step:
  assumes "quiet d" and "listener_step hmac config d d'"
  shows "quiet d' \<and> ds_joins d' = ds_joins d \<and> ds_candidates d' = ds_candidates d \<and> ds_starting d' = ds_starting d \<and> listener_left d' < listener_left d"
  using assms(2,1) by (cases rule: listener_step.cases) (auto simp: quiet_def listener_left_def)

lemma quiet_run:
  assumes "(listener_step hmac config ^^ n) d d'" and "quiet d"
  shows "quiet d' \<and> n + listener_left d' \<le> listener_left d"
  using assms(1)
proof (induction n arbitrary: d')
  case 0
  then show ?case using assms(2) by simp
next
  case (Suc n)
  then obtain e where "(listener_step hmac config ^^ n) d e" "listener_step hmac config e d'" by auto
  then show ?case using Suc.IH [of e] quiet_listener_step [of e] by fastforce
qed

lemma quiet_stuck:
  assumes "quiet d" and "\<nexists>d'. listener_step hmac config d d'"
  shows "ds_listener d = LEnded"
  using assms by (cases "ds_listener d") (auto simp: quiet_def intro: listener_step.intros)

text \<open>What can still be joined after such a \<open>Stop\<close> in state \<open>d\<close>: the candidates of then, by a \<open>startDiscovery\<close> that still sleeps.\<close>

definition late_joins :: "DiscoveryState \<Rightarrow> DiscoveryState \<Rightarrow> bool" where
  "late_joins d e \<longleftrightarrow> set (ds_candidates e) \<subseteq> set (ds_candidates d) \<and> (ds_starting e \<longrightarrow> ds_starting d \<and> ds_joins e = ds_joins d) \<and>
     (\<exists>js. ds_joins e = ds_joins d @ js \<and> set js \<subseteq> set (startDiscovery (ds_candidates d)) \<and> (js \<noteq> [] \<longrightarrow> ds_starting d))"

lemma quiet_disc_step: "disc_step hmac config e e' \<Longrightarrow> quiet e \<Longrightarrow> late_joins d e \<Longrightarrow> quiet e' \<and> late_joins d e'"
proof (induction rule: disc_step.induct)
  case (disc_listener e e')
  then show ?case using quiet_listener_step [of e hmac config e'] by (simp add: late_joins_def)
next
  case (disc_cleanup e now)
  then show ?case by (auto simp: quiet_def late_joins_def cleanupStaleCandidates_def)
next
  case (disc_first_second e)
  then show ?case by (auto simp: quiet_def late_joins_def startDiscovery_def)
qed (auto simp: quiet_def Discovery_Stop_def)


text \<open>\<open>Stop\<close> on a service that waits for its first datagram.\<close>

definition sample_reading :: DiscoveryState where
  "sample_reading = Discovery_New\<lparr>ds_listener := LReading, ds_udpConn := OpenConn\<rparr>"


section \<open>The service refines the history of datagrams\<close>

lemma disc_run_append:
  "disc_run hmac config (es @ es') cs =
     (let (cs1, j1) = disc_run hmac config es cs; (cs2, j2) = disc_run hmac config es' cs1 in (cs2, j1 @ j2))"
  by (induction hmac config es cs rule: disc_run.induct) (auto simp: Let_def split: prod.splits)


lemma sample_reading_reachable: "reach (\<lambda>d. d = Discovery_New) (disc_step hmac config) sample_reading"
proof -
  let ?R = "reach (\<lambda>d. d = Discovery_New) (disc_step hmac config)"
  have next_state: "?R d \<Longrightarrow> listener_step hmac config d d' \<Longrightarrow> ?R d'" for d d' by (auto intro: reach_step disc_listener)
  have "?R Discovery_New" by (rule reach_init) simp
  from next_state [OF this check] have "?R (Discovery_New\<lparr>ds_listener := LListen\<rparr>)" by (simp add: Discovery_New_def)
  from next_state [OF this listen] have "?R (Discovery_New\<lparr>ds_listener := LOpened\<rparr>)" by simp
  from next_state [OF this assign] show ?thesis by (simp add: sample_reading_def)
qed


end
