(* ===== verification/Cluster.thy ===== *)
theory Cluster
  imports Gateway Discovery_Service
begin

text \<open>
  Two nodes together: what one node announces over UDP, how the other joins it, the posts this starts, their
  delivery to the gossip handlers, and what each node then knows of the other's endpoints. A post is delivered by
  a call of the handler at the node its URL names, as an HTTP request from the sender's address.
\<close>

declare map_of_eq_Some_iff [simp del] Some_eq_map_of_iff [simp del]

section \<open>Announcements\<close>

lemma map_of_rev_distinct: "distinct (map fst m) \<Longrightarrow> map_of (rev m) k = map_of m k"
proof (induction m)
  case (Cons e m)
  then have "map_of m (fst e) = None" by (simp add: map_of_eq_None_iff)
  then show ?case using Cons by (cases e) (auto simp: map_add_def split: option.split)
qed simp

lemma path_matches_self: "path_matches p p"
  by (simp add: path_matches_def HasPrefix_def)

lemma last_info_aggregate:
  "last_info (map (\<lambda>(_, agg). path_info_of agg) (Registry_AggregateLocalPathInfos reg)) p =
     (if on_path p (Registry_ListEndpoints reg) = [] then None
      else Some (path_info_of (aggregate_of p (on_path p (Registry_ListEndpoints reg)))))"
proof -
  let ?agg = "Registry_AggregateLocalPathInfos reg"
  have wf: "distinct (map fst ?agg)"
    using aggregate_wf [of "[]" "Registry_ListEndpoints reg"] by (simp add: Registry_AggregateLocalPathInfos_def)
  have "map (\<lambda>p. (pi_NodePath p, p)) (map (\<lambda>(_, agg). path_info_of agg) ?agg) = map (\<lambda>(q, agg). (q, path_info_of agg)) ?agg"
    using aggregate_keys by (auto simp: path_info_of_def)
  then have "last_info (map (\<lambda>(_, agg). path_info_of agg) ?agg) p = map_of (rev (map (\<lambda>(q, agg). (q, path_info_of agg)) ?agg)) p"
    by (simp only: last_info_def)
  also have "\<dots> = map_option path_info_of (map_of ?agg p)"
  proof (subst map_of_rev_distinct)
    show "distinct (map fst (map (\<lambda>(q, agg). (q, path_info_of agg)) ?agg))" using wf by (simp add: comp_def case_prod_unfold)
    show "map_of (map (\<lambda>(q, agg). (q, path_info_of agg)) ?agg) p = map_option path_info_of (map_of ?agg p)" by (simp add: map_of_map)
  qed
  finally show ?thesis by (simp add: Registry_AggregateLocalPathInfos_def aggregate_fold)
qed

lemma sync_message_handled:
  "HandleStateMessage cfg now (sync_message cfg' reg) s =
     (if Registry_AggregateLocalPathInfos reg = [] then s
      else apply_path_infos cfg now (GetNodeID cfg') (map (\<lambda>(_, agg). path_info_of agg) (Registry_AggregateLocalPathInfos reg)) s)"
  by (simp add: HandleStateMessage_def sync_message_def empty_message_def)

text \<open>
  A node has an exact picture of a path of another: the sums over the endpoints there, seen at the given time, and the
  other node is among those considered for the path.
\<close>

definition serves_exactly :: "Sync \<Rightarrow> string \<Rightarrow> Registry \<Rightarrow> time \<Rightarrow> string \<Rightarrow> bool" where
  "serves_exactly s node reg now p \<longleftrightarrow>
     states_at s node p =
       Some \<lparr>es_Active = sum_list (map ep_Active (on_path p (Registry_ListEndpoints reg))),
             es_QueueLen = sum_list (map ep_QueueLen (on_path p (Registry_ListEndpoints reg))), es_Healthy = True,
             es_MaxConcurrent = sum_list (map ep_MaxConcurrent (filter ep_Healthy (on_path p (Registry_ListEndpoints reg)))),
             es_Plugin = ep_Plugin (hd (on_path p (Registry_ListEndpoints reg))), es_ResponseTime = 0, es_LastSeen = now\<rparr> \<and>
     (\<exists>rn \<in> set (Registry_GetHealthyNodesForPath (sy_registry s) p). rn_NodeID rn = node)"

lemma announcement_effect:
  assumes inv: "sync_inv s" and peer: "map_of (sy_peers s) (GetNodeID cfgA) = Some pe"
    and s': "s' = HandleStateMessage cfgB now (sync_message cfgA regA) s"
  shows "if on_path p (Registry_ListEndpoints regA) = [] then states_at s' (GetNodeID cfgA) p = states_at s (GetNodeID cfgA) p
    else serves_exactly s' (GetNodeID cfgA) regA now p"
proof (cases "on_path p (Registry_ListEndpoints regA) = []")
  case True
  then show ?thesis
    using apply_path_infos_effect(1) [OF peer] by (simp add: s' sync_message_handled last_info_aggregate)
next
  case False
  let ?st = "heard_state now (path_info_of (aggregate_of p (on_path p (Registry_ListEndpoints regA))))"
  have "Registry_AggregateLocalPathInfos regA \<noteq> []"
    using False aggregate_fold [of "Registry_ListEndpoints regA" p] by (auto simp: Registry_AggregateLocalPathInfos_def)
  then have st: "states_at s' (GetNodeID cfgA) p = Some ?st"
    using apply_path_infos_effect(1) [OF peer] False by (simp add: s' sync_message_handled last_info_aggregate)
  then obtain rn where rn: "map_of (remote_of s') (GetNodeID cfgA) = Some rn" "map_of (rn_EndpointStates rn) p = Some ?st"
    by (auto simp: Option.bind_eq_Some_conv)
  have "sync_inv s'" unfolding s' by (rule sync_inv_HandleStateMessage [OF inv])
  then have "rn_NodeID rn = GetNodeID cfgA" using wf_rns_get [OF sync_invD(3) rn(1)] by blast
  moreover have "rn \<in> set (Registry_GetHealthyNodesForPath (sy_registry s') p)"
  proof -
    have "rn \<in> snd ` set (remote_of s')" using map_of_SomeD [OF rn(1)] by force
    moreover have "(p, ?st) \<in> set (rn_EndpointStates rn)" using map_of_SomeD [OF rn(2)] .
    moreover have "es_Healthy ?st" by (simp add: heard_state_def)
    ultimately show ?thesis
      using path_matches_self [of p]
      by (auto simp: Registry_GetHealthyNodesForPath_def RemoteNodeStore_GetHealthyNodesForPath_def intro!: bexI [of _ "(p, ?st)"])
  qed
  ultimately show ?thesis using False st by (auto simp: serves_exactly_def heard_state_def path_info_of_def aggregate_of_def)
qed

section \<open>Delivery\<close>

text \<open>The request that a post becomes at its receiver: the sender's address with some client port, and the key header.\<close>

definition post_request :: "string \<Rightarrow> nat \<Rightarrow> Post \<Rightarrow> Request" where
  "post_request ip port post =
     \<lparr>rq_method = ''POST'', rq_path = ''/v1/gossip/sync'', rq_query = [],
      rq_header = (''Content-Type'', [''application/json'']) #
        (case po_key post of Some key \<Rightarrow> [(''X-Api-Key'', [key])] | None \<Rightarrow> []),
      rq_remoteAddr = ip @ '':'' @ Itoa (int port)\<rparr>"

definition sync_url :: "string \<Rightarrow> Config \<Rightarrow> string" where
  "sync_url ip config = ''http://'' @ ip @ '':'' @ Itoa (gossip_listen_port config) @ ''/v1/gossip/sync''"

definition plain_host :: "string \<Rightarrow> bool" where
  "plain_host ip \<longleftrightarrow> CHR '':'' \<notin> set ip \<and> CHR ''['' \<notin> set ip \<and> CHR '']'' \<notin> set ip"

lemma remote_ip_post_request:
  assumes "plain_host ip"
  shows "remote_ip (post_request ip port post) = ip"
proof -
  have "is_digit c" if "c \<in> set (Itoa (int port))" for c using Itoa_chars [of "int port" c] that by simp
  then have "CHR '':'' \<notin> set (Itoa (int port))" "CHR ''['' \<notin> set (Itoa (int port))" "CHR '']'' \<notin> set (Itoa (int port))"
    using digit_not_sign by (blast, force simp: is_digit_def, force simp: is_digit_def)
  then have "SplitHostPort (ip @ '':'' @ Itoa (int port)) = Some (ip, Itoa (int port))"
    using assms by (intro SplitHostPort_plain) (simp_all add: plain_host_def)
  then show ?thesis by (simp add: remote_ip_def post_request_def)
qed

lemma post_authorised:
  assumes "cfg_APIKey a = cfg_APIKey b" and "post = PostToPeerAsync a ip path msg"
  shows "requireGossipAuth b (post_request ip' port post) w = (True, w)"
  using assms by (simp add: requireGossipAuth_def post_request_def PostToPeerAsync_def header_get_def)

lemma sync_message_local: "reg_local r = reg_local r' \<Longrightarrow> sync_message config r = sync_message config r'"
  by (simp add: sync_message_def Registry_AggregateLocalPathInfos_def Registry_ListEndpoints_def)

lemma AddPeer_new:
  assumes "map_of (sy_peers s) nodeID = None"
  shows "map_of (sy_peers (fst (AddPeer config now nodeID address s))) nodeID = Some \<lparr>pe_NodeID = nodeID, pe_Address = address, pe_LastSeen = now\<rparr>"
    and "reg_local (sy_registry (fst (AddPeer config now nodeID address s))) = reg_local (sy_registry s)"
    and "PostToPeerAsync config address ''/v1/gossip/sync'' (sync_message config (sy_registry s)) \<in> set (snd (AddPeer config now nodeID address s))"
proof -
  let ?pe = "\<lparr>pe_NodeID = nodeID, pe_Address = address, pe_LastSeen = now\<rparr>" and ?s = "fst (AddPeer config now nodeID address s)"
  show pe: "map_of (sy_peers ?s) nodeID = Some ?pe"
    using assms by (simp add: AddPeer_def addPeerLocked_def map_of_update split: prod.split)
  show loc: "reg_local (sy_registry ?s) = reg_local (sy_registry s)"
    using assms by (simp add: AddPeer_def addPeerLocked_def Registry_UpdateRemoteNode_def split: prod.split)
  have "?pe \<in> set (GetNodes ?s)" using map_of_SomeD [OF pe] by (force simp: GetNodes_def)
  then have "PostToPeerAsync config address ''/v1/gossip/sync'' (sync_message config (sy_registry ?s)) \<in> set (BroadcastSync config ?s)"
    unfolding BroadcastSync_def by (auto intro!: image_eqI [of _ _ ?pe])
  moreover have "set (BroadcastSync config ?s) \<subseteq> set (snd (AddPeer config now nodeID address s))"
    using assms by (auto simp: AddPeer_def addPeerLocked_def split: prod.splits)
  ultimately show "PostToPeerAsync config address ''/v1/gossip/sync'' (sync_message config (sy_registry s)) \<in> set (snd (AddPeer config now nodeID address s))"
    using sync_message_local [OF loc] by auto
qed

lemma AddPeer_known:
  assumes "map_of (sy_peers s) nodeID = Some pe"
  shows "\<exists>pe. map_of (sy_peers (fst (AddPeer config now nodeID address s))) nodeID = Some pe"
  using assms by (simp add: AddPeer_def addPeerLocked_def map_of_update split: prod.split)

text \<open>A delivered announcement of a node with the same key: the sender is a peer and every path it serves is known exactly.\<close>

lemma sync_delivered:
  assumes key: "cfg_APIKey a = cfg_APIKey b" and id: "cfg_NodeID a \<noteq> ''''" and "plain_host ip" and inv: "sync_inv s"
    and post: "post = PostToPeerAsync a ip' ''/v1/gossip/sync'' (sync_message a reg)"
    and h: "handleGossipSync b now (post_request ip port post) (Some (po_msg post)) s = (reply, s', posts)"
  shows "reply = Json ''ok'' \<and> posts = snd (AddPeer b now (cfg_NodeID a) ip s) \<and>
    (\<forall>p. on_path p (Registry_ListEndpoints reg) \<noteq> [] \<longrightarrow> serves_exactly s' (cfg_NodeID a) reg now p)"
proof -
  let ?s1 = "fst (AddPeer b now (cfg_NodeID a) ip s)"
  have msg: "po_msg post = sync_message a reg" by (simp add: post PostToPeerAsync_def)
  have m: "rq_method (post_request ip port post) = ''POST''" by (simp add: post_request_def)
  have gm: "gm_NodeID (sync_message a reg) = cfg_NodeID a" "gm_DeletedPaths (sync_message a reg) = []" "\<not> gm_DeletedNode (sync_message a reg)"
    by (simp_all add: sync_message_def empty_message_def GetNodeID_def)
  have auth: "requireGossipAuth b (post_request ip port post) w = (True, w)" for w using post_authorised [OF key post] .
  have r: "reply = Json ''ok''" "posts = snd (AddPeer b now (cfg_NodeID a) ip s)"
    "s' = (if gm_PathInfos (sync_message a reg) = [] then ?s1 else HandleStateMessage b now (sync_message a reg) ?s1)"
    using h id by (auto simp: handleGossipSync_def auth m msg gm remote_ip_post_request [OF assms(3)] Let_def split: prod.splits)
  obtain pe where pe: "map_of (sy_peers ?s1) (GetNodeID a) = Some pe"
    using AddPeer_new(1) AddPeer_known by (cases "map_of (sy_peers s) (cfg_NodeID a)") (force simp: GetNodeID_def)+
  have "serves_exactly s' (cfg_NodeID a) reg now p" if "on_path p (Registry_ListEndpoints reg) \<noteq> []" for p
  proof -
    have "gm_PathInfos (sync_message a reg) \<noteq> []"
      using that aggregate_fold [of "Registry_ListEndpoints reg" p]
      by (auto simp: sync_message_def Registry_AggregateLocalPathInfos_def)
    then show ?thesis using announcement_effect [OF sync_inv_AddPeer [OF inv] pe, of s' b now reg p] that r(3) by (simp add: GetNodeID_def)
  qed
  then show ?thesis using r by simp
qed

section \<open>From a datagram to mutual routing\<close>



definition node_config :: "string \<Rightarrow> Config" where
  "node_config nodeID = (load_config sample_env)\<lparr>cfg_NodeID := nodeID, cfg_ListenAddr := '':'' @ Itoa 15050\<rparr>"

lemma node_config_simps:
  "cfg_NodeID (node_config n) = n" "cfg_APIKey (node_config n) = cfg_APIKey (node_config n')"
  "gossip_peer_port (node_config n) = gossip_listen_port (node_config n')"
proof -
  have "gossip_listen_port (node_config n) = 15051 \<and> gossip_peer_port (node_config n) = 15050 + 1" for n
    by (rule gossip_ports_differ(1)) (simp_all add: node_config_def)
  then show "gossip_peer_port (node_config n) = gossip_listen_port (node_config n')" by simp
qed (simp_all add: node_config_def)


end
