(* ===== verification/Balancer.thy ===== *)
theory Balancer
  imports Node_Store Float64
begin

text \<open>
  \<open>internal/business/balancer/balancer.go\<close>: the choice of a node among candidates by load, response
  time and random jitter, then by capacity. The generator \<open>math/rand\<close> is a value of type \<open>Rand\<close>:
  what \<open>Int31n\<close> and \<open>Intn\<close> return for an argument and the successive values of \<open>Float64\<close>.
  \<open>rand_ok\<close> states their documented ranges.
\<close>

section \<open>The generator\<close>

record Rand =
  r_Int31n :: "int \<Rightarrow> int"
  r_Intn :: "int \<Rightarrow> int"
  r_Float64 :: "nat \<Rightarrow> rat"

definition rand_ok :: "Rand \<Rightarrow> bool" where
  "rand_ok rs \<longleftrightarrow>
     (\<forall>n > 0. 0 \<le> r_Int31n rs n \<and> r_Int31n rs n < n) \<and>
     (\<forall>n > 0. 0 \<le> r_Intn rs n \<and> r_Intn rs n < n) \<and>
     (\<forall>k. 0 \<le> r_Float64 rs k \<and> r_Float64 rs k < 1)"

text \<open>Panics of the routines below: \<open>rand.Intn\<close> of a non-positive bound, a slice index out of range.\<close>

datatype Panic = IntnPanic | IndexPanic

section \<open>Weighted choice\<close>

fun weighted_scan :: "i32 \<Rightarrow> i32 list \<Rightarrow> nat \<Rightarrow> nat \<Rightarrow> nat" where
  "weighted_scan r [] i n = n - 1"
| "weighted_scan r (w # ws) i n = (if sint (r - w) < 0 then i else weighted_scan (r - w) ws (Suc i) n)"

definition weightedRandomIndex :: "Rand \<Rightarrow> i32 list \<Rightarrow> Panic + nat" where
  "weightedRandomIndex rs weights =
     (let total = foldl (+) 0 weights
      in if sint total \<le> 0 then
           if weights = [] then Inl IntnPanic else Inr (nat (r_Intn rs (int (length weights))))
         else Inr (weighted_scan (word_of_int (r_Int31n rs (sint total))) weights 0 (length weights)))"

section \<open>Node choice\<close>

definition DefaultMaxConcurrent :: i32 where
  "DefaultMaxConcurrent = 10"

text \<open>The state the loops pick with \<open>for _, s := range node.EndpointStates { state = s; break }\<close>.\<close>

definition first_state :: "RemoteNode \<Rightarrow> EndpointState option" where
  "first_state node = (case rn_EndpointStates node of [] \<Rightarrow> None | (p, st) # _ \<Rightarrow> Some st)"

definition default_state :: EndpointState where
  "default_state =
     \<lparr>es_Active = 0, es_QueueLen = 0, es_Healthy = False, es_MaxConcurrent = DefaultMaxConcurrent,
      es_Plugin = False, es_ResponseTime = 0, es_LastSeen = 0\<rparr>"

definition node_score :: "rat \<Rightarrow> RemoteNode \<Rightarrow> rat" where
  "node_score jitter node =
     (let state = (case first_state node of Some st \<Rightarrow> st | None \<Rightarrow> default_state);
          maxConcurrent = (of_int (sint (es_MaxConcurrent state)) :: rat);
          maxConcurrent = (if maxConcurrent = 0 then of_int (sint DefaultMaxConcurrent) else maxConcurrent);
          load = fl (of_int (sint (es_Active state)) + of_int (sint (es_QueueLen state)));
          loadRatio = fl (load / maxConcurrent);
          responseTimeFactor =
            (if es_ResponseTime state > 0 then
               let f = fl (fl (of_int (es_ResponseTime state)) / 100) in if f > 1 then 1 else f
             else 0);
          totalScore = fl (fl (loadRatio * fl (6 / 10)) + fl (responseTimeFactor * fl (4 / 10)));
          randomFactor = fl (1 + fl (fl (jitter * fl (1 / 10)) - fl (5 / 100)))
      in fl (totalScore * randomFactor))"

definition near_best :: "rat \<Rightarrow> rat \<Rightarrow> bool" where
  "near_best bestScore score \<longleftrightarrow> score \<le> fl (fl (bestScore * fl (105 / 100)) + fl (1 / 1000))"

definition best_score :: "('a \<times> rat) list \<Rightarrow> rat" where
  "best_score scores = foldl (\<lambda>best ns. if snd ns < best then snd ns else best) (snd (hd scores)) (tl scores)"

definition node_weight :: "RemoteNode \<Rightarrow> i32" where
  "node_weight node =
     (case first_state node of
        Some st \<Rightarrow> if sint (es_MaxConcurrent st) > 0 then es_MaxConcurrent st else DefaultMaxConcurrent
      | None \<Rightarrow> DefaultMaxConcurrent)"

definition node_scores :: "Rand \<Rightarrow> RemoteNode list \<Rightarrow> (RemoteNode \<times> rat) list" where
  "node_scores rs nodes = map (\<lambda>(i, node). (node, node_score (r_Float64 rs i) node)) (enumerate 0 nodes)"

definition SelectNode :: "Rand \<Rightarrow> RemoteNode list \<Rightarrow> Panic + RemoteNode option" where
  "SelectNode rs nodes =
     (if length nodes = 0 then Inr None
      else if length nodes = 1 then Inr (Some (nodes ! 0))
      else
        let scores = node_scores rs nodes;
            bestScore = best_score scores;
            candidates = filter (\<lambda>ns. near_best bestScore (snd ns)) scores
        in if length candidates = 1 then Inr (Some (fst (candidates ! 0)))
           else case weightedRandomIndex rs (map (\<lambda>ns. node_weight (fst ns)) candidates) of
                  Inl p \<Rightarrow> Inl p
                | Inr i \<Rightarrow> if i < length candidates then Inr (Some (fst (candidates ! i))) else Inl IndexPanic)"

section \<open>The weighted choice\<close>

lemma foldl_plus_sum: "foldl (+) a ws = a + sum_list ws" for a :: i32
  by (induction ws arbitrary: a) (simp_all add: add.assoc)

lemma weighted_scan_range: "i + length ws = n \<Longrightarrow> 0 < n \<Longrightarrow> weighted_scan r ws i n < n"
  by (induction r ws i n rule: weighted_scan.induct) auto

lemma weightedRandomIndex_range:
  assumes "rand_ok rs" and "weights \<noteq> []"
  shows "\<exists>i. weightedRandomIndex rs weights = Inr i \<and> i < length weights"
proof -
  have "nat (r_Intn rs (int (length weights))) < length weights"
    using assms by (auto simp: rand_ok_def nat_less_iff)
  then show ?thesis
    using assms weighted_scan_range [of 0 weights "length weights"] by (auto simp: weightedRandomIndex_def Let_def)
qed

text \<open>With non-negative weights the scan stops at the interval of the prefix sums that holds \<open>r\<close>.\<close>

lemma weighted_scan_interval:
  assumes "\<And>w. w \<in> set ws \<Longrightarrow> 0 \<le> sint w" and "0 \<le> sint r" and "sint r < sum_list (map sint ws)"
  shows "\<exists>j < length ws. weighted_scan r ws i n = i + j \<and>
    sum_list (map sint (take j ws)) \<le> sint r \<and> sint r < sum_list (map sint (take (Suc j) ws))"
  using assms
proof (induction ws arbitrary: r i)
  case Nil
  then show ?case by simp
next
  case (Cons w ws)
  have w: "0 \<le> sint w" using Cons.prems(1) by simp
  have sub: "sint (r - w) = sint r - sint w"
    using sint_i32_bounds [of r] sint_i32_bounds [of w] w Cons.prems(2) by (intro sint_i32_sub) auto
  show ?case
  proof (cases "sint r < sint w")
    case True
    then show ?thesis using sub Cons.prems(2) by (intro exI [of _ 0]) simp
  next
    case False
    then obtain j where "j < length ws" "weighted_scan (r - w) ws (Suc i) n = Suc i + j"
      "sum_list (map sint (take j ws)) \<le> sint (r - w)" "sint (r - w) < sum_list (map sint (take (Suc j) ws))"
      using Cons.IH [of "r - w" "Suc i"] Cons.prems sub by auto
    then show ?thesis using False sub by (intro exI [of _ "Suc j"]) auto
  qed
qed

lemma prefix_sum_mono:
  assumes "\<And>w. w \<in> set ws \<Longrightarrow> 0 \<le> f w" and "i \<le> j"
  shows "sum_list (map f (take i ws)) \<le> (sum_list (map f (take j ws)) :: int)"
proof -
  have "take j ws = take i ws @ take (j - i) (drop i ws)" using assms(2) by (metis le_add_diff_inverse take_add)
  moreover have "0 \<le> sum_list (map f (take (j - i) (drop i ws)))"
    using assms(1) by (intro sum_list_nonneg) (auto dest: in_set_takeD in_set_dropD)
  ultimately show ?thesis by simp
qed

text \<open>
  The contract of a weighted choice, offered by \<open>weightedRandomIndex\<close> here and by the pool choice of
  the forwarder: on non-negative weights with a positive sum that fits in 32 bits, the drawn number
  selects the interval of the prefix sums it falls in.
\<close>

locale weighted_picker =
  fixes pick :: "Rand \<Rightarrow> i32 list \<Rightarrow> Panic + nat"
  assumes pick_interval: "rand_ok rs \<Longrightarrow> (\<And>w. w \<in> set ws \<Longrightarrow> 0 \<le> sint w) \<Longrightarrow> 0 < sum_list (map sint ws) \<Longrightarrow>
      sum_list (map sint ws) < 2 ^ 31 \<Longrightarrow>
      \<exists>j < length ws. pick rs ws = Inr j \<and>
        sum_list (map sint (take j ws)) \<le> r_Int31n rs (sum_list (map sint ws)) \<and>
        r_Int31n rs (sum_list (map sint ws)) < sum_list (map sint (take (Suc j) ws))"
begin

lemma pick_iff:
  assumes "rand_ok rs" and nonneg: "\<And>w. w \<in> set ws \<Longrightarrow> 0 \<le> sint w"
    and "0 < sum_list (map sint ws)" and "sum_list (map sint ws) < 2 ^ 31" and "i < length ws"
  shows "pick rs ws = Inr i \<longleftrightarrow>
    sum_list (map sint (take i ws)) \<le> r_Int31n rs (sum_list (map sint ws)) \<and>
    r_Int31n rs (sum_list (map sint ws)) < sum_list (map sint (take i ws)) + sint (ws ! i)"
proof -
  let ?P = "\<lambda>k. sum_list (map sint (take k ws))"
  let ?r = "r_Int31n rs (sum_list (map sint ws))"
  obtain j where j: "j < length ws" "pick rs ws = Inr j" "?P j \<le> ?r" "?r < ?P (Suc j)"
    using pick_interval [OF assms(1) nonneg assms(3,4)] by blast
  have P_Suc: "?P (Suc k) = ?P k + sint (ws ! k)" if "k < length ws" for k
    using that by (simp add: take_Suc_conv_app_nth)
  have "i = j" if "?P i \<le> ?r" "?r < ?P (Suc i)"
    using that j(3,4) prefix_sum_mono [of ws sint "Suc i" j] prefix_sum_mono [of ws sint "Suc j" i] nonneg
    by (cases i j rule: linorder_cases) fastforce+
  then show ?thesis using j P_Suc assms(5) by auto
qed

lemma pick_positive:
  assumes "rand_ok rs" and "\<And>w. w \<in> set ws \<Longrightarrow> 0 \<le> sint w"
    and "0 < sum_list (map sint ws)" and "sum_list (map sint ws) < 2 ^ 31"
  shows "\<exists>j < length ws. pick rs ws = Inr j \<and> 0 < sint (ws ! j)"
  using pick_interval [OF assms] by (force simp: take_Suc_conv_app_nth)

end

lemma scan_drawn:
  assumes "rand_ok rs" and "\<And>w. w \<in> set ws \<Longrightarrow> 0 \<le> sint w"
    and "0 < sum_list (map sint ws)" and "sum_list (map sint ws) < 2 ^ 31"
  shows "\<exists>j < length ws. weighted_scan (word_of_int (r_Int31n rs (sum_list (map sint ws)))) ws 0 (length ws) = j \<and>
    sum_list (map sint (take j ws)) \<le> r_Int31n rs (sum_list (map sint ws)) \<and>
    r_Int31n rs (sum_list (map sint ws)) < sum_list (map sint (take (Suc j) ws))"
proof -
  let ?r = "r_Int31n rs (sum_list (map sint ws))"
  have r: "0 \<le> ?r" "?r < sum_list (map sint ws)" using assms(1,3) by (auto simp: rand_ok_def)
  then have "sint (word_of_int ?r :: i32) = ?r" using assms(4) by (intro sint_i32_of_int) auto
  then show ?thesis
    using weighted_scan_interval [of ws "word_of_int ?r" 0 "length ws"] assms(2) r by auto
qed

lemma sint_total: "(\<And>w. w \<in> set ws \<Longrightarrow> 0 \<le> sint w) \<Longrightarrow> sum_list (map sint ws) < 2 ^ 31 \<Longrightarrow>
   sint (foldl (+) 0 ws :: i32) = sum_list (map sint ws)"
  using sint_i32_sum_list [of ws] by (simp add: foldl_plus_sum)

interpretation wri: weighted_picker weightedRandomIndex
proof
  fix rs and ws :: "i32 list"
  assume a: "rand_ok rs" "\<And>w. w \<in> set ws \<Longrightarrow> 0 \<le> sint w" "0 < sum_list (map sint ws)" "sum_list (map sint ws) < 2 ^ 31"
  show "\<exists>j < length ws. weightedRandomIndex rs ws = Inr j \<and>
      sum_list (map sint (take j ws)) \<le> r_Int31n rs (sum_list (map sint ws)) \<and>
      r_Int31n rs (sum_list (map sint ws)) < sum_list (map sint (take (Suc j) ws))"
    using scan_drawn [OF a] sint_total [OF a(2,4)] a(3) by (auto simp: weightedRandomIndex_def)
qed

text \<open>
  The weighted choice is exactly proportional. For non-negative weights whose sum is positive and
  fits in 32 bits, index \<open>i\<close> is returned iff the number drawn by \<open>rand.Int31n\<close> falls in the
  \<open>i\<close>-th interval of the prefix sums, an interval of \<open>weights[i]\<close> numbers; so zero weights are never
  chosen and the fallback \<open>len(weights) - 1\<close> is never reached.
\<close>

theorem weighted_choice_proportional:
  assumes "rand_ok rs" and "\<And>w. w \<in> set weights \<Longrightarrow> 0 \<le> sint w"
    and "0 < sum_list (map sint weights)" and "sum_list (map sint weights) < 2 ^ 31" and "i < length weights"
  shows "weightedRandomIndex rs weights = Inr i \<longleftrightarrow>
    sum_list (map sint (take i weights)) \<le> r_Int31n rs (sum_list (map sint weights)) \<and>
    r_Int31n rs (sum_list (map sint weights)) < sum_list (map sint (take i weights)) + sint (weights ! i)"
  using assms by (rule wri.pick_iff)

definition sample_rand :: Rand where
  "sample_rand = \<lparr>r_Int31n = \<lambda>n. n div 2, r_Intn = \<lambda>_. 0, r_Float64 = \<lambda>_. 1 / 2\<rparr>"

lemma rand_ok_sample: "rand_ok sample_rand"
  by (auto simp: rand_ok_def sample_rand_def)

theorem weighted_choice_proportional_witness:
  "weightedRandomIndex sample_rand [1, 0, 4] = Inr 2"
proof -
  have "0 \<le> sint w" if "w \<in> set [1, 0, 4 :: i32]" for w using that by auto
  then show ?thesis
    using weighted_choice_proportional [OF rand_ok_sample, of "[1, 0, 4]" 2] by (simp add: sample_rand_def)
qed

section \<open>The choice of a node\<close>

lemma node_scores_nth:
  "i < length nodes \<Longrightarrow> node_scores rs nodes ! i = (nodes ! i, node_score (r_Float64 rs i) (nodes ! i))"
  by (simp add: node_scores_def nth_enumerate_eq)

lemma length_node_scores [simp]: "length (node_scores rs nodes) = length nodes"
  by (simp add: node_scores_def)

lemma node_scores_in: "(node, sc) \<in> set (node_scores rs nodes) \<Longrightarrow>
   node \<in> set nodes \<and> (\<exists>i < length nodes. nodes ! i = node \<and> sc = node_score (r_Float64 rs i) node)"
  by (auto simp: in_set_conv_nth node_scores_nth)

lemma best_score_in: "scores \<noteq> [] \<Longrightarrow> best_score scores \<in> snd ` set scores"
  using foldl_min_in [of snd "snd (hd scores)" "tl scores"]
  by (cases scores) (auto simp: best_score_def)

lemma best_score_le: "ns \<in> set scores \<Longrightarrow> best_score scores \<le> snd ns"
  using foldl_min_le [of ns "tl scores" snd "snd (hd scores)"] foldl_min_le_init [of snd "snd (hd scores)" "tl scores"]
  by (cases scores) (auto simp: best_score_def)

text \<open>A state whose counters make sense: no negative load and no negative capacity.\<close>

definition sane_state :: "EndpointState \<Rightarrow> bool" where
  "sane_state st \<longleftrightarrow> 0 \<le> sint (es_Active st) \<and> 0 \<le> sint (es_QueueLen st) \<and> 0 \<le> sint (es_MaxConcurrent st)"

definition sane_node :: "RemoteNode \<Rightarrow> bool" where
  "sane_node node \<longleftrightarrow> (\<forall>st. first_state node = Some st \<longrightarrow> sane_state st)"

lemma jitter_factor_nonneg: "0 \<le> jitter \<Longrightarrow> 0 \<le> fl (1 + fl (fl (jitter * fl (1 / 10)) - fl (5 / 100)))"
proof -
  assume "0 \<le> jitter"
  then have "0 \<le> fl (jitter * fl (1 / 10))" by (intro fl_nonneg mult_nonneg_nonneg) (auto simp: fl_nonneg)
  moreover have "fl (5 / 100) \<le> 1" using fl_mono [of "5 / 100" 1] by simp
  ultimately have "- 1 \<le> fl (jitter * fl (1 / 10)) - fl (5 / 100)" by linarith
  then have "fl (- 1) \<le> fl (fl (jitter * fl (1 / 10)) - fl (5 / 100))" by (rule fl_mono)
  then show ?thesis by (intro fl_nonneg) (simp add: fl_uminus)
qed

lemma score_combine:
  "0 \<le> a \<Longrightarrow> 0 \<le> b \<Longrightarrow> 0 \<le> j \<Longrightarrow> 0 \<le> fl (fl (fl (a * fl (6 / 10)) + fl (b * fl (4 / 10))) * j)"
  by (intro fl_nonneg mult_nonneg_nonneg add_nonneg_nonneg) simp_all

lemma node_score_nonneg:
  assumes "sane_node node" and "0 \<le> jitter"
  shows "0 \<le> node_score jitter node"
proof -
  let ?st = "case first_state node of Some st \<Rightarrow> st | None \<Rightarrow> default_state"
  have st: "sane_state ?st"
    using assms(1)
    by (auto simp: sane_node_def sane_state_def default_state_def DefaultMaxConcurrent_def split: option.split)
  have "0 \<le> fl (fl (of_int (sint (es_Active ?st)) + of_int (sint (es_QueueLen ?st))) /
      (if (of_int (sint (es_MaxConcurrent ?st)) :: rat) = 0 then of_int (sint DefaultMaxConcurrent)
       else of_int (sint (es_MaxConcurrent ?st))))"
    using st by (intro fl_nonneg divide_nonneg_nonneg) (auto simp: sane_state_def DefaultMaxConcurrent_def simp del: of_int_sint)
  moreover have "0 \<le> (if es_ResponseTime ?st > 0 then
      if fl (fl (of_int (es_ResponseTime ?st)) / 100) > 1 then 1 else fl (fl (of_int (es_ResponseTime ?st)) / 100)
      else 0)"
    by (auto intro!: fl_nonneg)
  ultimately show ?thesis
    unfolding node_score_def Let_def by (rule score_combine [OF _ _ jitter_factor_nonneg [OF assms(2)]])
qed

lemma near_best_self: "0 \<le> best \<Longrightarrow> fl best = best \<Longrightarrow> near_best best best"
proof -
  assume b: "0 \<le> best" "fl best = best"
  have "1 \<le> fl (105 / 100)" using fl_mono [of 1 "105 / 100"] by simp
  then have "best * 1 \<le> best * fl (105 / 100)" using b(1) by (intro mult_left_mono)
  then have le: "best \<le> fl (best * fl (105 / 100))" using fl_mono [of best "best * fl (105 / 100)"] b(2) by simp
  have "fl (fl (best * fl (105 / 100))) \<le> fl (fl (best * fl (105 / 100)) + fl (1 / 1000))"
    by (rule fl_mono) (simp add: fl_nonneg)
  then show ?thesis using le by (simp add: near_best_def)
qed

lemma node_score_fl [simp]: "fl (node_score jitter node) = node_score jitter node"
  by (simp only: node_score_def Let_def fl_idem)

lemma candidates_not_empty:
  assumes "rand_ok rs" and "\<And>node. node \<in> set nodes \<Longrightarrow> sane_node node" and "nodes \<noteq> []"
  shows "filter (\<lambda>ns. near_best (best_score (node_scores rs nodes)) (snd ns)) (node_scores rs nodes) \<noteq> []"
proof -
  let ?sc = "node_scores rs nodes"
  have "?sc \<noteq> []" using assms(3) by (metis length_0_conv length_node_scores)
  then obtain node s where ns: "(node, s) \<in> set ?sc" "best_score ?sc = s" using best_score_in [of ?sc] by auto
  then obtain i where "s = node_score (r_Float64 rs i) node" "node \<in> set nodes" using node_scores_in by blast
  then have "0 \<le> s" "fl s = s" using node_score_nonneg assms(1,2) by (auto simp: rand_ok_def)
  then have "near_best (best_score ?sc) (snd (node, s))" using ns(2) near_best_self by simp
  then show ?thesis using ns(1) unfolding filter_empty_conv by blast
qed

lemma SelectNode_spec:
  assumes "rand_ok rs" and "\<forall>node \<in> set nodes. sane_node node"
  shows "if nodes = [] then SelectNode rs nodes = Inr None
    else \<exists>i < length nodes. SelectNode rs nodes = Inr (Some (nodes ! i)) \<and>
      (length nodes \<ge> 2 \<longrightarrow>
        near_best (best_score (node_scores rs nodes)) (node_score (r_Float64 rs i) (nodes ! i)) \<and>
        (\<forall>j < length nodes. best_score (node_scores rs nodes) \<le> node_score (r_Float64 rs j) (nodes ! j)))"
proof (cases "length nodes \<le> 1")
  case True
  then show ?thesis by (cases nodes) (auto simp: SelectNode_def)
next
  case False
  let ?sc = "node_scores rs nodes"
  let ?cand = "filter (\<lambda>ns. near_best (best_score ?sc) (snd ns)) ?sc"
  have ne: "nodes \<noteq> []" using False by auto
  have cand: "?cand \<noteq> []" by (rule candidates_not_empty [OF assms(1) _ ne]) (use assms(2) in blast)
  have sel: "SelectNode rs nodes =
      (if length ?cand = 1 then Inr (Some (fst (?cand ! 0)))
       else case weightedRandomIndex rs (map (\<lambda>ns. node_weight (fst ns)) ?cand) of
              Inl p \<Rightarrow> Inl p
            | Inr i \<Rightarrow> if i < length ?cand then Inr (Some (fst (?cand ! i))) else Inl IndexPanic)"
    using False ne unfolding SelectNode_def Let_def by simp
  obtain k where k: "k < length ?cand" "SelectNode rs nodes = Inr (Some (fst (?cand ! k)))"
  proof (cases "length ?cand = 1")
    case True
    then show thesis using that [of 0] by (simp add: sel)
  next
    case more: False
    obtain i where "weightedRandomIndex rs (map (\<lambda>ns. node_weight (fst ns)) ?cand) = Inr i" "i < length ?cand"
      using weightedRandomIndex_range [OF assms(1), of "map (\<lambda>ns. node_weight (fst ns)) ?cand"] cand by auto
    then show thesis using that [of i] more by (simp add: sel)
  qed
  have mem: "?cand ! k \<in> set ?cand" using k(1) by (rule nth_mem)
  obtain node s where nk: "?cand ! k = (node, s)" by (cases "?cand ! k")
  with mem have ns: "?cand ! k = (node, s)" "(node, s) \<in> set ?sc" "near_best (best_score ?sc) s"
    by (simp_all only: set_filter mem_Collect_eq snd_conv)
  then obtain i where "i < length nodes" "nodes ! i = node" "s = node_score (r_Float64 rs i) node"
    using node_scores_in by blast
  moreover have "best_score ?sc \<le> node_score (r_Float64 rs j) (nodes ! j)" if "j < length nodes" for j
    using best_score_le [OF nth_mem [of j ?sc]] that by (simp add: node_scores_nth)
  ultimately show ?thesis using ne k(2) ns by auto
qed

lemma SelectNode_total:
  "rand_ok rs \<Longrightarrow> nodes \<noteq> [] \<Longrightarrow> \<forall>node \<in> set nodes. sane_node node \<Longrightarrow>
   \<exists>i < length nodes. SelectNode rs nodes = Inr (Some (nodes ! i))"
  using SelectNode_spec [of rs nodes] by auto

text \<open>
  C32: \<open>SelectNode\<close> on candidates with sane counters never panics: it returns nil exactly for an empty
  list and otherwise one of the candidates. With two or more candidates the score of the one it
  returns is within the tolerance (5\% and 0.001, in float64 arithmetic) of the lowest score.
\<close>

theorem select_node_near_best:
  assumes "rand_ok rs" and "\<forall>node \<in> set nodes. sane_node node"
  shows "if nodes = [] then SelectNode rs nodes = Inr None
    else \<exists>i < length nodes. SelectNode rs nodes = Inr (Some (nodes ! i)) \<and>
      (length nodes \<ge> 2 \<longrightarrow>
        near_best (best_score (node_scores rs nodes)) (node_score (r_Float64 rs i) (nodes ! i)) \<and>
        (\<forall>j < length nodes. best_score (node_scores rs nodes) \<le> node_score (r_Float64 rs j) (nodes ! j)))"
  using assms by (rule SelectNode_spec)

definition sample_candidate :: "string \<Rightarrow> i32 \<Rightarrow> i32 \<Rightarrow> RemoteNode" where
  "sample_candidate nid active cap =
     \<lparr>rn_NodeID = nid, rn_Address = ''10.0.0.1'', rn_ServicePort = 15050, rn_ServicePath = '''',
      rn_NodePath = ''/a'', rn_EpID = '''',
      rn_EndpointStates = [(''/a'', \<lparr>es_Active = active, es_QueueLen = 0, es_Healthy = True,
         es_MaxConcurrent = cap, es_Plugin = False, es_ResponseTime = 0, es_LastSeen = 0\<rparr>)],
      rn_EndpointDescriptions = [], rn_LastSeen = 0\<rparr>"

theorem select_node_near_best_witness:
  "\<exists>i < 2. SelectNode sample_rand [sample_candidate ''n1'' 3 10, sample_candidate ''n2'' 1 10] =
     Inr (Some ([sample_candidate ''n1'' 3 10, sample_candidate ''n2'' 1 10] ! i))"
proof -
  let ?ns = "[sample_candidate ''n1'' 3 10, sample_candidate ''n2'' 1 10]"
  have ne: "?ns \<noteq> []" by simp
  have "\<forall>node \<in> set ?ns. sane_node node" by (auto simp: sane_node_def sane_state_def first_state_def sample_candidate_def)
  from select_node_near_best [OF rand_ok_sample this, unfolded if_not_P [OF ne]]
  obtain i where i: "i < length ?ns" "SelectNode sample_rand ?ns = Inr (Some (?ns ! i))" by (elim exE conjE) rule
  have "i < 2" using i(1) by simp
  then show ?thesis using i(2) by (intro exI [of _ i] conjI)
qed

end
