(* ===== verification/Admin.thy ===== *)
theory Admin
  imports Gossip Utils
begin

text \<open>
  \<open>internal/admin/server.go\<close> and the handlers of \<open>internal/admin/handlers.go\<close> that change state:
  registration, deletion, heartbeats, the periodic sweep and the connection to another node. The admin
  server works on the registry and peer table of the gossip layer and on the pool manager; the
  gateway always passes both, so the \<open>nil\<close> checks of the source succeed. A body that cannot be read
  and one that does not parse are told apart.
\<close>

declare map_of_eq_Some_iff [simp del] Some_eq_map_of_iff [simp del]

section \<open>State and requests\<close>

record AdminServer =
  as_sync :: Sync
  as_poolMgr :: PoolManager

abbreviation as_registry :: "AdminServer \<Rightarrow> Registry" where
  "as_registry s \<equiv> sy_registry (as_sync s)"

definition with_registry :: "Registry \<Rightarrow> AdminServer \<Rightarrow> AdminServer" where
  "with_registry reg s = s\<lparr>as_sync := (as_sync s)\<lparr>sy_registry := reg\<rparr>\<rparr>"

datatype 'a Body = Unreadable | BadJson | Decoded 'a

record EndpointInfoRequest =
  er_ServicePath :: string
  er_NodePath :: string
  er_MaxConcurrent :: int
  er_Description :: string
  er_LocalOnly :: bool
  er_Plugin :: bool

record EndpointRegistrationResponse =
  rr_ServiceID :: string
  rr_Endpoints :: "string list"

record HeartbeatRequest =
  hb_ServiceID :: string
  hb_Healthy :: bool

text \<open>A handler that panics: \<open>net/http\<close> drops the connection, the state stays as the handler left it.\<close>

datatype 'a Outcome = Crashed | Done "'a Reply"

section \<open>Registration\<close>

definition go_bool :: "bool \<Rightarrow> string" where
  "go_bool b = (if b then ''true'' else ''false'')"

definition slash_mismatch :: "bool \<Rightarrow> bool \<Rightarrow> string" where
  "slash_mismatch sp np =
     ''service_path and node_path trailing slash must match: service_path ends with / = '' @ go_bool sp @
     '', node_path ends with / = '' @ go_bool np"

definition new_endpoint :: "time \<Rightarrow> EndpointInfoRequest \<Rightarrow> LocalEndpoint" where
  "new_endpoint now ep =
     (let maxConcurrent = (word_of_int (er_MaxConcurrent ep) :: i32);
          maxConcurrent = (if sint maxConcurrent < 1 then 1 else maxConcurrent)
      in \<lparr>ep_ServiceID = '''', ep_EpID = '''', ep_ServicePath = er_ServicePath ep, ep_NodePath = er_NodePath ep,
          ep_Description = er_Description ep, ep_Healthy = True, ep_LastHeartbeat = now, ep_Active = 0, ep_QueueLen = 0,
          ep_MaxConcurrent = maxConcurrent, ep_LocalOnly = er_LocalOnly ep, ep_Plugin = er_Plugin ep\<rparr>)"

text \<open>The loop over the requested endpoints: the first bad entry ends it with a message.\<close>

fun parse_endpoints :: "time \<Rightarrow> EndpointInfoRequest list \<Rightarrow> string + LocalEndpoint list" where
  "parse_endpoints now [] = Inr []"
| "parse_endpoints now (ep # eps) =
     (let servicePath = er_ServicePath ep; nodePath = er_NodePath ep
      in if servicePath = '''' \<or> nodePath = '''' then Inl ''service_path and node_path are required''
         else if HasSuffix servicePath ''/'' \<noteq> HasSuffix nodePath ''/''
           then Inl (slash_mismatch (HasSuffix servicePath ''/'') (HasSuffix nodePath ''/''))
         else case parse_endpoints now eps of Inl msg \<Rightarrow> Inl msg | Inr les \<Rightarrow> Inr (new_endpoint now ep # les))"

text \<open>The backend URL of a service path \<open>port/base\<close>; \<open>None\<close> when the port is not a number.\<close>

definition backend_url :: "string \<Rightarrow> string option" where
  "backend_url servicePath =
     (let parts = SplitN2 CHR ''/'' servicePath;
          (servicePort, base) =
            (if length parts \<ge> 2 then (parts ! 0, ''/'' @ parts ! 1) else (servicePath, ''/''))
      in case Atoi servicePort of
           None \<Rightarrow> None
         | Some port \<Rightarrow> Some (''http://localhost:'' @ Itoa port @ base))"

definition create_pool_for :: "LocalEndpoint \<Rightarrow> PoolManager \<Rightarrow> PoolManager" where
  "create_pool_for ep m =
     (case backend_url (ep_ServicePath ep) of
        None \<Rightarrow> m
      | Some targetURL \<Rightarrow> CreatePool (ep_NodePath ep) (ep_EpID ep) targetURL (sint (ep_MaxConcurrent ep)) m)"

text \<open>The callback that \<open>handlePostEndpoints\<close> installs on each pool it creates.\<close>

definition metrics_callback :: "string \<Rightarrow> string \<Rightarrow> i32 \<Rightarrow> i32 \<Rightarrow> Registry \<Rightarrow> Registry" where
  "metrics_callback nodePath epID active queueLen reg = Registry_UpdateEndpointMetricsByEpID nodePath epID active queueLen reg"

definition conflict_text :: "string \<Rightarrow> string" where
  "conflict_text nodePath = ''node_path '' @ nodePath @ '' already has a plugin registered''"

definition handlePostEndpoints ::
    "Config \<Rightarrow> (nat \<Rightarrow> string) \<Rightarrow> time \<Rightarrow> Request \<Rightarrow> EndpointInfoRequest list Body \<Rightarrow> AdminServer \<Rightarrow>
     EndpointRegistrationResponse Outcome \<times> AdminServer \<times> Post list" where
  "handlePostEndpoints config ids now r body s =
     (case requireAPIKeyOrLocal config r new_writer of
        (False, w) \<Rightarrow> (Done (Plain w), s, [])
      | (True, w) \<Rightarrow>
          (case body of
             Unreadable \<Rightarrow> (Done (fail ''Bad request'' 400), s, [])
           | BadJson \<Rightarrow> (Done (fail ''Invalid JSON'' 400), s, [])
           | Decoded endpoints \<Rightarrow>
               (case parse_endpoints now endpoints of
                  Inl msg \<Rightarrow> (Done (fail msg 400), s, [])
                | Inr localEndpoints \<Rightarrow>
                    (case Registry_RegisterEndpoints ids localEndpoints (as_registry s) of
                       (Inl IndexOutOfRange, reg) \<Rightarrow> (Crashed, with_registry reg s, [])
                     | (Inl (PluginConflict p), reg) \<Rightarrow> (Done (fail (conflict_text p) 409), with_registry reg s, [])
                     | (Inr serviceID, reg) \<Rightarrow>
                         let s = (with_registry reg s)\<lparr>as_poolMgr := fold create_pool_for (stamp_ids ids localEndpoints) (as_poolMgr s)\<rparr>
                         in (Done (Json \<lparr>rr_ServiceID = serviceID, rr_Endpoints = map er_NodePath endpoints\<rparr>), s,
                             BroadcastSync config (as_sync s))))))"

section \<open>Deletion\<close>

text \<open>
  The query values \<open>service_id\<close> and \<open>path\<close> arrive decoded from \<open>r.URL.Query()\<close> and are decoded once more. The
  pools to drop are collected with the value as it arrived, the endpoints are removed with the value
  decoded again.
\<close>

definition doomed_pools :: "Registry \<Rightarrow> string \<Rightarrow> string \<Rightarrow> (string \<times> string) list" where
  "doomed_pools reg serviceID queryNodePath =
     map (\<lambda>ep. (ep_NodePath ep, ep_EpID ep))
       (filter (\<lambda>ep. ep_ServiceID ep = serviceID \<and> (queryNodePath = '''' \<or> ep_NodePath ep = queryNodePath))
         (Registry_ListEndpoints reg))"

definition drop_pools :: "(string \<times> string) list \<Rightarrow> PoolManager \<Rightarrow> PoolManager" where
  "drop_pools pks m = fold (\<lambda>(path, epID) m. snd (RemovePool path epID m)) pks m"

definition handleDeleteEndpoints ::
    "Config \<Rightarrow> Request \<Rightarrow> AdminServer \<Rightarrow> unit Reply \<times> AdminServer \<times> Post list" where
  "handleDeleteEndpoints config r s =
     (case requireAPIKeyOrLocal config r new_writer of
        (False, w) \<Rightarrow> (Plain w, s, [])
      | (True, w) \<Rightarrow>
          let serviceID = header_get (rq_query r) ''service_id''; nodePath = header_get (rq_query r) ''path''
          in if serviceID = '''' then (fail ''service_id is required'' 400, s, [])
             else case QueryUnescape serviceID of
               None \<Rightarrow> (fail ''Invalid service_id'' 400, s, [])
             | Some decodedServiceID \<Rightarrow>
                 let deletedPools = doomed_pools (as_registry s) decodedServiceID nodePath
                 in case (if nodePath \<noteq> '''' then
                            map_option (\<lambda>p. snd (Registry_RemoveByServiceIDAndPath decodedServiceID p (as_registry s))) (QueryUnescape nodePath)
                          else Some (snd (Registry_RemoveByServiceID decodedServiceID (as_registry s)))) of
                      None \<Rightarrow> (fail ''Invalid path'' 400, s, [])
                    | Some reg \<Rightarrow>
                        let s = (with_registry reg s)\<lparr>as_poolMgr := drop_pools deletedPools (as_poolMgr s)\<rparr>
                        in (Silent, s,
                            BroadcastSync config (as_sync s) @
                            (if length deletedPools > 0 then BroadcastDeletedPaths config (map fst deletedPools) (as_sync s) else [])))"

section \<open>Heartbeats, the sweep and connecting\<close>

definition handleHeartbeat ::
    "Config \<Rightarrow> time \<Rightarrow> Request \<Rightarrow> HeartbeatRequest Body \<Rightarrow> AdminServer \<Rightarrow> unit Reply \<times> AdminServer" where
  "handleHeartbeat config now r body s =
     (if rq_method r \<noteq> ''POST'' then (fail ''Method not allowed'' 405, s)
      else case requireAPIKeyOrLocal config r new_writer of
        (False, w) \<Rightarrow> (Plain w, s)
      | (True, w) \<Rightarrow>
          (case body of
             Unreadable \<Rightarrow> (fail ''Bad request'' 400, s)
           | BadJson \<Rightarrow> (fail ''Invalid JSON'' 400, s)
           | Decoded hb \<Rightarrow>
               (case Registry_UpdateHeartbeat now (hb_ServiceID hb) (hb_Healthy hb) (as_registry s) of
                  (Inl err, reg) \<Rightarrow> (fail err 400, with_registry reg s)
                | (Inr _, reg) \<Rightarrow> (Silent, with_registry reg s))))"

text \<open>One tick of the cleaning goroutine, with the two figures it publishes as metrics.\<close>

definition admin_tick :: "Config \<Rightarrow> time \<Rightarrow> AdminServer \<Rightarrow> AdminServer \<times> int \<times> int" where
  "admin_tick config now s =
     (let (deletedEps, reg) = Registry_CheckStaleEndpoints now (cfg_HeartbeatTimeout config) (as_registry s);
          m = drop_pools (map (\<lambda>ep. (ep_NodePath ep, ep_EpID ep)) deletedEps) (as_poolMgr s);
          reg = Registry_CleanStaleRemoteNodes now (dur_mul (cfg_HeartbeatTimeout config) 2)
                  (dur_mul (cfg_HeartbeatTimeout config) 3) reg
      in ((with_registry reg s)\<lparr>as_poolMgr := m\<rparr>,
          int (length (Registry_GetRemoteNodes reg)) + 1, int (length (Registry_ListEndpoints reg))))"

text \<open>The answer of the other node to a join request.\<close>

datatype JoinAnswer = JoinUnreachable string | JoinStatus int string | JoinGarbled | JoinAccepted string

definition join_url :: "Config \<Rightarrow> string \<Rightarrow> string" where
  "join_url config ip = ''http://'' @ ip @ '':'' @ Itoa (base_port (cfg_ListenAddr config) + 1) @ ''/v1/gossip/join''"

definition handleConnect ::
    "Config \<Rightarrow> (string \<Rightarrow> JoinAnswer) \<Rightarrow> time \<Rightarrow> Request \<Rightarrow> string Body \<Rightarrow> AdminServer \<Rightarrow> string Reply \<times> AdminServer \<times> Post list" where
  "handleConnect config join now r body s =
     (if rq_method r \<noteq> ''POST'' then (fail ''Method not allowed'' 405, s, [])
      else case body of
        Unreadable \<Rightarrow> (fail ''Failed to read request body'' 400, s, [])
      | BadJson \<Rightarrow> (fail ''Invalid JSON'' 400, s, [])
      | Decoded ip \<Rightarrow>
          if ip = '''' then (fail ''ip is required'' 400, s, [])
          else (case join (join_url config ip) of
                  JoinUnreachable err \<Rightarrow> (fail (''Failed to connect to remote node: '' @ err) 502, s, [])
                | JoinStatus code respBody \<Rightarrow>
                    if code \<noteq> 200 then (fail (''Remote node returned error: '' @ respBody) 502, s, [])
                    else (fail ''Failed to decode remote response'' 500, s, [])
                | JoinGarbled \<Rightarrow> (fail ''Failed to decode remote response'' 500, s, [])
                | JoinAccepted nodeID \<Rightarrow>
                    if nodeID \<noteq> '''' then
                      let (sync, posts) = JoinNode config now nodeID ip (as_sync s) in (Json nodeID, s\<lparr>as_sync := sync\<rparr>, posts)
                    else (Json nodeID, s, [])))"

text \<open>
  The routes of the admin server, for a path in the canonical form that the multiplexer redirects
  every request to first; it also redirects the bare name of a subtree to the subtree.
\<close>

datatype AdminRoute =
    AEndpoints | AHeartbeat | ANodes | ALocal | AGlobal | ANodeByID | AMetrics | AHealth
  | APluginPeers | APluginSend | APluginBroadcast | AConnect | AWebUI | ARedirect string | ANotFound

definition admin_route :: "string \<Rightarrow> AdminRoute" where
  "admin_route path =
     (if path = ''/v1/endpoints'' then AEndpoints
      else if path = ''/v1/heartbeat'' then AHeartbeat
      else if path = ''/v1/nodes'' then ANodes
      else if path = ''/v1/local'' then ALocal
      else if path = ''/v1/global'' then AGlobal
      else if HasPrefix path ''/v1/node/'' then ANodeByID
      else if path = ''/v1/node'' then ARedirect ''/v1/node/''
      else if path = ''/metrics'' then AMetrics
      else if path = ''/health'' then AHealth
      else if path = ''/v1/plugin/peers'' then APluginPeers
      else if path = ''/v1/plugin/send'' then APluginSend
      else if path = ''/v1/plugin/broadcast'' then APluginBroadcast
      else if path = ''/v1/connect'' then AConnect
      else if path = ''/v1/webui'' \<or> HasPrefix path ''/v1/webui/'' then AWebUI
      else ANotFound)"

definition admin_listen_addr :: "Config \<Rightarrow> string" where
  "admin_listen_addr config = ''0.0.0.0:'' @ Itoa (sscanf_port (cfg_ListenAddr config) - 1)"


section \<open>Pools and endpoints stay in step\<close>

abbreviation table :: "AdminServer \<Rightarrow> LocalEndpointStore" where
  "table s \<equiv> table_of (as_registry s)"

lemma registry_frame [simp]:
  "as_registry (with_registry reg s) = reg" "as_poolMgr (with_registry reg s) = as_poolMgr s"
  by (simp_all add: with_registry_def)

lemma drop_pools_lookup:
  "wf_pm m \<Longrightarrow> wf_pm (drop_pools pks m) \<and>
     GetPool (drop_pools pks m) p k = (if (p, k) \<in> set pks then None else GetPool m p k)"
  unfolding drop_pools_def
  by (induction pks arbitrary: m) (auto simp: RemovePool_lookup wf_pm_RemovePool split: prod.split)

lemma create_pool_for_lookup:
  "wf_pm m \<Longrightarrow> GetPool (create_pool_for ep m) p k =
     (if (p, k) = ep_key ep \<and> backend_url (ep_ServicePath ep) \<noteq> None
      then GetPool (create_pool_for ep m) (ep_NodePath ep) (ep_EpID ep) else GetPool m p k)"
  "wf_pm m \<Longrightarrow> backend_url (ep_ServicePath ep) \<noteq> None \<Longrightarrow> GetPool (create_pool_for ep m) (ep_NodePath ep) (ep_EpID ep) \<noteq> None"
  "wf_pm m \<Longrightarrow> wf_pm (create_pool_for ep m)"
  by (auto simp: create_pool_for_def CreatePool_lookup wf_pm_CreatePool split: option.split)

definition has_backend :: "LocalEndpoint option \<Rightarrow> bool" where
  "has_backend e = (case e of None \<Rightarrow> False | Some ep \<Rightarrow> backend_url (ep_ServicePath ep) \<noteq> None)"

text \<open>Exactly the endpoints whose service path starts with a port have a pool.\<close>

definition pools_match :: "LocalEndpointStore \<Rightarrow> PoolManager \<Rightarrow> bool" where
  "pools_match t m \<longleftrightarrow> wf_les t \<and> wf_pm m \<and> (\<forall>p k. GetPool m p k \<noteq> None \<longleftrightarrow> has_backend (les_abs t (p, k)))"

lemma pools_match_register:
  assumes "pools_match t m" and "distinct (map ep_key eps)" and "\<And>ep. ep \<in> set eps \<Longrightarrow> les_abs t (ep_key ep) = None"
  shows "pools_match (fold (\<lambda>ep. LocalEndpointStore_Set (ep_NodePath ep) ep) eps t) (fold create_pool_for eps m)"
  using assms
proof (induction eps arbitrary: t m)
  case (Cons e eps)
  let ?t = "LocalEndpointStore_Set (ep_NodePath e) e t" and ?m = "create_pool_for e m"
  have wf: "wf_les t" "wf_pm m" and eq: "\<And>p k. GetPool m p k \<noteq> None \<longleftrightarrow> has_backend (les_abs t (p, k))"
    using Cons.prems(1) by (auto simp: pools_match_def)
  have look: "les_abs ?t k = (if k = ep_key e then Some e else les_abs t k)" for k using wf(1) by (simp add: les_abs_Set)
  have "GetPool ?m p k \<noteq> None \<longleftrightarrow> has_backend (les_abs ?t (p, k))" for p k
  proof (cases "(p, k) = ep_key e")
    case True
    then have "GetPool m p k = None" using Cons.prems(3) [of e] eq [of p k] by (simp add: has_backend_def)
    moreover have "les_abs ?t (p, k) = Some e" using True look [of "(p, k)"] by simp
    moreover have "p = ep_NodePath e" "k = ep_EpID e" using True by simp_all
    ultimately show ?thesis
      using create_pool_for_lookup(1) [OF wf(2), of e p k] create_pool_for_lookup(2) [OF wf(2), of e]
      by (cases "backend_url (ep_ServicePath e)") (simp_all add: has_backend_def)
  next
    case False
    then have "GetPool ?m p k = GetPool m p k" "les_abs ?t (p, k) = les_abs t (p, k)"
      using create_pool_for_lookup(1) [OF wf(2), of e p k] look [of "(p, k)"] by auto
    then show ?thesis using eq [of p k] by simp
  qed
  then have "pools_match ?t ?m" using wf by (simp add: pools_match_def wf_les_Set create_pool_for_lookup(3))
  moreover have "les_abs ?t (ep_key x) = None" if "x \<in> set eps" for x
  proof -
    have "ep_key e \<notin> ep_key ` set eps" using Cons.prems(2) by simp
    with imageI [OF that, of ep_key] have "ep_key x \<noteq> ep_key e" by metis
    then show ?thesis using Cons.prems(3) that look by simp
  qed
  ultimately show ?case using Cons.IH Cons.prems(2) by simp
qed simp

lemma pools_match_drop:
  assumes m: "pools_match t m" and wf: "wf_les t'"
    and t': "\<And>k. has_backend (les_abs t' k) \<longleftrightarrow> k \<notin> set pks \<and> has_backend (les_abs t k)"
  shows "pools_match t' (drop_pools pks m)"
proof -
  have wm: "wf_pm m" and eq: "\<And>p k. GetPool m p k \<noteq> None \<longleftrightarrow> has_backend (les_abs t (p, k))"
    using m by (simp_all add: pools_match_def)
  have "GetPool (drop_pools pks m) p k \<noteq> None \<longleftrightarrow> has_backend (les_abs t' (p, k))" for p k
    using drop_pools_lookup [OF wm, of pks p k] eq [of p k] t' [of "(p, k)"] by simp
  then show ?thesis using wf drop_pools_lookup [OF wm, of pks] by (simp add: pools_match_def)
qed

lemma pools_match_keep:
  assumes "pools_match t m" and "wf_les t'" and "\<And>k. has_backend (les_abs t' k) \<longleftrightarrow> has_backend (les_abs t k)"
  shows "pools_match t' m"
  using pools_match_drop [of t m t' "[]"] assms by (simp add: drop_pools_def)

text \<open>How the operations of the handlers change the endpoint table.\<close>

lemma table_ops:
  assumes wf: "wf_les (table_of r)"
  shows "wf_les (table_of (snd (Registry_RemoveByServiceID sid r)))"
    and "les_abs (table_of (snd (Registry_RemoveByServiceID sid r))) =
      drop_keys (\<lambda>_ ep. ep_ServiceID ep = sid) (les_abs (table_of r))"
    and "wf_les (table_of (snd (Registry_UpdateHeartbeat now sid h r)))"
    and "has_backend (les_abs (table_of (snd (Registry_UpdateHeartbeat now sid h r))) k) \<longleftrightarrow>
      has_backend (les_abs (table_of r) k)"
proof -
  show "wf_les (table_of (snd (Registry_RemoveByServiceID sid r)))"
    using shrinks_ops(2) [OF wf] by (simp add: shrinks_def)
  show "les_abs (table_of (snd (Registry_RemoveByServiceID sid r))) =
      drop_keys (\<lambda>_ ep. ep_ServiceID ep = sid) (les_abs (table_of r))"
    using RemoveByServiceID_effect [OF wf [unfolded table_of_def], of sid]
    by (auto simp: table_of_def Registry_RemoveByServiceID_def)
  show "wf_les (table_of (snd (Registry_UpdateHeartbeat now sid h r)))"
    using shrinks_ops(5) [OF wf] by (simp add: shrinks_def)
  have sweep: "\<forall>k. les_abs (fold (heartbeat_step now sid h) (LocalEndpointStore_List (table_of r)) (table_of r)) k =
      Option.bind (les_abs (table_of r) k)
        (\<lambda>x. Some (if ep_ServiceID x = sid then x\<lparr>ep_Healthy := h, ep_LastHeartbeat := now\<rparr> else x))"
    by (rule les_sweep [OF wf, THEN conjunct2]) (rule heartbeat_step_sweep)
  show "has_backend (les_abs (table_of (snd (Registry_UpdateHeartbeat now sid h r))) k) \<longleftrightarrow>
      has_backend (les_abs (table_of r) k)"
    using sweep [THEN spec, of k]
    by (cases "les_abs (table_of r) k")
       (simp_all add: table_of_def Registry_UpdateHeartbeat_def LocalRegistry_UpdateHeartbeat_def has_backend_def)
qed

lemma GetByServiceID_found:
  "LocalEndpointStore_GetByServiceID s path sid = Some ep \<Longrightarrow> ep_ServiceID ep = sid"
  by (auto simp: LocalEndpointStore_GetByServiceID_def find_Some_iff split: option.splits)

lemma GetByServiceID_missing:
  assumes "LocalEndpointStore_GetByServiceID s path sid = None" and "les_abs s (path, k) = Some ep"
  shows "ep_ServiceID ep \<noteq> sid"
proof -
  obtain sub where "map_of s path = Some sub" "find (\<lambda>ep. ep_EpID ep = k) (map snd sub) = Some ep"
    using assms(2) by (auto simp: les_abs_def LocalEndpointStore_GetByEpID_def split: option.splits)
  moreover from this have "ep \<in> snd ` set sub" by (auto simp: find_Some_iff in_set_conv_nth intro!: rev_image_eqI [OF nth_mem])
  ultimately show ?thesis
    using assms(1) by (auto simp: LocalEndpointStore_GetByServiceID_def find_None_iff)
qed

lemma table_RemoveByServiceIDAndPath:
  assumes wf: "wf_les (table_of r)"
  shows "les_abs (table_of (snd (Registry_RemoveByServiceIDAndPath sid path r))) =
    drop_keys (\<lambda>k ep. fst k = path \<and> ep_ServiceID ep = sid) (les_abs (table_of r))"
proof -
  let ?s = "table_of r"
  have "les_abs (LocalEndpointStore_DeleteByServiceID path sid ?s) =
      drop_keys (\<lambda>k ep. fst k = path \<and> ep_ServiceID ep = sid) (les_abs ?s)"
    by (rule ext) (simp add: les_abs_DeleteByServiceID [OF wf] drop_keys_def split: option.split)
  moreover have "drop_keys (\<lambda>k ep. fst k = path \<and> ep_ServiceID ep = sid) (les_abs ?s) = les_abs ?s"
    if "LocalEndpointStore_GetByServiceID ?s path sid = None"
  proof (rule ext)
    fix k
    show "drop_keys (\<lambda>k ep. fst k = path \<and> ep_ServiceID ep = sid) (les_abs ?s) k = les_abs ?s k"
      using GetByServiceID_missing [OF that] by (cases k) (auto simp: drop_keys_def split: option.split)
  qed
  moreover have "ep_ServiceID ep = sid" if "LocalEndpointStore_GetByServiceID ?s path sid = Some ep" for ep
    using that by (rule GetByServiceID_found)
  ultimately show ?thesis
    by (auto simp: table_of_def Registry_RemoveByServiceIDAndPath_def LocalRegistry_RemoveByServiceIDAndPath_def split: option.split)
qed

lemma table_stale:
  assumes wf: "wf_les (table_of r)" and "0 \<le> timeout" and "2 * timeout < i64_max"
    and res: "Registry_CheckStaleEndpoints now timeout r = (deleted, r')"
  shows "wf_les (table_of r')"
    and "les_abs (table_of r') k = Option.bind (les_abs (table_of r) k) (expire now timeout)"
    and "k \<in> ep_key ` set deleted \<longleftrightarrow> (\<exists>ep. les_abs (table_of r) k = Some ep \<and> expire now timeout ep = None)"
proof -
  let ?s = "table_of r"
  have sweep: "wf_les (fold (stale_step now timeout) (LocalEndpointStore_List ?s) ?s) \<and>
      (\<forall>k. les_abs (fold (stale_step now timeout) (LocalEndpointStore_List ?s) ?s) k = Option.bind (les_abs ?s k) (expire now timeout))"
    by (rule les_sweep [OF wf]) (rule stale_step_sweep [OF assms(2,3)])
  have r': "table_of r' = fold (stale_step now timeout) (LocalEndpointStore_List ?s) ?s"
    and del: "deleted = concat (map (stale_deleted now timeout) (LocalEndpointStore_List ?s))"
    using res by (auto simp: Registry_CheckStaleEndpoints_def CheckStale_split table_of_def)
  show "wf_les (table_of r')" and "les_abs (table_of r') k = Option.bind (les_abs ?s k) (expire now timeout)"
    using sweep unfolding r' by blast+
  show "k \<in> ep_key ` set deleted \<longleftrightarrow> (\<exists>ep. les_abs ?s k = Some ep \<and> expire now timeout ep = None)"
  proof
    assume "k \<in> ep_key ` set deleted"
    then obtain ep where "ep \<in> set (LocalEndpointStore_List ?s)" "expire now timeout ep = None" "k = ep_key ep"
      using stale_deleted_expire [OF assms(2,3)] by (auto simp: del)
    then show "\<exists>ep. les_abs ?s k = Some ep \<and> expire now timeout ep = None" using les_abs_List [OF wf] by blast
  next
    assume "\<exists>ep. les_abs ?s k = Some ep \<and> expire now timeout ep = None"
    then obtain ep where ep: "les_abs ?s k = Some ep" "expire now timeout ep = None" by blast
    then have k: "k = ep_key ep" using les_abs_key [OF wf] by blast
    then have "ep \<in> set (LocalEndpointStore_List ?s)" using ep les_abs_List [OF wf] by simp
    then have "ep \<in> set deleted" using ep stale_deleted_expire [OF assms(2,3), of ep now ep] by (auto simp: del)
    then show "k \<in> ep_key ` set deleted" using k by blast
  qed
qed

lemma has_backend_expire:
  "has_backend (Option.bind e (expire now timeout)) \<longleftrightarrow> has_backend e \<and> \<not> (\<exists>ep. e = Some ep \<and> expire now timeout ep = None)"
  by (cases e) (auto simp: has_backend_def expire_def)

lemma has_backend_drop:
  "has_backend (drop_keys P f k) \<longleftrightarrow> has_backend (f k) \<and> \<not> (\<exists>ep. f k = Some ep \<and> P k ep)"
  by (cases "f k") (auto simp: has_backend_def drop_keys_def)

lemma doomed_pools_keys:
  assumes wf: "wf_les (table_of r)"
  shows "k \<in> set (doomed_pools r sid path) \<longleftrightarrow>
    (\<exists>ep. les_abs (table_of r) k = Some ep \<and> ep_ServiceID ep = sid \<and> (path = '''' \<or> fst k = path))"
proof -
  have "k \<in> set (doomed_pools r sid path) \<longleftrightarrow>
      (\<exists>ep. k = ep_key ep \<and> les_abs (table_of r) (ep_key ep) = Some ep \<and> ep_ServiceID ep = sid \<and> (path = '''' \<or> ep_NodePath ep = path))"
    using les_abs_List [OF wf]
    by (auto simp: doomed_pools_def Registry_ListEndpoints_def table_of_def image_iff)
  also have "\<dots> \<longleftrightarrow> (\<exists>ep. les_abs (table_of r) k = Some ep \<and> ep_ServiceID ep = sid \<and> (path = '''' \<or> fst k = path))"
    using les_abs_key [OF wf, of k] by (cases k) auto
  finally show ?thesis .
qed

lemma table_metrics:
  assumes wf: "wf_les (table_of r)"
  shows "wf_les (table_of (metrics_callback p e a q r))"
    and "has_backend (les_abs (table_of (metrics_callback p e a q r)) k) \<longleftrightarrow> has_backend (les_abs (table_of r) k)"
proof -
  show "wf_les (table_of (metrics_callback p e a q r))"
    using shrinks_ops(7) [OF wf] by (simp add: shrinks_def metrics_callback_def)
  show "has_backend (les_abs (table_of (metrics_callback p e a q r)) k) \<longleftrightarrow> has_backend (les_abs (table_of r) k)"
  proof (cases "les_abs (table_of r) (p, e)")
    case None
    then show ?thesis
      by (simp add: metrics_callback_def Registry_UpdateEndpointMetricsByEpID_def
          LocalRegistry_UpdateEndpointMetricsByEpID_def table_of_def les_abs_def)
  next
    case (Some ep)
    then have key: "(p, e) = ep_key ep" using les_abs_key [OF wf] by blast
    have "table_of (metrics_callback p e a q r) = LocalEndpointStore_Set p (ep\<lparr>ep_Active := a, ep_QueueLen := q\<rparr>) (table_of r)"
      using Some by (simp add: metrics_callback_def Registry_UpdateEndpointMetricsByEpID_def
          LocalRegistry_UpdateEndpointMetricsByEpID_def table_of_def les_abs_def)
    then show ?thesis using Some key by (simp add: les_abs_Set [OF wf] has_backend_def)
  qed
qed

section \<open>The admin server as a step system\<close>

text \<open>
  Requests, ticks, metric callbacks, gossip traffic and the work of the pools, in any order. The ids a
  registration draws are UUIDs: different from each other and from the ids in use. A deletion by
  path uses a value that survives being decoded twice; the heartbeat timeout is not negative and its
  double does not overflow. Gossip changes the remote half of the registry and the peer table, serving requests changes
  the counters inside the pools.
\<close>

inductive admin_step :: "Config \<Rightarrow> AdminServer \<Rightarrow> AdminServer \<Rightarrow> bool" for config :: Config where
  post: "(\<And>n. inj_on ids {1..n}) \<Longrightarrow>
     (\<And>ep i. ep \<in> set (Registry_ListEndpoints (as_registry s)) \<Longrightarrow> 1 \<le> i \<Longrightarrow> ep_EpID ep \<noteq> ids i) \<Longrightarrow>
     handlePostEndpoints config ids now r body s = (res, s', posts) \<Longrightarrow> admin_step config s s'"
| delete: "QueryUnescape (header_get (rq_query r) ''path'') = Some (header_get (rq_query r) ''path'') \<Longrightarrow>
     handleDeleteEndpoints config r s = (reply, s', sent) \<Longrightarrow> admin_step config s s'"
| heartbeat: "handleHeartbeat config now r hb s = (reply, s') \<Longrightarrow> admin_step config s s'"
| tick: "0 \<le> cfg_HeartbeatTimeout config \<Longrightarrow> 2 * cfg_HeartbeatTimeout config < i64_max \<Longrightarrow>
     admin_tick config now s = (s', nodes, endpoints) \<Longrightarrow> admin_step config s s'"
| connect: "handleConnect config join now r ip s = (answer, s', sent) \<Longrightarrow> admin_step config s s'"
| metrics: "admin_step config s (with_registry (metrics_callback path epID active queued (as_registry s)) s)"
| gossip: "reg_local (sy_registry sync) = reg_local (as_registry s) \<Longrightarrow> admin_step config s (s\<lparr>as_sync := sync\<rparr>)"
| serve: "wf_pm m \<Longrightarrow> (\<And>p k. GetPool m p k = None \<longleftrightarrow> GetPool (as_poolMgr s) p k = None) \<Longrightarrow>
     admin_step config s (s\<lparr>as_poolMgr := m\<rparr>)"

definition admin_inv :: "AdminServer \<Rightarrow> bool" where
  "admin_inv s \<longleftrightarrow> pools_match (table s) (as_poolMgr s)"

lemma admin_inv_wf: "admin_inv s \<Longrightarrow> wf_les (table s)"
  by (simp add: admin_inv_def pools_match_def)

lemma admin_inv_sync: "reg_local (sy_registry sync) = reg_local (as_registry s) \<Longrightarrow> admin_inv (s\<lparr>as_sync := sync\<rparr>) = admin_inv s"
  by (simp add: admin_inv_def table_of_def)

lemma register_outcomes:
  assumes "Registry_RegisterEndpoints ids eps r = (res, r')"
  shows "case res of
      Inl e \<Rightarrow> r' = r
    | Inr sid \<Rightarrow> sid = ids 0 \<and> table_of r' = fold (\<lambda>ep. LocalEndpointStore_Set (ep_NodePath ep) ep) (stamp_ids ids eps) (table_of r)"
  using assms
  by (cases eps) (auto simp: Registry_RegisterEndpoints_def LocalRegistry_RegisterEndpoints_def table_of_def stamp_ids_def Let_def
      split: option.splits list.splits)

lemma admin_inv_post:
  assumes inv: "admin_inv s" and inj: "\<And>n. inj_on ids {1..n}"
    and fresh: "\<And>ep i. ep \<in> set (Registry_ListEndpoints (as_registry s)) \<Longrightarrow> 1 \<le> i \<Longrightarrow> ep_EpID ep \<noteq> ids i"
    and reg: "Registry_RegisterEndpoints ids eps (as_registry s) = (Inr sid, reg)"
  shows "admin_inv ((with_registry reg s)\<lparr>as_poolMgr := fold create_pool_for (stamp_ids ids eps) (as_poolMgr s)\<rparr>)"
proof -
  note wf = admin_inv_wf [OF inv]
  have "les_abs (table s) (ep_key ep) = None" if ep: "ep \<in> set (stamp_ids ids eps)" for ep
  proof (rule ccontr)
    obtain i where i: "ep_EpID ep = ids (Suc i)" using ep by (auto simp: stamp_ids_in)
    assume "les_abs (table s) (ep_key ep) \<noteq> None"
    then obtain e where e: "les_abs (table s) (ep_key ep) = Some e" by blast
    then have key: "ep_key ep = ep_key e" using les_abs_key [OF wf] by blast
    then have "e \<in> set (Registry_ListEndpoints (as_registry s))"
      using e les_abs_List [OF wf, of e] by (simp add: Registry_ListEndpoints_def table_of_def)
    then show False using fresh [of e "Suc i"] key i by simp
  qed
  then show ?thesis
    using pools_match_register [OF inv [unfolded admin_inv_def] distinct_stamped_keys [OF inj]] register_outcomes [OF reg]
    by (simp add: admin_inv_def)
qed

lemma admin_inv_register_fails:
  assumes "admin_inv s" and "Registry_RegisterEndpoints ids eps (as_registry s) = (Inl e, reg)"
  shows "admin_inv (with_registry reg s)"
  using assms register_outcomes [OF assms(2)] by (simp add: admin_inv_def)

lemma admin_inv_handlePost:
  assumes "admin_inv s" and "\<And>n. inj_on ids {1..n}"
    and "\<And>ep i. ep \<in> set (Registry_ListEndpoints (as_registry s)) \<Longrightarrow> 1 \<le> i \<Longrightarrow> ep_EpID ep \<noteq> ids i"
    and post: "handlePostEndpoints config ids now r body s = (res, s', posts)"
  shows "admin_inv s'"
  using post assms(1) unfolding handlePostEndpoints_def
  by (auto simp: Let_def intro: admin_inv_register_fails admin_inv_post [OF assms(1-3)]
      split: prod.splits bool.splits Body.splits sum.splits RegisterError.splits)

lemma admin_inv_handleDelete:
  assumes inv: "admin_inv s"
    and dec: "QueryUnescape (header_get (rq_query r) ''path'') = Some (header_get (rq_query r) ''path'')"
    and del: "handleDeleteEndpoints config r s = (reply, s', sent)"
  shows "admin_inv s'"
proof -
  note wf = admin_inv_wf [OF inv]
  let ?p = "header_get (rq_query r) ''path''"
  have "admin_inv ((with_registry (snd (Registry_RemoveByServiceIDAndPath sid ?p (as_registry s))) s)
      \<lparr>as_poolMgr := drop_pools (doomed_pools (as_registry s) sid ?p) (as_poolMgr s)\<rparr>)" if "?p \<noteq> ''''" for sid
    unfolding admin_inv_def
    using pools_match_drop [OF inv [unfolded admin_inv_def], of "table_of (snd (Registry_RemoveByServiceIDAndPath sid ?p (as_registry s)))"
        "doomed_pools (as_registry s) sid ?p"] shrinks_ops(3) [OF wf, of sid ?p] that
    by (auto simp: shrinks_def table_RemoveByServiceIDAndPath [OF wf] has_backend_drop doomed_pools_keys [OF wf])
  moreover have "admin_inv ((with_registry (snd (Registry_RemoveByServiceID sid (as_registry s))) s)
      \<lparr>as_poolMgr := drop_pools (doomed_pools (as_registry s) sid '''') (as_poolMgr s)\<rparr>)" for sid
    unfolding admin_inv_def
    using pools_match_drop [OF inv [unfolded admin_inv_def], of "table_of (snd (Registry_RemoveByServiceID sid (as_registry s)))"
        "doomed_pools (as_registry s) sid ''''"] table_ops(1) [OF wf]
    by (auto simp: table_ops(2) [OF wf] has_backend_drop doomed_pools_keys [OF wf])
  ultimately have "admin_inv (fst (snd (handleDeleteEndpoints config r s)))"
    using inv dec by (simp add: handleDeleteEndpoints_def Let_def split: prod.split bool.split option.split)
  then show ?thesis by (simp add: del)
qed

lemma admin_inv_handleHeartbeat:
  assumes inv: "admin_inv s" and hb: "handleHeartbeat config now r body s = (reply, s')"
  shows "admin_inv s'"
proof -
  note wf = admin_inv_wf [OF inv]
  have "admin_inv (with_registry reg s)"
    if "Registry_UpdateHeartbeat now sid h (as_registry s) = (res, reg)" for sid h res reg
    using pools_match_keep [OF inv [unfolded admin_inv_def] table_ops(3,4) [OF wf], of now sid h] that
    by (simp add: admin_inv_def)
  then show ?thesis
    using hb inv unfolding handleHeartbeat_def
    by (auto split: prod.splits bool.splits Body.splits sum.splits if_splits)
qed

lemma admin_inv_tick:
  assumes inv: "admin_inv s" and "0 \<le> cfg_HeartbeatTimeout config" and "2 * cfg_HeartbeatTimeout config < i64_max"
    and tick: "admin_tick config now s = (s', n, e)"
  shows "admin_inv s'"
proof -
  note wf = admin_inv_wf [OF inv]
  obtain deleted r' where res: "Registry_CheckStaleEndpoints now (cfg_HeartbeatTimeout config) (as_registry s) = (deleted, r')"
    by (metis prod.exhaust)
  note stale = table_stale [OF wf assms(2,3) res]
  have "pools_match (table_of r') (drop_pools (map ep_key deleted) (as_poolMgr s))"
    by (rule pools_match_drop [OF inv [unfolded admin_inv_def] stale(1)])
       (simp only: set_map stale(2,3) has_backend_expire, blast)
  moreover have "table s' = table_of r'" "as_poolMgr s' = drop_pools (map ep_key deleted) (as_poolMgr s)"
    using tick by (auto simp: admin_tick_def res table_of_def Registry_CleanStaleRemoteNodes_def Let_def with_registry_def)
  ultimately show ?thesis by (simp add: admin_inv_def)
qed

lemma AddPeer_local: "reg_local (sy_registry (fst (AddPeer config now nodeID address s))) = reg_local (sy_registry s)"
  by (auto simp: AddPeer_def addPeerLocked_def Registry_UpdateRemoteNode_def Registry_TouchRemoteNodeLastSeen_def Let_def
      split: prod.split option.split)

interpretation admin_sys: invariant_system
  "\<lambda>s. table s = NewLocalEndpointStore \<and> (\<exists>n q t. as_poolMgr s = NewManagerWithQueueCapacity n q t)" "admin_step config" admin_inv
  for config
proof
  show "admin_inv s" if "table s = NewLocalEndpointStore \<and> (\<exists>n q t. as_poolMgr s = NewManagerWithQueueCapacity n q t)" for s
  proof -
    have "GetPool (NewManagerWithQueueCapacity n q t) p k = None" for n q t p k
      by (simp add: NewManagerWithQueueCapacity_def GetPool_def)
    then show ?thesis
      using that by (auto simp: admin_inv_def pools_match_def has_backend_def les_abs_def NewLocalEndpointStore_def
          LocalEndpointStore_GetByEpID_def wf_les_New [unfolded NewLocalEndpointStore_def])
  qed
  show "admin_inv t" if inv: "admin_inv s" and "admin_step config s t" for s t
    using that(2)
  proof cases
    case post
    then show ?thesis using admin_inv_handlePost [OF inv] by blast
  next
    case delete
    then show ?thesis using admin_inv_handleDelete [OF inv] by blast
  next
    case heartbeat
    then show ?thesis using admin_inv_handleHeartbeat [OF inv] by blast
  next
    case tick
    then show ?thesis using admin_inv_tick [OF inv] by blast
  next
    case (connect join now r ip answer sent)
    then show ?thesis
      using inv by (auto simp: handleConnect_def JoinNode_def Let_def AddPeer_local
          dest: arg_cong [of _ _ "\<lambda>x. reg_local (sy_registry (fst x))"] intro!: admin_inv_sync [THEN iffD2] split: if_splits Body.splits JoinAnswer.splits prod.splits)
  next
    case (metrics path epID active queued)
    then show ?thesis
      using pools_match_keep [OF inv [unfolded admin_inv_def] table_metrics(1) [OF admin_inv_wf [OF inv]]]
        table_metrics(2) [OF admin_inv_wf [OF inv]] by (simp add: admin_inv_def)
  next
    case (gossip sync)
    then show ?thesis using inv by (simp add: admin_inv_sync)
  next
    case (serve m)
    then show ?thesis using inv by (simp add: admin_inv_def pools_match_def)
  qed
qed


section \<open>What a registration leaves behind\<close>

lemma fold_create_other:
  "wf_pm m \<Longrightarrow> (p, k) \<notin> ep_key ` set eps \<Longrightarrow> GetPool (fold create_pool_for eps m) p k = GetPool m p k"
proof (induction eps arbitrary: m)
  case (Cons e eps)
  then have ne: "(p, k) \<noteq> ep_key e" and "(p, k) \<notin> ep_key ` set eps" by auto
  then show ?case
    using Cons.IH [OF create_pool_for_lookup(3) [OF Cons.prems(1)]] create_pool_for_lookup(1) [OF Cons.prems(1), of e p k]
    by (simp del: prod.inject)
qed simp

lemma create_pool_for_own:
  assumes "wf_pm m" and "backend_url (ep_ServicePath ep) = Some url" and "1 \<le> sint (ep_MaxConcurrent ep)"
  shows "\<exists>p. GetPool (create_pool_for ep m) (ep_NodePath ep) (ep_EpID ep) = Some p \<and>
    rp_targetURL p = url \<and> rp_maxConcur p = ep_MaxConcurrent ep"
  using assms by (simp add: create_pool_for_def CreatePool_lookup NewRequestPool_def split: option.split)

lemma fold_create_own:
  assumes "wf_pm m" and "distinct (map ep_key eps)" and "ep \<in> set eps" and url: "backend_url (ep_ServicePath ep) = Some url" "1 \<le> sint (ep_MaxConcurrent ep)"
  shows "\<exists>p. GetPool (fold create_pool_for eps m) (ep_NodePath ep) (ep_EpID ep) = Some p \<and>
    rp_targetURL p = url \<and> rp_maxConcur p = ep_MaxConcurrent ep"
  using assms(1-3)
proof (induction eps arbitrary: m)
  case (Cons e eps)
  show ?case
  proof (cases "ep \<in> set eps")
    case True
    then show ?thesis using Cons.IH [OF create_pool_for_lookup(3) [OF Cons.prems(1)]] Cons.prems(2) by simp
  next
    case False
    then have e: "e = ep" using Cons.prems(3) by simp
    have "(ep_NodePath ep, ep_EpID ep) \<notin> ep_key ` set eps" using Cons.prems(2) by (simp add: e)
    then have "GetPool (fold create_pool_for (e # eps) m) (ep_NodePath ep) (ep_EpID ep) =
        GetPool (create_pool_for ep m) (ep_NodePath ep) (ep_EpID ep)"
      using fold_create_other [OF create_pool_for_lookup(3) [OF Cons.prems(1), of ep]] by (simp add: e)
    then show ?thesis using create_pool_for_own [OF Cons.prems(1) url] by simp
  qed
qed simp

lemma parse_endpoints_ok:
  "parse_endpoints now eps = Inr les \<Longrightarrow> les = map (new_endpoint now) eps"
  by (induction eps arbitrary: les) (auto simp: Let_def split: if_splits sum.splits)

lemma new_endpoint_fields:
  "ep_ServicePath (new_endpoint now er) = er_ServicePath er" "ep_NodePath (new_endpoint now er) = er_NodePath er"
  "ep_Healthy (new_endpoint now er)" "ep_LastHeartbeat (new_endpoint now er) = now"
  by (simp_all add: new_endpoint_def Let_def)

lemma new_endpoint_capacity:
  "1 \<le> sint (ep_MaxConcurrent (new_endpoint now er))"
  "1 \<le> er_MaxConcurrent er \<Longrightarrow> er_MaxConcurrent er < 2 ^ 31 \<Longrightarrow>
   sint (ep_MaxConcurrent (new_endpoint now er)) = er_MaxConcurrent er"
  by (simp_all add: new_endpoint_def Let_def sint_i32_of_int)

lemma registered_endpoint:
  assumes reg: "Registry_RegisterEndpoints ids eps r = (Inr sid, r')"
    and wf: "wf_les (table_of r)" and inj: "inj_on ids {1..length eps}" and i: "i < length eps"
  shows "Registry_GetEndpointByEpID r' (ep_NodePath (eps ! i)) (ids (Suc i)) =
    Some ((eps ! i)\<lparr>ep_ServiceID := ids 0, ep_EpID := ids (Suc i)\<rparr>)"
proof -
  let ?e = "(eps ! i)\<lparr>ep_ServiceID := ids 0, ep_EpID := ids (Suc i)\<rparr>"
  have "?e \<in> set (stamp_ids ids eps)" using i by (auto simp: stamp_ids_in)
  then have "find (\<lambda>ep. ep_key ep = ep_key ?e) (stamp_ids ids eps) = Some ?e"
    using find_stamped [OF inj] by blast
  then have "les_abs (table_of r') (ep_key ?e) = Some ?e"
    using register_outcomes [OF reg] fold_Set_lookup [OF wf distinct_stamped_keys [OF inj], of "ep_key ?e"] by simp
  then show ?thesis by (simp add: les_abs_def Registry_GetEndpointByEpID_def table_of_def)
qed


section \<open>A registration in full\<close>

definition sample_server :: AdminServer where
  "sample_server = \<lparr>as_sync = Sync_New Registry_New, as_poolMgr = NewManagerWithQueueCapacity 10 100 (seconds 60)\<rparr>"

definition sample_chat :: EndpointInfoRequest where
  "sample_chat = \<lparr>er_ServicePath = Itoa 8080 @ ''/api'', er_NodePath = ''/chat'', er_MaxConcurrent = 5,
     er_Description = ''chat'', er_LocalOnly = False, er_Plugin = False\<rparr>"

definition open_config :: Config where
  "open_config = (load_config sample_env)\<lparr>cfg_DisableAdminAuth := True\<rparr>"

abbreviation sample_post :: "EndpointRegistrationResponse Outcome \<times> AdminServer \<times> Post list" where
  "sample_post \<equiv> handlePostEndpoints open_config sample_ids 7 sample_request (Decoded [sample_chat]) sample_server"

lemma sample_ids_inj: "inj_on sample_ids A"
  by (rule inj_onI) (metis length_replicate sample_ids_def)

lemma sample_server_fresh: "table sample_server = NewLocalEndpointStore" "Registry_ListEndpoints (as_registry sample_server) = []"
  by (simp_all add: sample_server_def Sync_New_def Registry_New_def NewLocalRegistry_def table_of_def Registry_ListEndpoints_def
      LocalEndpointStore_List_def NewLocalEndpointStore_def nested_list_def)

lemma backend_url_port:
  assumes "0 \<le> port" and "port \<le> i64_max"
  shows "backend_url (Itoa port @ ''/'' @ base) = Some (''http://localhost:'' @ Itoa port @ ''/'' @ base)"
proof -
  have no: "x \<noteq> CHR ''/''" if "x \<in> set (Itoa port)" for x using Itoa_no_slash [OF assms(1)] that by metis
  have "takeWhile (\<lambda>x. x \<noteq> CHR ''/'') (Itoa port @ ''/'' @ base) = Itoa port"
    "dropWhile (\<lambda>x. x \<noteq> CHR ''/'') (Itoa port @ ''/'' @ base) = ''/'' @ base"
    using no by (simp_all add: takeWhile_append2 dropWhile_append2)
  moreover have "Atoi (Itoa port) = Some port" using assms by (intro Atoi_Itoa) (auto simp: i64_min_def)
  ultimately show ?thesis by (simp add: backend_url_def SplitN2_def Let_def)
qed

lemma sample_url: "backend_url (Itoa 8080 @ ''/api'') = Some (''http://localhost:'' @ Itoa 8080 @ ''/api'')"
  using backend_url_port [of 8080 "''api''"] by (simp add: i64_max_def)

lemma sample_admitted: "requireAPIKeyOrLocal open_config sample_request new_writer = (True, new_writer)"
  by (simp add: requireAPIKeyOrLocal_def open_config_def)

lemma sample_parsed: "parse_endpoints 7 [sample_chat] = Inr [new_endpoint 7 sample_chat]"
  by (simp add: HasSuffix_char sample_chat_def Let_def)

lemma sample_registered:
  "\<exists>reg. Registry_RegisterEndpoints sample_ids [new_endpoint 7 sample_chat] (as_registry sample_server) = (Inr '''', reg)"
proof -
  have "lr_endpoints (reg_local (as_registry sample_server)) = []"
    using sample_server_fresh(1) by (simp add: table_of_def NewLocalEndpointStore_def)
  then show ?thesis
    by (simp add: Registry_RegisterEndpoints_def LocalRegistry_RegisterEndpoints_def stamp_ids_def plugin_clash_def
        LocalEndpointStore_List_def nested_list_def sample_ids_def)
qed

lemma sample_post_done:
  obtains resp s posts where "sample_post = (Done (Json resp), s, posts)"
    and "\<exists>ep. Registry_GetEndpointByEpID (as_registry s) ''/chat'' ''x'' = Some ep \<and> ep_ServicePath ep = Itoa 8080 @ ''/api''"
proof -
  obtain reg where reg: "Registry_RegisterEndpoints sample_ids [new_endpoint 7 sample_chat] (as_registry sample_server) = (Inr '''', reg)"
    using sample_registered by blast
  have "Registry_GetEndpointByEpID reg (er_NodePath sample_chat) (sample_ids 1) =
      Some ((new_endpoint 7 sample_chat)\<lparr>ep_ServiceID := sample_ids 0, ep_EpID := sample_ids 1\<rparr>)"
    using registered_endpoint [OF reg _ sample_ids_inj, of 0] by (simp add: sample_server_fresh new_endpoint_fields)
  then have "\<exists>ep. Registry_GetEndpointByEpID reg ''/chat'' ''x'' = Some ep \<and> ep_ServicePath ep = Itoa 8080 @ ''/api''"
    by (simp add: sample_ids_def sample_chat_def new_endpoint_def)
  then show thesis
    using that by (simp add: handlePostEndpoints_def sample_admitted sample_parsed reg Let_def del: parse_endpoints.simps)
qed

lemma sample_post_reachable:
  assumes "sample_post = (res, s, posts)"
  shows "reach (\<lambda>s. table s = NewLocalEndpointStore \<and> (\<exists>n q t. as_poolMgr s = NewManagerWithQueueCapacity n q t))
    (admin_step open_config) s"
proof (rule reach_step)
  show "reach (\<lambda>s. table s = NewLocalEndpointStore \<and> (\<exists>n q t. as_poolMgr s = NewManagerWithQueueCapacity n q t))
    (admin_step open_config) sample_server"
    by (rule reach_init) (use sample_server_fresh(1) in \<open>auto simp: sample_server_def\<close>)
  show "admin_step open_config sample_server s"
    by (rule post [OF _ _ assms]) (simp_all add: sample_ids_inj sample_server_fresh(2))
qed



end
