(* ===== verification/Admin_Views.thy ===== *)
theory Admin_Views
  imports Admin
begin

text \<open>
  The handlers of \<open>internal/admin/handlers.go\<close> that read: the listings of endpoints and nodes, the messages
  between plugins, and the web interface of \<open>internal/admin/server.go\<close>. A JSON object becomes a record with
  one field per key, an option where only some of the objects have the key. The table of the request
  multiplexer that ties every handler to its route is \<open>admin_serve\<close>.
\<close>

declare map_of_eq_Some_iff [simp del] Some_eq_map_of_iff [simp del]

section \<open>Listings\<close>

record EndpointView =
  ev_path :: string
  ev_service_path :: "string option"
  ev_active :: i32
  ev_queue_len :: i32
  ev_healthy :: bool
  ev_max_concurrent :: i32
  ev_plugin :: bool

record NodeView =
  nv_node_id :: string
  nv_address :: "string option"
  nv_service_port :: "int option"
  nv_healthy :: bool
  nv_endpoints :: "EndpointView list"

definition local_view :: "LocalEndpoint \<Rightarrow> EndpointView" where
  "local_view ep =
     \<lparr>ev_path = ep_NodePath ep, ev_service_path = Some (ep_ServicePath ep), ev_active = ep_Active ep,
      ev_queue_len = ep_QueueLen ep, ev_healthy = ep_Healthy ep, ev_max_concurrent = ep_MaxConcurrent ep,
      ev_plugin = ep_Plugin ep\<rparr>"

definition handleLocal :: "Config \<Rightarrow> Request \<Rightarrow> AdminServer \<Rightarrow> NodeView Reply" where
  "handleLocal config r s =
     (if rq_method r \<noteq> ''GET'' then fail ''Method not allowed'' 405
      else Json \<lparr>nv_node_id = cfg_NodeID config, nv_address = None, nv_service_port = None, nv_healthy = True,
                 nv_endpoints = map local_view (Registry_ListEndpoints (as_registry s))\<rparr>)"

record PathView =
  pv_path :: string
  pv_service_path :: "string option"
  pv_ep_id :: "string option"
  pv_description :: string
  pv_max_concurrent :: i32
  pv_plugin :: bool
  pv_active :: i32
  pv_queue_len :: i32
  pv_healthy :: bool

record GlobalNode =
  gn_node_id :: string
  gn_healthy :: bool
  gn_last_seen :: "time option"
  gn_path_infos :: "PathView list"

definition local_path_view :: "LocalEndpoint \<Rightarrow> PathView" where
  "local_path_view ep =
     \<lparr>pv_path = ep_NodePath ep, pv_service_path = Some (ep_ServicePath ep), pv_ep_id = Some (ep_EpID ep),
      pv_description = ep_Description ep, pv_max_concurrent = ep_MaxConcurrent ep, pv_plugin = ep_Plugin ep,
      pv_active = ep_Active ep, pv_queue_len = ep_QueueLen ep, pv_healthy = ep_Healthy ep\<rparr>"

definition described_view :: "string \<Rightarrow> EndpointMetadata \<Rightarrow> PathView" where
  "described_view path desc =
     \<lparr>pv_path = path, pv_service_path = None, pv_ep_id = None, pv_description = md_Description desc,
      pv_max_concurrent = md_MaxConcurrent desc, pv_plugin = md_Plugin desc, pv_active = 0, pv_queue_len = 0,
      pv_healthy = True\<rparr>"

definition merge_state :: "string \<times> EndpointState \<Rightarrow> PathView gomap \<Rightarrow> PathView gomap" where
  "merge_state = (\<lambda>(path, state) pathInfos.
     (case map_of pathInfos path of
        Some info \<Rightarrow>
          let info = info\<lparr>pv_healthy := es_Healthy state\<rparr>;
              info = info\<lparr>pv_active := pv_active info + es_Active state\<rparr>;
              info = info\<lparr>pv_queue_len := pv_queue_len info + es_QueueLen state\<rparr>;
              info = (if es_Plugin state then info\<lparr>pv_plugin := True\<rparr> else info);
              info = (if \<not> es_Healthy state then info\<lparr>pv_healthy := False\<rparr> else info)
          in AList.update path info pathInfos
      | None \<Rightarrow>
          AList.update path
            \<lparr>pv_path = path, pv_service_path = None, pv_ep_id = None, pv_description = '''',
             pv_max_concurrent = es_MaxConcurrent state, pv_plugin = es_Plugin state, pv_active = es_Active state,
             pv_queue_len = es_QueueLen state, pv_healthy = es_Healthy state\<rparr> pathInfos))"

definition global_path_infos :: "RemoteNode \<Rightarrow> PathView gomap" where
  "global_path_infos node =
     fold merge_state (rn_EndpointStates node)
       (fold (\<lambda>(path, desc). AList.update path (described_view path desc)) (rn_EndpointDescriptions node) [])"

definition global_node :: "Config \<Rightarrow> time \<Rightarrow> RemoteNode \<Rightarrow> GlobalNode" where
  "global_node config now node =
     \<lparr>gn_node_id = rn_NodeID node, gn_healthy = (time_sub now (rn_LastSeen node) < cfg_HeartbeatTimeout config),
      gn_last_seen = Some (rn_LastSeen node), gn_path_infos = map snd (global_path_infos node)\<rparr>"

definition handleGlobal :: "Config \<Rightarrow> time \<Rightarrow> Request \<Rightarrow> AdminServer \<Rightarrow> GlobalNode list Reply" where
  "handleGlobal config now r s =
     (if rq_method r \<noteq> ''GET'' then fail ''Method not allowed'' 405
      else let localNode = \<lparr>gn_node_id = cfg_NodeID config, gn_healthy = True, gn_last_seen = None,
                            gn_path_infos = map local_path_view (Registry_ListEndpoints (as_registry s))\<rparr>
           in Json (localNode # map (global_node config now) (Registry_GetRemoteNodes (as_registry s))))"

record EndpointNode =
  en_NodeID :: string
  en_Address :: string
  en_Healthy :: bool
  en_Active :: i32
  en_QueueLen :: i32
  en_Plugin :: bool
  en_MaxConcurrent :: i32

record EndpointDetail =
  ed_Description :: string
  ed_Nodes :: "EndpointNode list"

definition local_endpoint_node :: "Config \<Rightarrow> LocalEndpoint \<Rightarrow> EndpointNode" where
  "local_endpoint_node config ep =
     \<lparr>en_NodeID = cfg_NodeID config,
      en_Address = GetHost (cfg_ListenAddr config) @ '':'' @ Itoa (GetPort (cfg_ListenAddr config)),
      en_Healthy = ep_Healthy ep, en_Active = ep_Active ep, en_QueueLen = ep_QueueLen ep, en_Plugin = ep_Plugin ep,
      en_MaxConcurrent = ep_MaxConcurrent ep\<rparr>"

definition remote_addr :: "RemoteNode \<Rightarrow> string" where
  "remote_addr node = rn_Address node @ '':'' @ Itoa (rn_ServicePort node)"

definition remote_endpoint_nodes :: "string \<Rightarrow> bool \<Rightarrow> RemoteNode \<Rightarrow> EndpointNode list" where
  "remote_endpoint_nodes path healthyOnly node =
     (let hasDesc = (map_of (rn_EndpointDescriptions node) path \<noteq> None)
      in case map_of (rn_EndpointStates node) path of
           Some state \<Rightarrow>
             if healthyOnly \<and> \<not> es_Healthy state then []
             else [\<lparr>en_NodeID = rn_NodeID node, en_Address = remote_addr node, en_Healthy = es_Healthy state,
                    en_Active = es_Active state, en_QueueLen = es_QueueLen state, en_Plugin = es_Plugin state,
                    en_MaxConcurrent = es_MaxConcurrent state\<rparr>]
         | None \<Rightarrow>
             if hasDesc then
               [\<lparr>en_NodeID = rn_NodeID node, en_Address = remote_addr node, en_Healthy = False, en_Active = 0,
                 en_QueueLen = 0, en_Plugin = False, en_MaxConcurrent = 0\<rparr>]
             else [])"

definition buildEndpointDetail ::
    "Config \<Rightarrow> string \<Rightarrow> bool \<Rightarrow> LocalEndpoint list \<Rightarrow> RemoteNode list \<Rightarrow> EndpointDetail option" where
  "buildEndpointDetail config path healthyOnly localEndpoints remoteNodes =
     (let (description, nodes) =
        foldl (\<lambda>(description, nodes) ep.
            if ep_NodePath ep = path then
              (ep_Description ep,
               if healthyOnly \<and> \<not> ep_Healthy ep then nodes else nodes @ [local_endpoint_node config ep])
            else (description, nodes)) ('''', []) localEndpoints;
          nodes = foldl (\<lambda>nodes node. nodes @ remote_endpoint_nodes path healthyOnly node) nodes remoteNodes
      in if length nodes = 0 \<and> healthyOnly then None
         else Some \<lparr>ed_Description = description, ed_Nodes = nodes\<rparr>)"

record EndpointsResponse =
  ers_Endpoints :: "EndpointDetail gomap"
  ers_Timestamp :: time

definition known_paths :: "LocalEndpoint list \<Rightarrow> RemoteNode list \<Rightarrow> bool gomap" where
  "known_paths localEndpoints remoteNodes =
     fold (\<lambda>node paths. fold (\<lambda>(path, _). AList.update path True) (rn_EndpointDescriptions node) paths) remoteNodes
       (fold (\<lambda>ep. AList.update (ep_NodePath ep) True) localEndpoints [])"

definition add_detail :: "string \<Rightarrow> EndpointDetail option \<Rightarrow> EndpointDetail gomap \<Rightarrow> EndpointDetail gomap" where
  "add_detail p detail eps = (case detail of None \<Rightarrow> eps | Some d \<Rightarrow> AList.update p d eps)"

definition handleGetEndpoints :: "Config \<Rightarrow> time \<Rightarrow> Request \<Rightarrow> AdminServer \<Rightarrow> EndpointsResponse Reply" where
  "handleGetEndpoints config now r s =
     (let path = header_get (rq_query r) ''path'';
          healthyOnly = (header_get (rq_query r) ''healthy_only'' = ''true'');
          localEndpoints = Registry_ListEndpoints (as_registry s);
          remoteNodes = Registry_GetRemoteNodes (as_registry s);
          detail = (\<lambda>p. buildEndpointDetail config p healthyOnly localEndpoints remoteNodes);
          eps = (if path \<noteq> '''' then add_detail path (detail path) []
                 else fold (\<lambda>(p, _). add_detail p (detail p)) (known_paths localEndpoints remoteNodes) [])
      in Json \<lparr>ers_Endpoints = eps, ers_Timestamp = now\<rparr>)"

definition handleNodes :: "Config \<Rightarrow> Request \<Rightarrow> AdminServer \<Rightarrow> string list Reply" where
  "handleNodes config r s =
     (if rq_method r \<noteq> ''GET'' then fail ''Method not allowed'' 405
      else Json (cfg_NodeID config # map pe_NodeID (GetNodes (as_sync s))))"

definition state_view :: "string \<times> EndpointState \<Rightarrow> EndpointView" where
  "state_view = (\<lambda>(path, state).
     \<lparr>ev_path = path, ev_service_path = None, ev_active = es_Active state, ev_queue_len = es_QueueLen state,
      ev_healthy = es_Healthy state, ev_max_concurrent = es_MaxConcurrent state, ev_plugin = es_Plugin state\<rparr>)"

definition silent_view :: "string \<Rightarrow> EndpointView" where
  "silent_view path =
     \<lparr>ev_path = path, ev_service_path = None, ev_active = 0, ev_queue_len = 0, ev_healthy = False,
      ev_max_concurrent = 0, ev_plugin = False\<rparr>"

definition remote_node_view :: "RemoteNode \<Rightarrow> NodeView" where
  "remote_node_view node =
     \<lparr>nv_node_id = rn_NodeID node, nv_address = Some (rn_Address node), nv_service_port = Some (rn_ServicePort node),
      nv_healthy = True,
      nv_endpoints = map state_view (rn_EndpointStates node) @
        map silent_view (filter (\<lambda>path. map_of (rn_EndpointStates node) path = None) (map fst (rn_EndpointDescriptions node)))\<rparr>"

definition handleNodeByID :: "Config \<Rightarrow> Request \<Rightarrow> AdminServer \<Rightarrow> NodeView Reply" where
  "handleNodeByID config r s =
     (if rq_method r \<noteq> ''GET'' then fail ''Method not allowed'' 405
      else let nodeID = TrimPrefix (rq_path r) ''/v1/node/''
           in if nodeID = '''' then fail ''Node ID required'' 400
              else if nodeID = cfg_NodeID config then
                Json \<lparr>nv_node_id = cfg_NodeID config, nv_address = Some (GetHost (cfg_ListenAddr config)),
                      nv_service_port = Some (GetPort (cfg_ListenAddr config)), nv_healthy = True,
                      nv_endpoints = map local_view (Registry_ListEndpoints (as_registry s))\<rparr>
              else case find (\<lambda>node. rn_NodeID node = nodeID) (Registry_GetRemoteNodes (as_registry s)) of
                     Some node \<Rightarrow> Json (remote_node_view node)
                   | None \<Rightarrow> fail ''Node not found'' 404)"

definition handleHealth :: "unit Reply" where
  "handleHealth = Plain ((write_header 200 new_writer)\<lparr>w_body := ''OK''\<rparr>)"

text \<open>The wrappers that put the admin gate before a listing.\<close>

definition with_auth :: "Config \<Rightarrow> Request \<Rightarrow> 'a Reply \<Rightarrow> 'a Reply" where
  "with_auth config r reply =
     (case requireAPIKeyOrLocal config r new_writer of (False, w) \<Rightarrow> Plain w | (True, w) \<Rightarrow> reply)"

definition handleNodesWithAuth :: "Config \<Rightarrow> Request \<Rightarrow> AdminServer \<Rightarrow> string list Reply" where
  "handleNodesWithAuth config r s = with_auth config r (handleNodes config r s)"

definition handleLocalWithAuth :: "Config \<Rightarrow> Request \<Rightarrow> AdminServer \<Rightarrow> NodeView Reply" where
  "handleLocalWithAuth config r s = with_auth config r (handleLocal config r s)"

definition handleGlobalWithAuth :: "Config \<Rightarrow> time \<Rightarrow> Request \<Rightarrow> AdminServer \<Rightarrow> GlobalNode list Reply" where
  "handleGlobalWithAuth config now r s = with_auth config r (handleGlobal config now r s)"

definition handleNodeByIDWithAuth :: "Config \<Rightarrow> Request \<Rightarrow> AdminServer \<Rightarrow> NodeView Reply" where
  "handleNodeByIDWithAuth config r s = with_auth config r (handleNodeByID config r s)"

definition handleMetricsWithAuth :: "Config \<Rightarrow> 'a Reply \<Rightarrow> Request \<Rightarrow> 'a Reply" where
  "handleMetricsWithAuth config prometheus r = with_auth config r prometheus"

section \<open>Messages between plugins\<close>

text \<open>
  The searches over the remote nodes. A match overwrites what was found before; the search over the nodes
  stops as soon as the path (for \<open>handlePluginPeers\<close>) or the address (for the other two) is not
  empty, even when it was set before the search began.
\<close>

fun scan_service :: "string \<Rightarrow> RemoteNode list \<Rightarrow> string \<times> string \<Rightarrow> string \<times> string" where
  "scan_service sid [] target = target"
| "scan_service sid (node # nodes) target =
     (let target = (case find (\<lambda>(path, meta). md_ServiceID meta = sid) (rn_EndpointDescriptions node) of
                      Some (path, meta) \<Rightarrow> (path, md_ServiceID meta)
                    | None \<Rightarrow> target)
      in if fst target \<noteq> '''' then target else scan_service sid nodes target)"

record PeersAnswer =
  pa_service_id :: string
  pa_node_path :: string
  pa_peers :: "string list"

definition handlePluginPeers :: "Request \<Rightarrow> string Body \<Rightarrow> AdminServer \<Rightarrow> PeersAnswer Reply" where
  "handlePluginPeers r body s =
     (if rq_method r \<noteq> ''GET'' \<and> rq_method r \<noteq> ''POST'' then fail ''Method not allowed'' 405
      else
        let input = (if rq_method r = ''POST'' then body else Decoded (header_get (rq_query r) ''service_id''))
        in case input of
             Unreadable \<Rightarrow> fail ''Failed to read request body'' 400
           | BadJson \<Rightarrow> fail ''Invalid JSON'' 400
           | Decoded sid \<Rightarrow>
               if sid = '''' then fail ''service_id is required'' 400
               else
                 let local = Registry_ListEndpoints (as_registry s);
                     remote = Registry_GetRemoteNodes (as_registry s);
                     (nodePath, serviceID) =
                       (case find (\<lambda>ep. ep_ServiceID ep = sid) local of
                          Some ep \<Rightarrow> (ep_NodePath ep, ep_ServiceID ep)
                        | None \<Rightarrow> ('''', ''''));
                     (nodePath, serviceID) =
                       (if nodePath = '''' then scan_service sid remote (nodePath, serviceID) else (nodePath, serviceID))
                 in if nodePath = '''' then fail ''service not found'' 404
                    else Json
                      \<lparr>pa_service_id = serviceID, pa_node_path = nodePath,
                       pa_peers =
                         map ep_ServiceID (filter (\<lambda>ep. ep_NodePath ep = nodePath \<and> ep_Plugin ep \<and> ep_ServiceID ep \<noteq> serviceID) local) @
                         concat (map (\<lambda>node. map (\<lambda>(path, meta). md_ServiceID meta)
                           (filter (\<lambda>(path, meta). path = nodePath \<and> md_Plugin meta \<and> md_ServiceID meta \<noteq> serviceID)
                             (rn_EndpointDescriptions node))) remote)\<rparr>)"

fun scan_target :: "string \<Rightarrow> RemoteNode list \<Rightarrow> string \<times> int \<Rightarrow> string \<times> int" where
  "scan_target sid [] target = target"
| "scan_target sid (node # nodes) target =
     (let target = (case find (\<lambda>(path, meta). md_ServiceID meta = sid) (rn_EndpointDescriptions node) of
                      Some _ \<Rightarrow> (rn_Address node, rn_ServicePort node)
                    | None \<Rightarrow> target)
      in if fst target \<noteq> '''' then target else scan_target sid nodes target)"

definition plugin_target :: "Config \<Rightarrow> Registry \<Rightarrow> string \<Rightarrow> (string \<times> int) option" where
  "plugin_target config reg sid =
     (let target = (case find (\<lambda>ep. ep_ServiceID ep = sid) (Registry_ListEndpoints reg) of
                      Some ep \<Rightarrow> (GetHost (cfg_ListenAddr config), ExtractPortFromServicePath (ep_ServicePath ep))
                    | None \<Rightarrow> ('''', 0));
          target = (if fst target = '''' \<or> snd target = 0 then scan_target sid (Registry_GetRemoteNodes reg) target else target)
      in if fst target = '''' \<or> snd target = 0 then None else Some target)"

definition receive_url :: "string \<times> int \<Rightarrow> string" where
  "receive_url = (\<lambda>(address, port). ''http://'' @ address @ '':'' @ Itoa port @ ''/v1/plugin/receive'')"

text \<open>
  The body is forwarded as it came, so a decoded body comes with its text. \<open>post\<close> is the HTTP client: an
  error, or the body of the answer.
\<close>

definition handlePluginSend ::
    "Config \<Rightarrow> (string \<Rightarrow> string \<Rightarrow> string + string) \<Rightarrow> Request \<Rightarrow> (string \<times> string) Body \<Rightarrow> AdminServer \<Rightarrow> string Reply \<times> string list" where
  "handlePluginSend config post r body s =
     (if rq_method r \<noteq> ''POST'' then (fail ''Method not allowed'' 405, [])
      else case body of
        Unreadable \<Rightarrow> (fail ''Failed to read request body'' 400, [])
      | BadJson \<Rightarrow> (fail ''Invalid JSON'' 400, [])
      | Decoded (raw, toServiceID) \<Rightarrow>
          if toServiceID = '''' then (fail ''to_service_id is required'' 400, [])
          else (case plugin_target config (as_registry s) toServiceID of
                  None \<Rightarrow> (fail ''service not found'' 404, [])
                | Some target \<Rightarrow>
                    (case post (receive_url target) raw of
                       Inl err \<Rightarrow> (fail err 502, [receive_url target])
                     | Inr answer \<Rightarrow> (Json answer, [receive_url target]))))"

text \<open>A broadcast: the text of the body and the \<open>from\<close> entry of its message when it is a string.\<close>

definition plugin_services :: "string \<Rightarrow> Registry \<Rightarrow> bool gomap" where
  "plugin_services sender reg =
     fold (\<lambda>node ids. fold (\<lambda>(_, meta) ids. if md_Plugin meta \<and> md_ServiceID meta \<noteq> sender then AList.update (md_ServiceID meta) True ids else ids)
             (rn_EndpointDescriptions node) ids)
       (Registry_GetRemoteNodes reg)
       (fold (\<lambda>ep ids. if ep_Plugin ep \<and> ep_ServiceID ep \<noteq> sender then AList.update (ep_ServiceID ep) True ids else ids)
         (Registry_ListEndpoints reg) [])"

definition handlePluginBroadcast ::
    "Config \<Rightarrow> (string \<Rightarrow> string \<Rightarrow> string + string) \<Rightarrow> Request \<Rightarrow> (string \<times> string option) Body \<Rightarrow> AdminServer \<Rightarrow> int Reply \<times> string list" where
  "handlePluginBroadcast config post r body s =
     (if rq_method r \<noteq> ''POST'' then (fail ''Method not allowed'' 405, [])
      else case body of
        Unreadable \<Rightarrow> (fail ''Failed to read request body'' 400, [])
      | BadJson \<Rightarrow> (fail ''Invalid JSON'' 400, [])
      | Decoded (raw, from) \<Rightarrow>
          let sender = (case from of Some sid \<Rightarrow> sid | None \<Rightarrow> '''');
              (successCount, urls) =
                foldl (\<lambda>(n, urls) serviceID.
                    case plugin_target config (as_registry s) serviceID of
                      None \<Rightarrow> (n, urls)
                    | Some target \<Rightarrow>
                        (case post (receive_url target) raw of
                           Inl err \<Rightarrow> (n, urls @ [receive_url target])
                         | Inr answer \<Rightarrow> (n + 1, urls @ [receive_url target])))
                  (0, []) (map fst (plugin_services sender (as_registry s)))
          in (Json successCount, urls))"

section \<open>The web interface\<close>

definition getContentType :: "string \<Rightarrow> string" where
  "getContentType path =
     (if HasSuffix path ''.html'' then ''text/html; charset=utf-8''
      else if HasSuffix path ''.css'' then ''text/css; charset=utf-8''
      else if HasSuffix path ''.js'' then ''application/javascript; charset=utf-8''
      else if HasSuffix path ''.json'' then ''application/json; charset=utf-8''
      else if HasSuffix path ''.png'' then ''image/png''
      else if HasSuffix path ''.jpg'' \<or> HasSuffix path ''.jpeg'' then ''image/jpeg''
      else if HasSuffix path ''.svg'' then ''image/svg+xml''
      else if HasSuffix path ''.ico'' then ''image/x-icon''
      else if HasSuffix path ''.woff'' then ''font/woff''
      else if HasSuffix path ''.woff2'' then ''font/woff2''
      else ''application/octet-stream'')"

text \<open>The embedded files: what opening a name and then looking at it gives.\<close>

datatype WebFile = NoStat | Directory | NoContent | Content string

datatype WebReply = WebError string int | WebNotFound | WebRedirect string | WebContent string string string

definition webui_path :: "string \<Rightarrow> string" where
  "webui_path path =
     (let path = (if HasPrefix path ''/v1/webui'' then TrimPrefix path ''/v1/webui'' else path);
          path = (if path = '''' \<or> path = ''/'' then ''index.html'' else path)
      in TrimPrefix path ''/'')"

definition handleWebUI :: "(string \<Rightarrow> WebFile option) option \<Rightarrow> Request \<Rightarrow> WebReply" where
  "handleWebUI subFS r =
     (case subFS of
        None \<Rightarrow> WebError ''WebUI not available'' 500
      | Some open_file \<Rightarrow>
          let path = webui_path (rq_path r);
              file = (case open_file path of
                        Some f \<Rightarrow> Some f
                      | None \<Rightarrow> if path \<noteq> ''index.html'' then open_file ''index.html'' else None)
          in case file of
               None \<Rightarrow> WebNotFound
             | Some NoStat \<Rightarrow> WebNotFound
             | Some Directory \<Rightarrow> WebRedirect (rq_path r @ ''/'')
             | Some NoContent \<Rightarrow> WebError ''Failed to read file'' 500
             | Some (Content content) \<Rightarrow> WebContent (getContentType path) (Itoa (int (length content))) content)"

section \<open>Dispatch\<close>

text \<open>
  What a handler finds around a request: the clock, the UUIDs, the HTTP clients, the embedded files, and the
  body as each handler decodes it.
\<close>

record Surroundings =
  su_now :: time
  su_ids :: "nat \<Rightarrow> string"
  su_join :: "string \<Rightarrow> JoinAnswer"
  su_post :: "string \<Rightarrow> string \<Rightarrow> string + string"
  su_files :: "(string \<Rightarrow> WebFile option) option"
  su_endpoints :: "EndpointInfoRequest list Body"
  su_heartbeat :: "HeartbeatRequest Body"
  su_peers :: "string Body"
  su_send :: "(string \<times> string) Body"
  su_broadcast :: "(string \<times> string option) Body"
  su_connect :: "string Body"
  su_prometheus :: "string"

datatype Answer =
    AnsRegistration "EndpointRegistrationResponse Outcome" | AnsEndpoints "EndpointsResponse Reply" | AnsEmpty "unit Reply"
  | AnsNodes "string list Reply" | AnsNode "NodeView Reply" | AnsGlobal "GlobalNode list Reply" | AnsText "string Reply"
  | AnsPeers "PeersAnswer Reply" | AnsCount "int Reply" | AnsWeb WebReply | AnsRedirect string | AnsNotFound

text \<open>\<open>handleEndpoints\<close>, the switch over the method.\<close>

definition handleEndpoints :: "Config \<Rightarrow> Surroundings \<Rightarrow> Request \<Rightarrow> AdminServer \<Rightarrow> Answer \<times> AdminServer \<times> Post list" where
  "handleEndpoints config su r s =
     (if rq_method r = ''GET'' then (AnsEndpoints (handleGetEndpoints config (su_now su) r s), s, [])
      else if rq_method r = ''POST'' then
        (case handlePostEndpoints config (su_ids su) (su_now su) r (su_endpoints su) s of (a, s, ps) \<Rightarrow> (AnsRegistration a, s, ps))
      else if rq_method r = ''DELETE'' then
        (case handleDeleteEndpoints config r s of (a, s, ps) \<Rightarrow> (AnsEmpty a, s, ps))
      else (AnsEmpty (fail ''Method not allowed'' 405), s, []))"

definition admin_serve :: "Config \<Rightarrow> Surroundings \<Rightarrow> Request \<Rightarrow> AdminServer \<Rightarrow> Answer \<times> AdminServer \<times> Post list" where
  "admin_serve config su r s =
     (case admin_route (rq_path r) of
        AEndpoints \<Rightarrow> handleEndpoints config su r s
      | AHeartbeat \<Rightarrow> (case handleHeartbeat config (su_now su) r (su_heartbeat su) s of (a, s) \<Rightarrow> (AnsEmpty a, s, []))
      | ANodes \<Rightarrow> (AnsNodes (handleNodesWithAuth config r s), s, [])
      | ALocal \<Rightarrow> (AnsNode (handleLocalWithAuth config r s), s, [])
      | AGlobal \<Rightarrow> (AnsGlobal (handleGlobalWithAuth config (su_now su) r s), s, [])
      | ANodeByID \<Rightarrow> (AnsNode (handleNodeByIDWithAuth config r s), s, [])
      | AMetrics \<Rightarrow> (AnsText (handleMetricsWithAuth config (Json (su_prometheus su)) r), s, [])
      | AHealth \<Rightarrow> (AnsEmpty handleHealth, s, [])
      | APluginPeers \<Rightarrow> (AnsPeers (handlePluginPeers r (su_peers su) s), s, [])
      | APluginSend \<Rightarrow> (AnsText (fst (handlePluginSend config (su_post su) r (su_send su) s)), s, [])
      | APluginBroadcast \<Rightarrow> (AnsCount (fst (handlePluginBroadcast config (su_post su) r (su_broadcast su) s)), s, [])
      | AConnect \<Rightarrow> (case handleConnect config (su_join su) (su_now su) r (su_connect su) s of (a, s, ps) \<Rightarrow> (AnsText a, s, ps))
      | AWebUI \<Rightarrow> (AnsWeb (handleWebUI (su_files su) r), s, [])
      | ARedirect path \<Rightarrow> (AnsRedirect path, s, [])
      | ANotFound \<Rightarrow> (AnsNotFound, s, []))"

text \<open>The method \<open>ServeHTTP\<close>, which knows four of the routes and asks for no key.\<close>

definition ServeHTTP :: "Config \<Rightarrow> Surroundings \<Rightarrow> Request \<Rightarrow> AdminServer \<Rightarrow> Answer \<times> AdminServer \<times> Post list" where
  "ServeHTTP config su r s =
     (if rq_path r = ''/v1/endpoints'' then handleEndpoints config su r s
      else if rq_path r = ''/v1/heartbeat'' then
        (case handleHeartbeat config (su_now su) r (su_heartbeat su) s of (a, s) \<Rightarrow> (AnsEmpty a, s, []))
      else if rq_path r = ''/v1/nodes'' then (AnsNodes (handleNodes config r s), s, [])
      else if rq_path r = ''/metrics'' then (AnsText (Json (su_prometheus su)), s, [])
      else (AnsNotFound, s, []))"

section \<open>Who can change the node\<close>

definition unauthorized :: ResponseWriter where
  "unauthorized = json_error 401 ''unauthorized'' ''Invalid or missing API key'' new_writer"

lemma gate_refused:
  "\<not> fst (requireAPIKeyOrLocal config r new_writer) \<Longrightarrow> requireAPIKeyOrLocal config r new_writer = (False, unauthorized)"
  using requireAPIKeyOrLocal_refused [of config r new_writer]
  by (cases "requireAPIKeyOrLocal config r new_writer") (simp add: unauthorized_def)

lemma writes_refused:
  assumes "\<not> fst (requireAPIKeyOrLocal config r new_writer)"
  shows "with_auth config r reply = Plain unauthorized"
    and "handlePostEndpoints config ids now r body s = (Done (Plain unauthorized), s, [])"
    and "handleDeleteEndpoints config r s = (Plain unauthorized, s, [])"
    and "handleHeartbeat config now r hb s =
      (if rq_method r \<noteq> ''POST'' then fail ''Method not allowed'' 405 else Plain unauthorized, s)"
  by (simp_all add: with_auth_def handlePostEndpoints_def handleDeleteEndpoints_def handleHeartbeat_def gate_refused [OF assms])

text \<open>The status line of an answer; a handler that panics sends none.\<close>

definition reply_status :: "'a Reply \<Rightarrow> int" where
  "reply_status rep = (case rep of Plain w \<Rightarrow> (case w_sent w of Some (code, _) \<Rightarrow> code | None \<Rightarrow> 200) | Json _ \<Rightarrow> 200 | Silent \<Rightarrow> 200)"

fun answer_status :: "Answer \<Rightarrow> int option" where
  "answer_status (AnsRegistration Crashed) = None"
| "answer_status (AnsRegistration (Done a)) = Some (reply_status a)"
| "answer_status (AnsEndpoints a) = Some (reply_status a)"
| "answer_status (AnsEmpty a) = Some (reply_status a)"
| "answer_status (AnsNodes a) = Some (reply_status a)"
| "answer_status (AnsNode a) = Some (reply_status a)"
| "answer_status (AnsGlobal a) = Some (reply_status a)"
| "answer_status (AnsText a) = Some (reply_status a)"
| "answer_status (AnsPeers a) = Some (reply_status a)"
| "answer_status (AnsCount a) = Some (reply_status a)"
| "answer_status (AnsWeb (WebError _ code)) = Some code"
| "answer_status (AnsWeb WebNotFound) = Some 404"
| "answer_status (AnsWeb (WebRedirect _)) = Some 302"
| "answer_status (AnsWeb (WebContent _ _ _)) = Some 200"
| "answer_status (AnsRedirect _) = Some 301"
| "answer_status AnsNotFound = Some 404"

lemma status_simps [simp]: "reply_status (Plain unauthorized) = 401" "reply_status (fail msg code) = code"
  by (simp_all add: reply_status_def unauthorized_def json_error_def new_writer_def fail_def http_error_def write_header_def Let_def)

text \<open>
  C17: A caller the admin gate refuses changes nothing: whatever it sends to any route but \<open>/v1/connect\<close>,
  the registry, the peer table and the pools stay as they are and nothing is announced to the peers; a
  registration, a deletion, a heartbeat and each of the protected listings is answered with 401.
\<close>

theorem refused_changes_nothing:
  assumes refused: "\<not> fst (requireAPIKeyOrLocal config r new_writer)" and route: "admin_route (rq_path r) \<noteq> AConnect"
  shows "\<exists>a. admin_serve config su r s = (a, s, []) \<and>
    ((admin_route (rq_path r) \<in> {ANodes, ALocal, AGlobal, ANodeByID, AMetrics} \<or>
      admin_route (rq_path r) = AEndpoints \<and> rq_method r \<in> {''POST'', ''DELETE''} \<or>
      admin_route (rq_path r) = AHeartbeat \<and> rq_method r = ''POST'') \<longrightarrow> answer_status a = Some 401)"
proof (cases "admin_route (rq_path r)")
  case AEndpoints
  then show ?thesis by (simp add: admin_serve_def handleEndpoints_def writes_refused [OF refused])
qed (use route in \<open>simp_all add: admin_serve_def handleNodesWithAuth_def handleLocalWithAuth_def handleGlobalWithAuth_def
      handleNodeByIDWithAuth_def handleMetricsWithAuth_def writes_refused [OF refused]\<close>)

lemma sample_refused:
  "\<not> fst (requireAPIKeyOrLocal ((load_config sample_env)\<lparr>cfg_DisableAdminAuth := False\<rparr>) sample_request new_writer)"
proof -
  have no: "x \<notin> set (Itoa 4711)" if "\<not> is_digit x" for x using Itoa_chars [of 4711] that by auto
  have "isLocalRequest sample_request \<longleftrightarrow> (10 :: nat) = 127"
    by (rule isLocal_ipv4 [of 10 0 0 7 "Itoa 4711"]) (auto simp: is_digit_def sample_request_def intro!: no)
  then show ?thesis by (simp add: requireAPIKeyOrLocal_iff sample_request_def header_get_def)
qed

theorem refused_changes_nothing_witness:
  "\<forall>su s. \<exists>a. admin_serve ((load_config sample_env)\<lparr>cfg_DisableAdminAuth := False\<rparr>) su sample_request s = (a, s, []) \<and>
     answer_status a = Some 401"
proof (intro allI)
  fix su s
  have route: "admin_route (rq_path sample_request) = AEndpoints" "rq_method sample_request = ''POST''"
    by (simp_all add: sample_request_def admin_route_def)
  show "\<exists>a. admin_serve ((load_config sample_env)\<lparr>cfg_DisableAdminAuth := False\<rparr>) su sample_request s = (a, s, []) \<and>
     answer_status a = Some 401"
    using refused_changes_nothing [OF sample_refused, of su s] route by simp
qed

text \<open>Whoever reaches \<open>/v1/connect\<close> can add a peer.\<close>

lemma connect_needs_no_key:
  assumes "admin_route (rq_path r) = AConnect" and "rq_method r = ''POST''" and "su_connect su = Decoded ip" and "ip \<noteq> ''''"
    and "su_join su (join_url config ip) = JoinAccepted nodeID" and "nodeID \<noteq> ''''"
    and "admin_serve config su r s = (a, s', posts)"
  shows "map_of (sy_peers (as_sync s')) nodeID \<noteq> None"
  using assms by (auto simp: admin_serve_def handleConnect_def JoinNode_def AddPeer_def addPeerLocked_def map_of_update Let_def
      split: prod.splits option.splits if_splits)

section \<open>What the listings show\<close>

lemma merge_state_lookup:
  "map_of (merge_state (q, state) m) p =
     (if p = q then
        Some (case map_of m q of
                Some info \<Rightarrow> info\<lparr>pv_healthy := es_Healthy state, pv_active := pv_active info + es_Active state,
                                pv_queue_len := pv_queue_len info + es_QueueLen state,
                                pv_plugin := pv_plugin info \<or> es_Plugin state\<rparr>
              | None \<Rightarrow> \<lparr>pv_path = q, pv_service_path = None, pv_ep_id = None, pv_description = '''',
                        pv_max_concurrent = es_MaxConcurrent state, pv_plugin = es_Plugin state,
                        pv_active = es_Active state, pv_queue_len = es_QueueLen state, pv_healthy = es_Healthy state\<rparr>)
      else map_of m p)"
  by (auto simp: merge_state_def map_of_update Let_def split: option.split)

lemma merge_states_lookup:
  "distinct (map fst states) \<Longrightarrow>
   map_of (fold merge_state states m) p =
     (case map_of states p of None \<Rightarrow> map_of m p | Some st \<Rightarrow> map_of (merge_state (p, st) m) p)"
proof (induction states arbitrary: m)
  case (Cons e states)
  obtain q st where e: "e = (q, st)" by (cases e)
  have IH: "map_of (fold merge_state states (merge_state (q, st) m)) p =
      (case map_of states p of None \<Rightarrow> map_of (merge_state (q, st) m) p
       | Some st' \<Rightarrow> map_of (merge_state (p, st') (merge_state (q, st) m)) p)"
    using Cons.prems by (intro Cons.IH) simp
  show ?case
  proof (cases "p = q")
    case True
    then have "map_of states p = None" using Cons.prems by (simp add: e map_of_eq_None_iff)
    then show ?thesis using IH True by (simp add: e)
  next
    case False
    then show ?thesis using IH by (simp add: e merge_state_lookup split: option.split)
  qed
qed simp

lemma merge_state_wf: "wf_map m \<Longrightarrow> wf_map (merge_state e m)"
  by (cases e) (simp add: merge_state_def Let_def wf_map_update split: option.split)

lemma merge_states_wf: "wf_map m \<Longrightarrow> wf_map (fold merge_state states m)"
  by (induction states arbitrary: m) (simp_all add: merge_state_wf)

lemma described_lookup:
  "distinct (map fst descs) \<Longrightarrow>
   map_of (fold (\<lambda>(path, desc). AList.update path (described_view path desc)) descs m) p =
     (case map_of descs p of None \<Rightarrow> map_of m p | Some d \<Rightarrow> Some (described_view p d))"
proof (induction descs arbitrary: m)
  case (Cons e descs)
  obtain q d where e: "e = (q, d)" by (cases e)
  have "map_of descs q = None" using Cons.prems by (simp add: e map_of_eq_None_iff)
  then show ?case using Cons.IH [of "AList.update q (described_view q d) m"] Cons.prems
    by (auto simp: e map_of_update split: option.split)
qed simp

lemma described_wf:
  "wf_map m \<Longrightarrow> wf_map (fold (\<lambda>(path, desc). AList.update path (described_view path desc)) descs m)"
  by (induction descs arbitrary: m) (auto intro!: wf_map_update)

text \<open>
  \<open>/v1/global\<close> shows every path of a remote node exactly once: a path with a state shows the
  counters and the health of the state, the description and capacity come from the metadata where there is
  any, a path is shown as a plugin when either says so, and a path without a state is shown idle and healthy.
\<close>

lemma global_view_exact:
  assumes "wf_map (rn_EndpointStates node)" and "wf_map (rn_EndpointDescriptions node)"
  shows "distinct (map fst (global_path_infos node)) \<and>
    map_of (global_path_infos node) p =
     (case (map_of (rn_EndpointDescriptions node) p, map_of (rn_EndpointStates node) p) of
        (None, None) \<Rightarrow> None
      | (Some d, None) \<Rightarrow> Some (described_view p d)
      | (d, Some st) \<Rightarrow>
          Some \<lparr>pv_path = p, pv_service_path = None, pv_ep_id = None,
                pv_description = (case d of Some d \<Rightarrow> md_Description d | None \<Rightarrow> ''''),
                pv_max_concurrent = (case d of Some d \<Rightarrow> md_MaxConcurrent d | None \<Rightarrow> es_MaxConcurrent st),
                pv_plugin = ((\<exists>d'. d = Some d' \<and> md_Plugin d') \<or> es_Plugin st),
                pv_active = es_Active st, pv_queue_len = es_QueueLen st, pv_healthy = es_Healthy st\<rparr>)"
proof -
  have "distinct (map fst (global_path_infos node))"
    unfolding global_path_infos_def by (intro merge_states_wf described_wf) simp
  moreover have "map_of (global_path_infos node) p =
      (let desc = fold (\<lambda>(path, desc). AList.update path (described_view path desc)) (rn_EndpointDescriptions node) []
       in case map_of (rn_EndpointStates node) p of None \<Rightarrow> map_of desc p | Some st \<Rightarrow> map_of (merge_state (p, st) desc) p)"
    unfolding global_path_infos_def Let_def by (rule merge_states_lookup [OF assms(1)])
  ultimately show ?thesis
    using described_lookup [OF assms(2), of "[]" p]
    by (cases "map_of (rn_EndpointStates node) p"; cases "map_of (rn_EndpointDescriptions node) p")
       (simp_all add: merge_state_lookup, simp_all add: described_view_def)
qed

lemma foldl_concat_acc: "foldl (\<lambda>acc x. acc @ f x) acc xs = acc @ concat (map f xs)"
  by (induction xs arbitrary: acc) simp_all

lemma local_nodes_fold:
  "foldl (\<lambda>(description, nodes) ep.
       if ep_NodePath ep = path then
         (ep_Description ep, if h \<and> \<not> ep_Healthy ep then nodes else nodes @ [local_endpoint_node config ep])
       else (description, nodes)) (d, ns) les =
   (if on_path path les = [] then d else ep_Description (last (on_path path les)),
    ns @ map (local_endpoint_node config) (filter (\<lambda>ep. h \<longrightarrow> ep_Healthy ep) (on_path path les)))"
  by (induction les arbitrary: d ns) (auto simp: filter_empty_conv)

lemma buildEndpointDetail_eq:
  "buildEndpointDetail config path h les rns =
     (let nodes = map (local_endpoint_node config) (filter (\<lambda>ep. h \<longrightarrow> ep_Healthy ep) (on_path path les)) @
                  concat (map (remote_endpoint_nodes path h) rns)
      in if nodes = [] \<and> h then None
         else Some \<lparr>ed_Description = (if on_path path les = [] then '''' else ep_Description (last (on_path path les))),
                    ed_Nodes = nodes\<rparr>)"
  by (simp add: buildEndpointDetail_def local_nodes_fold foldl_concat_acc Let_def)

text \<open>The listing as a specification: which nodes serve a path, and what is shown for it.\<close>

definition serving_nodes :: "Config \<Rightarrow> Registry \<Rightarrow> bool \<Rightarrow> string \<Rightarrow> EndpointNode list" where
  "serving_nodes config reg healthyOnly path =
     map (local_endpoint_node config) (filter (\<lambda>ep. healthyOnly \<longrightarrow> ep_Healthy ep) (on_path path (Registry_ListEndpoints reg))) @
     concat (map (remote_endpoint_nodes path healthyOnly) (Registry_GetRemoteNodes reg))"

definition listed_paths :: "Registry \<Rightarrow> string set" where
  "listed_paths reg =
     ep_NodePath ` set (Registry_ListEndpoints reg) \<union>
     (\<Union>node \<in> set (Registry_GetRemoteNodes reg). fst ` set (rn_EndpointDescriptions node))"

lemma fold_paths_keys:
  "fst ` set (fold (\<lambda>(path, _). AList.update path True) descs m) = fst ` set m \<union> fst ` set descs"
  by (induction descs arbitrary: m) (simp_all add: keys_alist_update split_beta)

lemma known_paths_keys: "fst ` set (known_paths les rns) = ep_NodePath ` set les \<union> (\<Union>node \<in> set rns. fst ` set (rn_EndpointDescriptions node))"
proof -
  have "fst ` set (fold (\<lambda>node paths. fold (\<lambda>(path, _). AList.update path True) (rn_EndpointDescriptions node) paths) rns m) =
      fst ` set m \<union> (\<Union>node \<in> set rns. fst ` set (rn_EndpointDescriptions node))" for m :: "bool gomap"
    by (induction rns arbitrary: m) (simp_all add: fold_paths_keys Un_assoc)
  moreover have "fst ` set (fold (\<lambda>ep. AList.update (ep_NodePath ep) True) les m) = fst ` set m \<union> ep_NodePath ` set les"
    for m :: "bool gomap"
    by (induction les arbitrary: m) (auto simp: keys_alist_update)
  ultimately show ?thesis by (simp add: known_paths_def)
qed

lemma fold_details_lookup:
  "map_of (fold (\<lambda>(p, _). add_detail p (detail p)) ps m) q =
     (if q \<in> fst ` set ps \<and> detail q \<noteq> None then detail q else map_of m q)"
  by (induction ps arbitrary: m) (auto simp: add_detail_def map_of_update split: option.splits)

text \<open>
  \<open>GET /v1/endpoints\<close> lists, without a \<open>path\<close> parameter, exactly the paths that have a local endpoint or
  that some remote node describes, and otherwise that path alone, known or not. The nodes of a path are the local
  endpoints of the path in registry order, then the remote nodes that serve it; with \<open>healthy_only=true\<close> the
  unhealthy local endpoints are left out and a path without any node is not listed.
\<close>

theorem endpoints_listing_exact:
  fixes config :: Config
  defines "h r \<equiv> header_get (rq_query r) ''healthy_only'' = ''true''"
  shows "\<exists>eps. handleGetEndpoints config now r s = Json \<lparr>ers_Endpoints = eps, ers_Timestamp = now\<rparr> \<and>
    (\<forall>p. map_of eps p =
       (if (if header_get (rq_query r) ''path'' = '''' then p \<in> listed_paths (as_registry s) else p = header_get (rq_query r) ''path'') \<and>
           \<not> (h r \<and> serving_nodes config (as_registry s) (h r) p = [])
        then Some \<lparr>ed_Description = (case rev (on_path p (Registry_ListEndpoints (as_registry s))) of
                                       [] \<Rightarrow> '''' | ep # _ \<Rightarrow> ep_Description ep),
                   ed_Nodes = serving_nodes config (as_registry s) (h r) p\<rparr>
        else None))"
proof -
  let ?les = "Registry_ListEndpoints (as_registry s)" and ?rns = "Registry_GetRemoteNodes (as_registry s)"
  have last: "(case rev xs of [] \<Rightarrow> '''' | ep # _ \<Rightarrow> ep_Description ep) = (if xs = [] then '''' else ep_Description (last xs))"
    for xs :: "LocalEndpoint list"
    by (cases xs rule: rev_cases) simp_all
  have detail: "buildEndpointDetail config p b ?les ?rns =
      (if b \<and> serving_nodes config (as_registry s) b p = [] then None
       else Some \<lparr>ed_Description = (case rev (on_path p ?les) of [] \<Rightarrow> '''' | ep # _ \<Rightarrow> ep_Description ep),
                  ed_Nodes = serving_nodes config (as_registry s) b p\<rparr>)" for p b
    unfolding buildEndpointDetail_eq last serving_nodes_def by (simp only: Let_def conj_commute)
  have listed: "p \<in> fst ` set (known_paths ?les ?rns) \<longleftrightarrow> p \<in> listed_paths (as_registry s)" for p
    by (simp only: known_paths_keys listed_paths_def)
  show ?thesis
    unfolding handleGetEndpoints_def Let_def h_def [symmetric]
    by (rule exI, rule conjI, rule refl) (cases "h r"; simp add: fold_details_lookup listed detail add_detail_def map_of_update)
qed

text \<open>With \<open>healthy_only=true\<close> a node that only described the path is still listed, as unhealthy.\<close>

lemma healthy_only_lists_unhealthy:
  assumes "map_of (rn_EndpointDescriptions node) path \<noteq> None" and "map_of (rn_EndpointStates node) path = None"
  shows "\<exists>n. remote_endpoint_nodes path True node = [n] \<and> \<not> en_Healthy n"
  using assms by (simp add: remote_endpoint_nodes_def)

end
