(* ===== verification/Plugin.thy ===== *)
theory Plugin
  imports Balancer Admin_Views
begin

text \<open>
  \<open>models_plugin\<close>, the plugin that spreads chat requests over the model backends of the cluster: its
  configuration, the choice of a backend, the sessions that stick to one, the chat handler with its
  failover, and the other handlers of \<open>router.go\<close>. Requests and the background loops share the backends by
  pointer, so the backends live in a heap, an append-only list, and the tables hold positions in it.
\<close>

declare map_of_eq_Some_iff [simp del] Some_eq_map_of_iff [simp del]

section \<open>Configuration\<close>

record PluginConfig =
  pc_RouterAddr :: string
  pc_PluginAddr :: string
  pc_ServiceID :: string
  pc_LBAlgorithm :: string
  pc_sessionTimeout :: int
  pc_healthCheckInterval :: int
  pc_electionTimeout :: int
  pc_heartbeatInterval :: int
  pc_syncInterval :: int
  pc_heartbeatToRouter :: int

definition seconds_or :: "int \<Rightarrow> duration \<Rightarrow> duration" where
  "seconds_or n d = (if n = 0 then d else dur_mul n (seconds 1))"

definition SessionTimeout :: "PluginConfig \<Rightarrow> duration" where
  "SessionTimeout c = seconds_or (pc_sessionTimeout c) (seconds 600)"

definition HealthCheckInterval :: "PluginConfig \<Rightarrow> duration" where
  "HealthCheckInterval c = seconds_or (pc_healthCheckInterval c) (seconds 10)"

definition ElectionTimeout :: "PluginConfig \<Rightarrow> duration" where
  "ElectionTimeout c = seconds_or (pc_electionTimeout c) (seconds 3)"

definition HeartbeatInterval :: "PluginConfig \<Rightarrow> duration" where
  "HeartbeatInterval c = seconds_or (pc_heartbeatInterval c) (seconds 1)"

definition SyncInterval :: "PluginConfig \<Rightarrow> duration" where
  "SyncInterval c = seconds_or (pc_syncInterval c) (seconds 30)"

definition HeartbeatToRouter :: "PluginConfig \<Rightarrow> duration" where
  "HeartbeatToRouter c = seconds_or (pc_heartbeatToRouter c) (seconds 5)"

definition DefaultPluginConfig :: PluginConfig where
  "DefaultPluginConfig =
     \<lparr>pc_RouterAddr = ''localhost:15049'', pc_PluginAddr = '':18011'', pc_ServiceID = '''', pc_LBAlgorithm = ''least_conn'',
      pc_sessionTimeout = 600, pc_healthCheckInterval = 10, pc_electionTimeout = 3, pc_heartbeatInterval = 1,
      pc_syncInterval = 30, pc_heartbeatToRouter = 5\<rparr>"

text \<open>The file: it cannot be read, it does not parse, or it holds the fields of the configuration.\<close>

datatype PluginFile = FileUnread string | FileGarbled string | FileParsed PluginConfig

definition LoadPluginConfig :: "(string \<Rightarrow> PluginFile) \<Rightarrow> string \<Rightarrow> string + PluginConfig" where
  "LoadPluginConfig file path =
     (if path = '''' then Inr DefaultPluginConfig
      else case file path of
        FileUnread err \<Rightarrow> Inl (''read config file: '' @ err)
      | FileGarbled err \<Rightarrow> Inl (''parse config: '' @ err)
      | FileParsed rawCfg \<Rightarrow>
          Inr \<lparr>pc_RouterAddr = pc_RouterAddr rawCfg, pc_PluginAddr = pc_PluginAddr rawCfg, pc_ServiceID = pc_ServiceID rawCfg,
               pc_LBAlgorithm = pc_LBAlgorithm rawCfg, pc_sessionTimeout = pc_sessionTimeout rawCfg,
               pc_healthCheckInterval = pc_healthCheckInterval rawCfg, pc_electionTimeout = pc_electionTimeout rawCfg,
               pc_heartbeatInterval = pc_heartbeatInterval rawCfg, pc_syncInterval = pc_syncInterval rawCfg,
               pc_heartbeatToRouter = pc_heartbeatToRouter rawCfg\<rparr>)"

definition PluginConfig_Validate :: "PluginConfig \<Rightarrow> string option" where
  "PluginConfig_Validate c =
     (if pc_RouterAddr c = '''' then Some ''router_addr is required''
      else if pc_PluginAddr c = '''' then Some ''plugin_addr is required''
      else if pc_LBAlgorithm c \<noteq> ''round_robin'' \<and> pc_LBAlgorithm c \<noteq> ''least_conn'' \<and> pc_LBAlgorithm c \<noteq> ''fastest''
        then Some (''invalid lb_algorithm: '' @ pc_LBAlgorithm c)
      else None)"

section \<open>State\<close>

record Backend =
  bk_Address :: string
  bk_Port :: int
  bk_NodePath :: string
  bk_BackendPath :: string
  bk_MaxConcurrent :: i32
  bk_Healthy :: bool
  bk_ActiveConn :: i32
  bk_AvgLatency :: int

record SessionInfo =
  si_SessionID :: string
  si_BackendAddr :: string
  si_BackendPort :: int
  si_LastActivity :: time

record Plugin =
  pl_isMaster :: bool
  pl_masterID :: string
  pl_masterAddr :: string
  pl_term :: int
  pl_isCandidate :: bool
  pl_peers :: "string list"
  pl_serviceID :: string
  pl_heap :: "Backend list"
  pl_modelToBackends :: "nat list gomap"
  pl_sessionToBackend :: "SessionInfo gomap"
  pl_lastHeartbeat :: time
  pl_electionAttempts :: i32
  pl_Healthy :: bool

definition NewPlugin :: Plugin where
  "NewPlugin =
     \<lparr>pl_isMaster = False, pl_masterID = '''', pl_masterAddr = '''', pl_term = 0, pl_isCandidate = False, pl_peers = [],
      pl_serviceID = '''', pl_heap = [], pl_modelToBackends = [], pl_sessionToBackend = [], pl_lastHeartbeat = 0,
      pl_electionAttempts = 0, pl_Healthy = True\<rparr>"

definition add_active :: "i32 \<Rightarrow> nat \<Rightarrow> Backend list \<Rightarrow> Backend list" where
  "add_active d i h = (if i < length h then h[i := (h ! i)\<lparr>bk_ActiveConn := bk_ActiveConn (h ! i) + d\<rparr>] else h)"

section \<open>Sessions\<close>

definition bindSession :: "time \<Rightarrow> string \<Rightarrow> nat \<Rightarrow> Plugin \<Rightarrow> Plugin" where
  "bindSession now sessionID b p =
     p\<lparr>pl_heap := add_active 1 b (pl_heap p),
       pl_sessionToBackend := AList.update sessionID
         \<lparr>si_SessionID = sessionID, si_BackendAddr = bk_Address (pl_heap p ! b), si_BackendPort = bk_Port (pl_heap p ! b),
          si_LastActivity = now\<rparr> (pl_sessionToBackend p)\<rparr>"

text \<open>The loop that takes a session off its backend: the first backend of every model that has the address.\<close>

definition release_in :: "string \<Rightarrow> int \<Rightarrow> nat list \<Rightarrow> Backend list \<Rightarrow> Backend list" where
  "release_in addr port refs h =
     (case find (\<lambda>i. bk_Address (h ! i) = addr \<and> bk_Port (h ! i) = port) refs of
        Some i \<Rightarrow> add_active (- 1) i h
      | None \<Rightarrow> h)"

definition release_session :: "SessionInfo \<Rightarrow> Plugin \<Rightarrow> Plugin" where
  "release_session session p =
     p\<lparr>pl_heap := fold (\<lambda>(_, refs). release_in (si_BackendAddr session) (si_BackendPort session) refs)
                    (pl_modelToBackends p) (pl_heap p)\<rparr>"

definition unbindSession :: "string \<Rightarrow> Plugin \<Rightarrow> Plugin" where
  "unbindSession sessionID p =
     (let p = (case map_of (pl_sessionToBackend p) sessionID of Some session \<Rightarrow> release_session session p | None \<Rightarrow> p)
      in p\<lparr>pl_sessionToBackend := AList.delete sessionID (pl_sessionToBackend p)\<rparr>)"

definition getSessionBackend :: "Plugin \<Rightarrow> string \<Rightarrow> SessionInfo option" where
  "getSessionBackend p sessionID = map_of (pl_sessionToBackend p) sessionID"

definition updateSessionActivity :: "time \<Rightarrow> string \<Rightarrow> Plugin \<Rightarrow> Plugin" where
  "updateSessionActivity now sessionID p =
     (case map_of (pl_sessionToBackend p) sessionID of
        Some session \<Rightarrow>
          p\<lparr>pl_sessionToBackend := AList.update sessionID (session\<lparr>si_LastActivity := now\<rparr>) (pl_sessionToBackend p)\<rparr>
      | None \<Rightarrow> p)"

text \<open>One tick of \<open>cleanupExpiredSessions\<close>.\<close>

definition expire_session :: "PluginConfig \<Rightarrow> time \<Rightarrow> string \<times> SessionInfo \<Rightarrow> Plugin \<Rightarrow> Plugin" where
  "expire_session config now = (\<lambda>(sessionID, session) p.
     if time_sub now (si_LastActivity session) > SessionTimeout config then
       (release_session session p)\<lparr>pl_sessionToBackend := AList.delete sessionID (pl_sessionToBackend p)\<rparr>
     else p)"

definition cleanupExpiredSessions :: "PluginConfig \<Rightarrow> time \<Rightarrow> Plugin \<Rightarrow> Plugin" where
  "cleanupExpiredSessions config now p = fold (expire_session config now) (pl_sessionToBackend p) p"

section \<open>The choice of a backend\<close>

definition defaultMaxConcurrent :: i32 where
  "defaultMaxConcurrent = 10"

definition Plugin_weightedRandomIndex :: "Rand \<Rightarrow> i32 list \<Rightarrow> Panic + nat" where
  "Plugin_weightedRandomIndex rs weights =
     (let total = foldl (+) 0 weights
      in if sint total \<le> 0 then
           if weights = [] then Inl IntnPanic else Inr (nat (r_Intn rs (int (length weights))))
         else Inr (weighted_scan (word_of_int (r_Int31n rs (sint total))) weights 0 (length weights)))"

definition backend_score :: "rat \<Rightarrow> Backend \<Rightarrow> rat" where
  "backend_score jitter b =
     (let maxConc = (of_int (sint (bk_MaxConcurrent b)) :: rat);
          maxConc = (if maxConc < 1 then of_int (sint defaultMaxConcurrent) else maxConc);
          loadRatio = fl (of_int (sint (bk_ActiveConn b)) / maxConc);
          latency = bk_AvgLatency b;
          rtFactor = (if latency > 0 then let f = fl (fl (of_int latency) / 100) in if f > 1 then 1 else f else 0);
          totalScore = fl (fl (loadRatio * fl (6 / 10)) + fl (rtFactor * fl (4 / 10)));
          randomFactor = fl (1 + fl (fl (jitter * fl (1 / 10)) - fl (5 / 100)))
      in fl (totalScore * randomFactor))"

definition backend_weight :: "Backend \<Rightarrow> i32" where
  "backend_weight b = (if sint (bk_MaxConcurrent b) < 1 then defaultMaxConcurrent else bk_MaxConcurrent b)"

definition selectBackendByScore :: "Rand \<Rightarrow> Backend list \<Rightarrow> nat list \<Rightarrow> Panic + nat option" where
  "selectBackendByScore rs h backends =
     (let healthy = filter (\<lambda>i. bk_Healthy (h ! i)) backends
      in if length healthy = 0 then Inr None
         else if length healthy = 1 then Inr (Some (healthy ! 0))
         else
           let scores = map (\<lambda>(k, i). (i, backend_score (r_Float64 rs k) (h ! i))) (enumerate 0 healthy);
               bestScore = best_score scores;
               candidates = map fst (filter (\<lambda>s. near_best bestScore (snd s)) scores);
               weights = map (\<lambda>i. backend_weight (h ! i)) candidates
           in if length candidates = 1 then Inr (Some (candidates ! 0))
              else case Plugin_weightedRandomIndex rs weights of
                     Inl e \<Rightarrow> Inl e
                   | Inr k \<Rightarrow> if k < length candidates then Inr (Some (candidates ! k)) else Inl IndexPanic)"

definition findBackend :: "Backend list \<Rightarrow> string \<Rightarrow> int \<Rightarrow> nat list \<Rightarrow> nat option" where
  "findBackend h addr port refs = find (\<lambda>i. bk_Address (h ! i) = addr \<and> bk_Port (h ! i) = port) refs"

text \<open>The session of a request, kept while it is fresh and its backend is there and healthy, else dropped.\<close>

definition session_choice :: "PluginConfig \<Rightarrow> time \<Rightarrow> string \<Rightarrow> nat list \<Rightarrow> Plugin \<Rightarrow> nat option \<times> Plugin" where
  "session_choice config now sessionID refs p =
     (if sessionID = '''' then (None, p)
      else case getSessionBackend p sessionID of
        None \<Rightarrow> (None, p)
      | Some session \<Rightarrow>
          if si_LastActivity session + SessionTimeout config > now then
            (case findBackend (pl_heap p) (si_BackendAddr session) (si_BackendPort session) refs of
               Some b \<Rightarrow> if bk_Healthy (pl_heap p ! b) then (Some b, p) else (None, unbindSession sessionID p)
             | None \<Rightarrow> (None, unbindSession sessionID p))
          else (None, unbindSession sessionID p))"

definition selectBackend ::
    "PluginConfig \<Rightarrow> Rand \<Rightarrow> time \<Rightarrow> string \<Rightarrow> string \<Rightarrow> Plugin \<Rightarrow> (Panic + string + nat) \<times> Plugin" where
  "selectBackend config rs now model sessionID p =
     (case map_of (pl_modelToBackends p) model of
        None \<Rightarrow> (Inr (Inl (''model '' @ model @ '' not found'')), p)
      | Some refs \<Rightarrow>
          (case session_choice config now sessionID refs p of
             (Some b, p) \<Rightarrow> (Inr (Inr b), p)
           | (None, p) \<Rightarrow>
               (case selectBackendByScore rs (pl_heap p) refs of
                  Inl e \<Rightarrow> (Inl e, p)
                | Inr None \<Rightarrow> (Inr (Inl ''no healthy backend available''), p)
                | Inr (Some b) \<Rightarrow> (Inr (Inr b), if sessionID \<noteq> '''' then bindSession now sessionID b p else p))))"

section \<open>Chat requests\<close>

definition half :: "int \<Rightarrow> int" where
  "half x = (if x < 0 then - ((- x) div 2) else x div 2)"

definition updateBackendLatency :: "nat \<Rightarrow> string \<Rightarrow> Plugin \<Rightarrow> Plugin" where
  "updateBackendLatency b latencyStr p =
     (let latency = (case Sscanf_d latencyStr of Some n \<Rightarrow> n | None \<Rightarrow> 0);
          oldLatency = bk_AvgLatency (pl_heap p ! b);
          newLatency = (if oldLatency = 0 then latency else half (wrap64 (oldLatency + latency)))
      in p\<lparr>pl_heap := (pl_heap p)[b := (pl_heap p ! b)\<lparr>bk_AvgLatency := newLatency\<rparr>]\<rparr>)"

definition chat_url :: "Backend \<Rightarrow> string" where
  "chat_url b = ''http://'' @ bk_Address b @ '':'' @ Itoa (bk_Port b) @ bk_BackendPath b"

text \<open>How a chat handler dies: in the choice of a backend, or at the fields of a nil backend.\<close>

datatype ChatPanic = ChoicePanic Panic | NilBackend

text \<open>
  The environment of a chat request: the random numbers and the outcome of the HTTP request of each attempt (an error, or
  the \<open>X-Latency\<close> header and the body). \<open>tryFailover\<close> calls itself until an attempt succeeds or no
  candidate is left, which need not happen: the result is \<open>None\<close> when the fuel runs out before it returns.
\<close>

record ChatEnv =
  ce_rand :: "nat \<Rightarrow> Rand"
  ce_forward :: "nat \<Rightarrow> string \<Rightarrow> (string \<times> string) option"
  ce_now :: time

fun tryFailover ::
    "nat \<Rightarrow> ChatEnv \<Rightarrow> string \<Rightarrow> string \<Rightarrow> nat \<Rightarrow> nat \<Rightarrow> Plugin \<Rightarrow> ((ChatPanic + string option) \<times> Plugin) option" where
  "tryFailover 0 env model sessionID n failedBackend p = None"
| "tryFailover (Suc fuel) env model sessionID n failedBackend p =
     (case map_of (pl_modelToBackends p) model of
        None \<Rightarrow> Some (Inr None, p)
      | Some refs \<Rightarrow>
          (let candidates = filter (\<lambda>b. b \<noteq> failedBackend \<and> bk_Healthy (pl_heap p ! b)) refs
           in if candidates = [] then Some (Inr None, p)
              else case selectBackendByScore (ce_rand env n) (pl_heap p) candidates of
                     Inl e \<Rightarrow> Some (Inl (ChoicePanic e), p)
                   | Inr None \<Rightarrow> Some (Inl NilBackend, p)
                   | Inr (Some newBackend) \<Rightarrow>
                       (let p = (if sessionID \<noteq> '''' then bindSession (ce_now env) sessionID newBackend (unbindSession sessionID p) else p)
                        in case ce_forward env n (chat_url (pl_heap p ! newBackend)) of
                             None \<Rightarrow> tryFailover fuel env model sessionID (Suc n) newBackend p
                           | Some (latency, respBody) \<Rightarrow>
                               Some (Inr (Some respBody), updateBackendLatency newBackend latency p))))"

datatype ChatReply = ChatError string int | ChatBody string | ChatCrash ChatPanic

definition forwardToMaster :: "(string \<Rightarrow> string option) \<Rightarrow> string \<Rightarrow> Plugin \<Rightarrow> ChatReply" where
  "forwardToMaster post path p =
     (if pl_masterID p = '''' \<or> pl_masterAddr p = '''' then ChatError ''master not available'' 503
      else case post (''http://'' @ pl_masterAddr p @ path) of
             None \<Rightarrow> ChatError ''forward to master failed'' 502
           | Some body \<Rightarrow> ChatBody body)"

record ChatRequest =
  cr_Model :: string
  cr_SessionID :: string

text \<open>
  The handler on a body already read. \<open>syncs\<close> are the sessions announced to the other plugins. The deferred
  decrement runs on every way out, a panic included.
\<close>

definition handleChat ::
    "nat \<Rightarrow> PluginConfig \<Rightarrow> ChatEnv \<Rightarrow> (string \<Rightarrow> string option) \<Rightarrow> string \<Rightarrow> ChatRequest Body \<Rightarrow> Plugin \<Rightarrow>
     (ChatReply \<times> Plugin \<times> (string \<times> nat) list) option" where
  "handleChat fuel config env post meth body p =
     (if meth \<noteq> ''POST'' then Some (ChatError ''method not allowed'' 405, p, [])
      else if \<not> pl_isMaster p then Some (forwardToMaster post ''/v1/chat/completions'' p, p, [])
      else case body of
        Unreadable \<Rightarrow> Some (ChatError ''read request body'' 400, p, [])
      | BadJson \<Rightarrow> Some (ChatError ''parse request'' 400, p, [])
      | Decoded req \<Rightarrow>
          (case selectBackend config (ce_rand env 0) (ce_now env) (cr_Model req) (cr_SessionID req) p of
             (Inl e, p) \<Rightarrow> Some (ChatCrash (ChoicePanic e), p, [])
           | (Inr (Inl err), p) \<Rightarrow> Some (ChatError err 503, p, [])
           | (Inr (Inr backend), p) \<Rightarrow>
               (let p = p\<lparr>pl_heap := add_active 1 backend (pl_heap p)\<rparr>;
                    done = (\<lambda>p. p\<lparr>pl_heap := add_active (- 1) backend (pl_heap p)\<rparr>)
                in case ce_forward env 0 (chat_url (pl_heap p ! backend)) of
                     None \<Rightarrow>
                       (case tryFailover fuel env (cr_Model req) (cr_SessionID req) 1 backend p of
                          None \<Rightarrow> None
                        | Some (Inl e, p) \<Rightarrow> Some (ChatCrash e, done p, [])
                        | Some (Inr (Some respBody), p) \<Rightarrow> Some (ChatBody respBody, done p, [])
                        | Some (Inr None, p) \<Rightarrow> Some (ChatError ''backend error'' 502, done p, []))
                   | Some (latency, respBody) \<Rightarrow>
                       (let session = (cr_SessionID req \<noteq> '''');
                            p = (if session then updateSessionActivity (ce_now env) (cr_SessionID req) p else p);
                            syncs = (if session \<and> pl_isMaster p then [(cr_SessionID req, backend)] else []);
                            p = updateBackendLatency backend latency p
                        in Some (ChatBody respBody, done p, syncs)))))"

section \<open>Models and status\<close>

record ModelInfo =
  mi_ID :: string
  mi_Object :: string
  mi_Created :: int
  mi_OwnedBy :: string

text \<open>The answer to \<open>GET /v1/models\<close> of a backend: no answer, a status, or a list that may not parse.\<close>

datatype ModelsAnswer = ModelsUnreachable | ModelsStatus int "ModelInfo list option"

definition models_of_answer :: "ModelsAnswer \<Rightarrow> ModelInfo list" where
  "models_of_answer a =
     (case a of
        ModelsUnreachable \<Rightarrow> []
      | ModelsStatus code data \<Rightarrow> if code \<noteq> 200 then [] else case data of None \<Rightarrow> [] | Some ms \<Rightarrow> ms)"

definition models_url :: "string \<Rightarrow> int \<Rightarrow> string" where
  "models_url address port = ''http://'' @ address @ '':'' @ Itoa port @ ''/v1/models''"

definition fetchBackendModels :: "(string \<Rightarrow> ModelsAnswer) \<Rightarrow> Backend \<Rightarrow> ModelInfo list" where
  "fetchBackendModels get b = models_of_answer (get (models_url (bk_Address b) (bk_Port b)))"

definition add_model :: "ModelInfo \<Rightarrow> ModelInfo list \<Rightarrow> ModelInfo list" where
  "add_model m allModels = (if mi_ID m \<in> mi_ID ` set allModels then allModels else allModels @ [m])"

definition handleModels :: "(string \<Rightarrow> ModelsAnswer) \<Rightarrow> (string \<Rightarrow> string option) \<Rightarrow> string \<Rightarrow> Plugin \<Rightarrow> ChatReply + ModelInfo list" where
  "handleModels get post meth p =
     (if meth \<noteq> ''GET'' then Inl (ChatError ''method not allowed'' 405)
      else if \<not> pl_isMaster p then Inl (forwardToMaster post ''/v1/models'' p)
      else Inr (fold add_model
                  (concat (map (\<lambda>(_, refs). concat (map (\<lambda>i. fetchBackendModels get (pl_heap p ! i)) refs)) (pl_modelToBackends p))) []))"

record PluginStatus =
  ps_is_master :: bool
  ps_master_id :: string
  ps_service_id :: string
  ps_term :: int
  ps_peer_count :: nat
  ps_session_count :: nat
  ps_model_count :: nat
  ps_lb_algorithm :: string

definition handleStatus :: "PluginConfig \<Rightarrow> Plugin \<Rightarrow> PluginStatus" where
  "handleStatus config p =
     \<lparr>ps_is_master = pl_isMaster p, ps_master_id = pl_masterID p, ps_service_id = pl_serviceID p, ps_term = pl_term p,
      ps_peer_count = length (pl_peers p), ps_session_count = length (pl_sessionToBackend p),
      ps_model_count = length (pl_modelToBackends p), ps_lb_algorithm = pc_LBAlgorithm config\<rparr>"

section \<open>The choice is a healthy backend\<close>

lemma Plugin_weighted_eq: "Plugin_weightedRandomIndex = weightedRandomIndex"
  by (intro ext) (simp add: Plugin_weightedRandomIndex_def weightedRandomIndex_def)

interpretation plugin_wri: weighted_picker Plugin_weightedRandomIndex
  unfolding Plugin_weighted_eq by (rule wri.weighted_picker_axioms)

definition sane_backend :: "Backend \<Rightarrow> bool" where
  "sane_backend b \<longleftrightarrow> 0 \<le> sint (bk_ActiveConn b)"

lemma backend_score_nonneg:
  assumes "sane_backend b" and "0 \<le> jitter"
  shows "0 \<le> backend_score jitter b"
proof -
  let ?m = "if (of_int (sint (bk_MaxConcurrent b)) :: rat) < 1 then of_int (sint defaultMaxConcurrent) else of_int (sint (bk_MaxConcurrent b))"
  have "0 \<le> fl (of_int (sint (bk_ActiveConn b)) / ?m)"
    using assms(1) by (intro fl_nonneg divide_nonneg_nonneg) (auto simp: sane_backend_def defaultMaxConcurrent_def simp del: of_int_sint)
  moreover have "0 \<le> (if bk_AvgLatency b > 0 then
      if fl (fl (of_int (bk_AvgLatency b)) / 100) > 1 then 1 else fl (fl (of_int (bk_AvgLatency b)) / 100) else 0)"
    by (auto intro!: fl_nonneg)
  ultimately show ?thesis
    unfolding backend_score_def Let_def by (rule score_combine [OF _ _ jitter_factor_nonneg [OF assms(2)]])
qed

lemma backend_score_fl [simp]: "fl (backend_score jitter b) = backend_score jitter b"
  by (simp only: backend_score_def Let_def fl_idem)

lemma near_best_exists:
  assumes "scores \<noteq> []" and "\<And>s. s \<in> set scores \<Longrightarrow> 0 \<le> snd s \<and> fl (snd s) = snd s"
  shows "filter (\<lambda>s. near_best (best_score scores) (snd s)) scores \<noteq> []"
proof -
  obtain s where s: "s \<in> set scores" "best_score scores = snd s" using best_score_in [OF assms(1)] by auto
  then have "near_best (best_score scores) (snd s)" using near_best_self assms(2) by simp
  then show ?thesis using s(1) unfolding filter_empty_conv by blast
qed

lemma scored_in:
  "s \<in> set (map (\<lambda>(k, i). (i, f k i)) (enumerate 0 xs)) \<Longrightarrow> \<exists>k i. s = (i, f k i) \<and> i \<in> set xs"
proof -
  assume "s \<in> set (map (\<lambda>(k, i). (i, f k i)) (enumerate 0 xs))"
  then obtain k where "k < length xs" "s = (xs ! k, f k (xs ! k))" by (auto simp: in_set_enumerate_eq)
  then show ?thesis using nth_mem by blast
qed

lemma selectBackendByScore_spec:
  assumes rand: "rand_ok rs" and sane: "\<And>i. i \<in> set refs \<Longrightarrow> bk_Healthy (h ! i) \<Longrightarrow> sane_backend (h ! i)"
  shows "if \<exists>i \<in> set refs. bk_Healthy (h ! i)
    then \<exists>i \<in> set refs. bk_Healthy (h ! i) \<and> selectBackendByScore rs h refs = Inr (Some i)
    else selectBackendByScore rs h refs = Inr None"
proof -
  let ?hs = "filter (\<lambda>i. bk_Healthy (h ! i)) refs"
  let ?sc = "map (\<lambda>(k, i). (i, backend_score (r_Float64 rs k) (h ! i))) (enumerate 0 ?hs)"
  let ?cand = "map fst (filter (\<lambda>s. near_best (best_score ?sc) (snd s)) ?sc)"
  have mem: "i \<in> set refs \<and> bk_Healthy (h ! i)" if c: "i \<in> set ?cand" for i
  proof -
    obtain s where s: "s \<in> set ?sc" "i = fst s" using c unfolding set_map [of fst] set_filter by blast
    obtain k j where "s = (j, backend_score (r_Float64 rs k) (h ! j))" "j \<in> set ?hs" using scored_in [OF s(1)] by blast
    then have "i \<in> set ?hs" using s(2) by simp
    then show ?thesis by simp
  qed
  consider "?hs = []" | "length ?hs = 1" | "length ?hs \<noteq> 0 \<and> length ?hs \<noteq> 1" by auto
  then show ?thesis
  proof cases
    case 1
    then have "\<not> (\<exists>i \<in> set refs. bk_Healthy (h ! i))" by (auto simp: filter_empty_conv)
    then show ?thesis using 1 by (simp add: selectBackendByScore_def)
  next
    case 2
    then obtain i where i: "?hs = [i]" by (auto simp: length_Suc_conv)
    have "i \<in> set ?hs" unfolding i by simp
    then have "i \<in> set refs" "bk_Healthy (h ! i)" by simp_all
    then show ?thesis using i by (auto simp: selectBackendByScore_def)
  next
    case 3
    have "0 \<le> snd s \<and> fl (snd s) = snd s" if m: "s \<in> set ?sc" for s
    proof -
      obtain k i where s: "s = (i, backend_score (r_Float64 rs k) (h ! i))" "i \<in> set ?hs"
        using scored_in [OF m] by blast
      then show ?thesis using backend_score_nonneg [of "h ! i" "r_Float64 rs k"] sane rand by (auto simp: rand_ok_def)
    qed
    moreover have "?sc \<noteq> []" 
    proof
      assume "?sc = []"
      then have "length ?sc = 0" by simp
      then show False using 3 by simp
    qed
    ultimately have ne: "?cand \<noteq> []" using near_best_exists by blast
    have sel: "selectBackendByScore rs h refs =
        (if length ?cand = 1 then Inr (Some (?cand ! 0))
         else case Plugin_weightedRandomIndex rs (map (\<lambda>i. backend_weight (h ! i)) ?cand) of
                Inl e \<Rightarrow> Inl e
              | Inr k \<Rightarrow> if k < length ?cand then Inr (Some (?cand ! k)) else Inl IndexPanic)"
      using 3 unfolding selectBackendByScore_def Let_def by simp
    obtain k where k: "k < length ?cand" "selectBackendByScore rs h refs = Inr (Some (?cand ! k))"
    proof (cases "length ?cand = 1")
      case True
      then show thesis using that [of 0] by (simp add: sel)
    next
      case False
      obtain k where "Plugin_weightedRandomIndex rs (map (\<lambda>i. backend_weight (h ! i)) ?cand) = Inr k" "k < length ?cand"
        using weightedRandomIndex_range [OF rand, of "map (\<lambda>i. backend_weight (h ! i)) ?cand"] ne
        by (auto simp: Plugin_weighted_eq)
      then show thesis using that [of k] False by (simp add: sel)
    qed
    then have "?cand ! k \<in> set refs \<and> bk_Healthy (h ! (?cand ! k))" using mem nth_mem by blast
    then show ?thesis using k(2) by auto
  qed
qed


section \<open>Failover\<close>

lemma failover_enough_fuel:
  "(\<And>url. ce_forward env (n + k) url \<noteq> None) \<Longrightarrow> k < fuel \<Longrightarrow> tryFailover fuel env model sid n failed p \<noteq> None"
proof (induction k arbitrary: n fuel failed p)
  case 0
  obtain f where fuel: "fuel = Suc f" using 0(2) by (cases fuel) auto
  have ok: "ce_forward env n url \<noteq> None" for url using 0(1) [of url] by simp
  show ?case by (simp add: fuel Let_def ok split: option.split sum.split prod.split)
next
  case (Suc k)
  then obtain f where fuel: "fuel = Suc f" "k < f" by (cases fuel) auto
  have "tryFailover f env model sid (Suc n) b q \<noteq> None" for b q
    using Suc.prems(1) by (intro Suc.IH [OF _ fuel(2)]) simp
  then show ?case by (auto simp: fuel Let_def split: option.split sum.split prod.split)
qed

lemma failover_ping_pong:
  assumes rand: "\<And>n. rand_ok (ce_rand env n)" and refs: "map_of (pl_modelToBackends p) model = Some refs"
    and two: "i \<in> set refs" "j \<in> set refs" "i \<noteq> j" "bk_Healthy (pl_heap p ! i)" "bk_Healthy (pl_heap p ! j)"
    and sane: "\<And>i. i \<in> set refs \<Longrightarrow> 0 \<le> sint (bk_ActiveConn (pl_heap p ! i))"
    and fails: "\<And>n url. ce_forward env n url = None"
  shows "tryFailover fuel env model '''' n failed p = None"
proof (induction fuel arbitrary: n failed)
  case (Suc fuel)
  let ?c = "filter (\<lambda>b. b \<noteq> failed \<and> bk_Healthy (pl_heap p ! b)) refs"
  have ne: "\<exists>b \<in> set ?c. bk_Healthy (pl_heap p ! b)" using two by auto
  have "sane_backend (pl_heap p ! b)" if "b \<in> set ?c" for b using that sane by (simp add: sane_backend_def)
  then obtain b where "selectBackendByScore (ce_rand env n) (pl_heap p) ?c = Inr (Some b)"
    using selectBackendByScore_spec [OF rand [of n], of ?c "pl_heap p"] ne by auto
  moreover have "?c \<noteq> []" using ne by (metis empty_iff list.set(1))
  ultimately show ?case using Suc.IH by (simp add: refs fails Let_def)
qed simp


section \<open>Samples\<close>

definition sample_backend :: "int \<Rightarrow> i32 \<Rightarrow> Backend" where
  "sample_backend port active =
     \<lparr>bk_Address = ''10.0.0.5'', bk_Port = port, bk_NodePath = ''/chat'', bk_BackendPath = ''/v1/chat'', bk_MaxConcurrent = 1,
      bk_Healthy = True, bk_ActiveConn = active, bk_AvgLatency = 0\<rparr>"

definition sample_plugin :: Plugin where
  "sample_plugin =
     NewPlugin\<lparr>pl_isMaster := True, pl_heap := [sample_backend 8001 0, sample_backend 8002 0],
       pl_modelToBackends := [(''m'', [0, 1])]\<rparr>"

definition failing_env :: ChatEnv where
  "failing_env = \<lparr>ce_rand = \<lambda>_. sample_rand, ce_forward = \<lambda>_ _. None, ce_now = 0\<rparr>"

lemma sample_plugin_fields [simp]:
  "pl_heap sample_plugin = [sample_backend 8001 0, sample_backend 8002 0]"
  "pl_modelToBackends sample_plugin = [(''m'', [0, 1])]" "pl_sessionToBackend sample_plugin = []"
  by (simp_all add: sample_plugin_def NewPlugin_def)



text \<open>
  Two models on the same backend: ending a session takes one connection off each, although it was
  counted once.
\<close>

lemma unbind_releases_twice:
  "pl_heap (unbindSession ''s'' (bindSession 0 ''s'' 0 (NewPlugin\<lparr>pl_heap := [sample_backend 8001 0, sample_backend 8001 0],
     pl_modelToBackends := [(''m1'', [0]), (''m2'', [1])]\<rparr>))) = [sample_backend 8001 0, sample_backend 8001 (- 1)]"
  by (simp add: unbindSession_def bindSession_def release_session_def release_in_def add_active_def sample_backend_def NewPlugin_def)

end
