(* ===== verification/Plugin_Cluster.thy ===== *)
theory Plugin_Cluster
  imports Plugin
begin

text \<open>
  How the plugins of a cluster work together: the election of a master and its messages
  (\<open>models_plugin/election.go\<close>), the table of backends read from the gateway (\<open>sync.go\<close>) and the
  registration at start (\<open>plugin.go\<close>). A plugin reaches the others only through its gateway, whose handlers are
  those of \<open>Admin_Views\<close>. Messages are Go values of type \<open>map[string]interface{}\<close>; on the way they
  are printed as JSON and parsed again, which \<open>json_trip\<close> describes.
\<close>

declare map_of_eq_Some_iff [simp del] Some_eq_map_of_iff [simp del]

section \<open>Messages\<close>

datatype Iface =
    IString string | IInt64 int | IInt int | IFloat rat | IBool bool | INull | IObject "(string \<times> Iface) list"

type_synonym Message = "(string \<times> Iface) list"

text \<open>The type assertions \<open>v.(string)\<close>, \<open>v.(int64)\<close>, \<open>v.(int)\<close>, \<open>v.(map[string]interface{})\<close> with the second result ignored.\<close>

definition as_string :: "Iface option \<Rightarrow> string" where
  "as_string v = (case v of Some (IString s) \<Rightarrow> s | _ \<Rightarrow> '''')"

definition as_int64 :: "Iface option \<Rightarrow> int" where
  "as_int64 v = (case v of Some (IInt64 n) \<Rightarrow> n | _ \<Rightarrow> 0)"

definition as_int :: "Iface option \<Rightarrow> int" where
  "as_int v = (case v of Some (IInt n) \<Rightarrow> n | _ \<Rightarrow> 0)"

definition as_object :: "Iface option \<Rightarrow> Message" where
  "as_object v = (case v of Some (IObject m) \<Rightarrow> m | _ \<Rightarrow> [])"

text \<open>\<open>json.Marshal\<close> and \<open>json.Unmarshal\<close> into an interface: every number comes back as a \<open>float64\<close>.\<close>

primrec json_trip :: "Iface \<Rightarrow> Iface" where
  "json_trip (IString s) = IString s"
| "json_trip (IInt64 n) = IFloat (fl (of_int n))"
| "json_trip (IInt n) = IFloat (fl (of_int n))"
| "json_trip (IFloat x) = IFloat x"
| "json_trip (IBool b) = IBool b"
| "json_trip INull = INull"
| "json_trip (IObject m) = IObject (map (map_prod id json_trip) m)"

abbreviation received :: "Message \<Rightarrow> Message" where
  "received m \<equiv> map (map_prod id json_trip) m"

section \<open>Election\<close>

definition vote_message :: "int \<Rightarrow> string \<Rightarrow> Plugin \<Rightarrow> Message" where
  "vote_message term candidateID p =
     [(''type'', IString ''election''), (''action'', IString ''vote''), (''term'', IInt64 term),
      (''candidate_id'', IString candidateID), (''from'', IString (pl_serviceID p))]"

definition victory_message :: "PluginConfig \<Rightarrow> Plugin \<Rightarrow> Message" where
  "victory_message config p =
     [(''type'', IString ''election''), (''action'', IString ''victory''), (''term'', IInt64 (pl_term p)),
      (''master_id'', IString (pl_serviceID p)), (''master_addr'', IString (pc_PluginAddr config))]"

definition heartbeat_message :: "PluginConfig \<Rightarrow> int \<Rightarrow> Plugin \<Rightarrow> Message" where
  "heartbeat_message config unix p =
     [(''type'', IString ''heartbeat''), (''master_id'', IString (pl_serviceID p)),
      (''master_addr'', IString (pc_PluginAddr config)), (''timestamp'', IInt64 unix)]"

definition vote_response :: "int \<Rightarrow> Message" where
  "vote_response term =
     [(''type'', IString ''election''), (''action'', IString ''vote_response''), (''term'', IInt64 term), (''voted'', IBool True)]"

definition session_message :: "int \<Rightarrow> string \<Rightarrow> Backend \<Rightarrow> Message" where
  "session_message unix sessionID b =
     [(''type'', IString ''session_sync''), (''action'', IString ''bind''),
      (''session'', IObject [(''session_id'', IString sessionID), (''backend_addr'', IString (bk_Address b)),
         (''backend_port'', IInt (bk_Port b)), (''last_activity'', IInt64 unix)])]"

definition syncSession :: "int \<Rightarrow> string \<Rightarrow> Backend \<Rightarrow> Plugin \<Rightarrow> Message list" where
  "syncSession unix sessionID b p = (if \<not> pl_isMaster p then [] else [session_message unix sessionID b])"

text \<open>The list of peers: the request failed, its answer did not decode to strings, or it did.\<close>

definition getPeers :: "string list option option \<Rightarrow> Plugin \<Rightarrow> Plugin" where
  "getPeers answer p =
     (if pl_serviceID p = '''' then p
      else case answer of
        None \<Rightarrow> p
      | Some None \<Rightarrow> p
      | Some (Some peers) \<Rightarrow> p\<lparr>pl_peers := peers\<rparr>)"

text \<open>The second result: whether an election is started.\<close>

definition getPeersAndStartElection :: "string list option option \<Rightarrow> Plugin \<Rightarrow> Plugin \<times> bool" where
  "getPeersAndStartElection answer p =
     (let p = getPeers answer p
      in if length (pl_peers p) = 0 then (p\<lparr>pl_isMaster := True, pl_masterID := pl_serviceID p\<rparr>, False) else (p, True))"

definition becomeMaster :: "PluginConfig \<Rightarrow> Plugin \<Rightarrow> Plugin \<times> Message list" where
  "becomeMaster config p =
     (let p = p\<lparr>pl_isMaster := True, pl_masterID := pl_serviceID p, pl_isCandidate := False\<rparr>
      in (p, [victory_message config p]))"

text \<open>A request to vote: \<open>router\<close> is the status with which the gateway answers a message, if it answers.\<close>

definition sendVoteRequest :: "(Message \<Rightarrow> int option) \<Rightarrow> Plugin \<Rightarrow> string \<Rightarrow> int \<Rightarrow> string \<Rightarrow> bool" where
  "sendVoteRequest router p peer term candidateID \<longleftrightarrow> router (vote_message term candidateID p) = Some 200"

text \<open>One run of \<open>startElection\<close>; a lost election is followed by another run after a pause, the second result.\<close>

definition startElection ::
    "PluginConfig \<Rightarrow> (Message \<Rightarrow> int option) \<Rightarrow> Plugin \<Rightarrow> Plugin \<times> bool \<times> Message list" where
  "startElection config router p =
     (let p = p\<lparr>pl_term := wrap64 (pl_term p + 1), pl_isCandidate := True\<rparr>;
          candidateID = pl_serviceID p;
          voteCount = fold (\<lambda>peer v. if peer = pl_serviceID p then v
                                     else if sendVoteRequest router p peer (pl_term p) candidateID then v + 1 else v)
                        (pl_peers p) (1 :: i32)
      in if sint voteCount > half (sint (word_of_int (int (length (pl_peers p))) :: i32)) then
           (case becomeMaster config (p\<lparr>pl_electionAttempts := 0\<rparr>) of (p, msgs) \<Rightarrow> (p, False, msgs))
         else
           let attempts = pl_electionAttempts p + 1
           in (p\<lparr>pl_isCandidate := False, pl_electionAttempts := (if sint attempts > 5 then 0 else attempts)\<rparr>, True, []))"

definition sendHeartbeat_tick :: "PluginConfig \<Rightarrow> int \<Rightarrow> Plugin \<Rightarrow> Message list" where
  "sendHeartbeat_tick config unix p = (if \<not> pl_isMaster p then [] else [heartbeat_message config unix p])"

definition monitorHeartbeat_tick :: "PluginConfig \<Rightarrow> time \<Rightarrow> Plugin \<Rightarrow> Plugin \<times> bool" where
  "monitorHeartbeat_tick config now p =
     (if pl_isMaster p then (p\<lparr>pl_lastHeartbeat := now\<rparr>, False)
      else if pl_masterID p \<noteq> '''' then (p, time_sub now (pl_lastHeartbeat p) > ElectionTimeout config)
      else (p, False))"

text \<open>A message addressed to another plugin, as the gateway gets it.\<close>

definition sendPluginMessage :: "string \<Rightarrow> Message \<Rightarrow> Message" where
  "sendPluginMessage toServiceID msg = [(''to_service_id'', IString toServiceID), (''message'', IObject msg)]"

definition handleVoteRequest :: "Message \<Rightarrow> Plugin \<Rightarrow> Plugin \<times> Message list" where
  "handleVoteRequest msg p =
     (let term = as_int64 (map_of msg ''term''); candidateID = as_string (map_of msg ''candidate_id'')
      in if term > pl_term p then let p = p\<lparr>pl_term := term\<rparr> in (p, [sendPluginMessage candidateID (vote_response (pl_term p))])
         else (p, []))"

definition handleVictory :: "Message \<Rightarrow> Plugin \<Rightarrow> Plugin" where
  "handleVictory msg p =
     (let masterID = as_string (map_of msg ''master_id''); masterAddr = as_string (map_of msg ''master_addr'');
          term = as_int64 (map_of msg ''term'')
      in if term \<ge> pl_term p
         then p\<lparr>pl_isMaster := False, pl_masterID := masterID, pl_masterAddr := masterAddr, pl_term := term, pl_isCandidate := False\<rparr>
         else p)"

definition Plugin_handleHeartbeat :: "time \<Rightarrow> Message \<Rightarrow> Plugin \<Rightarrow> Plugin" where
  "Plugin_handleHeartbeat now msg p =
     (let masterID = as_string (map_of msg ''master_id''); masterAddr = as_string (map_of msg ''master_addr'');
          p = p\<lparr>pl_lastHeartbeat := now, pl_masterID := masterID\<rparr>
      in if masterAddr \<noteq> '''' then p\<lparr>pl_masterAddr := masterAddr\<rparr> else p)"

definition handleSessionSync :: "Message \<Rightarrow> Plugin \<Rightarrow> Plugin" where
  "handleSessionSync msg p =
     (let action = as_string (map_of msg ''action''); session = as_object (map_of msg ''session'');
          sessionID = as_string (map_of session ''session_id'')
      in if action = ''bind'' then
           p\<lparr>pl_sessionToBackend := AList.update sessionID
               \<lparr>si_SessionID = sessionID, si_BackendAddr = as_string (map_of session ''backend_addr''),
                si_BackendPort = as_int (map_of session ''backend_port''),
                si_LastActivity = seconds (as_int64 (map_of session ''last_activity''))\<rparr> (pl_sessionToBackend p)\<rparr>
         else if action = ''unbind'' then p\<lparr>pl_sessionToBackend := AList.delete sessionID (pl_sessionToBackend p)\<rparr>
         else p)"

definition handleMessage :: "time \<Rightarrow> Message \<Rightarrow> Plugin \<Rightarrow> Plugin \<times> Message list" where
  "handleMessage now msg p =
     (let msgType = as_string (map_of msg ''type'')
      in if msgType = ''election'' then
           let action = as_string (map_of msg ''action'')
           in if action = ''vote'' then handleVoteRequest msg p
              else if action = ''victory'' then (handleVictory msg p, [])
              else (p, [])
         else if msgType = ''heartbeat'' then (Plugin_handleHeartbeat now msg p, [])
         else if msgType = ''session_sync'' then (handleSessionSync msg p, [])
         else (p, []))"

definition handlePluginMessage :: "time \<Rightarrow> string \<Rightarrow> Message Body \<Rightarrow> Plugin \<Rightarrow> unit Reply \<times> Plugin \<times> Message list" where
  "handlePluginMessage now meth body p =
     (if meth \<noteq> ''POST'' then (fail ''method not allowed'' 405, p, [])
      else case body of
        Unreadable \<Rightarrow> (fail ''read request body'' 400, p, [])
      | BadJson \<Rightarrow> (fail ''parse message'' 400, p, [])
      | Decoded msg \<Rightarrow> (case handleMessage now msg p of (p, out) \<Rightarrow> (Json (), p, out)))"

section \<open>The table of backends\<close>

record PluginPathInfo =
  pp_NodePath :: string
  pp_ServicePath :: string
  pp_Description :: string
  pp_Plugin :: bool
  pp_MaxConcurrent :: i32

record PluginNodeInfo =
  pn_NodeID :: string
  pn_Healthy :: bool
  pn_PathInfos :: "PluginPathInfo list"

definition pluginPort :: "PluginConfig \<Rightarrow> int" where
  "pluginPort config =
     (let addr = pc_PluginAddr config
      in if addr = '''' then 0
         else let idx = LastIndex addr CHR '':''
              in if idx < 0 then 0
                 else case Atoi (drop (nat (idx + 1)) addr) of None \<Rightarrow> 0 | Some port \<Rightarrow> port)"

type_synonym Building = "Backend list \<times> nat list gomap"

definition add_backend :: "Backend \<Rightarrow> Building \<Rightarrow> ModelInfo \<Rightarrow> Building" where
  "add_backend b = (\<lambda>(h, newBackends) model.
     (h @ [b], AList.update (mi_ID model)
        ((case map_of newBackends (mi_ID model) of Some refs \<Rightarrow> refs | None \<Rightarrow> []) @ [length h]) newBackends))"

definition new_backend :: "string \<Rightarrow> int \<Rightarrow> string \<Rightarrow> PluginPathInfo \<Rightarrow> Backend" where
  "new_backend address port path pathInfo =
     \<lparr>bk_Address = address, bk_Port = port, bk_NodePath = pp_NodePath pathInfo, bk_BackendPath = path,
      bk_MaxConcurrent = (if sint (pp_MaxConcurrent pathInfo) < 1 then 10 else pp_MaxConcurrent pathInfo),
      bk_Healthy = True, bk_ActiveConn = 0, bk_AvgLatency = 0\<rparr>"

definition fetchModelsFromBackend :: "(string \<Rightarrow> ModelsAnswer) \<Rightarrow> string \<Rightarrow> int \<Rightarrow> ModelInfo list" where
  "fetchModelsFromBackend get address port = models_of_answer (get (models_url address port))"

text \<open>
  One entry of the listing. \<open>getNodeAddress\<close> is the address the gateway gives for a node, \<open>get\<close> the answer of
  a backend to the request for its models.
\<close>

definition sync_path ::
    "PluginConfig \<Rightarrow> (string \<Rightarrow> string option) \<Rightarrow> (string \<Rightarrow> ModelsAnswer) \<Rightarrow> PluginNodeInfo \<Rightarrow> Building \<Rightarrow> PluginPathInfo \<Rightarrow> Building" where
  "sync_path config getNodeAddress get node building pathInfo =
     (if pp_ServicePath pathInfo = '''' then building
      else let parts = SplitN2 CHR ''/'' (pp_ServicePath pathInfo)
           in case Atoi (parts ! 0) of
                None \<Rightarrow> building
              | Some port \<Rightarrow>
                  if pp_Plugin pathInfo \<and> port = pluginPort config then building
                  else let backendPath = (if length parts > 1 then ''/'' @ parts ! 1 else ''/'')
                       in case getNodeAddress (pn_NodeID node) of
                            None \<Rightarrow> building
                          | Some address \<Rightarrow>
                              foldl (add_backend (new_backend address port backendPath pathInfo)) building
                                (fetchModelsFromBackend get address port))"

definition sync_node ::
    "PluginConfig \<Rightarrow> (string \<Rightarrow> string option) \<Rightarrow> (string \<Rightarrow> ModelsAnswer) \<Rightarrow> Building \<Rightarrow> PluginNodeInfo \<Rightarrow> Building" where
  "sync_node config getNodeAddress get building node =
     (if \<not> pn_Healthy node then building else foldl (sync_path config getNodeAddress get node) building (pn_PathInfos node))"

text \<open>Counters and capacities carried over from the table that is replaced.\<close>

definition inherit_counters :: "nat list \<Rightarrow> nat \<Rightarrow> Backend list \<Rightarrow> Backend list" where
  "inherit_counters oldRefs new h =
     (case find (\<lambda>old. bk_Address (h ! new) = bk_Address (h ! old) \<and> bk_Port (h ! new) = bk_Port (h ! old)) oldRefs of
        Some old \<Rightarrow> h[new := (h ! new)\<lparr>bk_ActiveConn := bk_ActiveConn (h ! old), bk_MaxConcurrent := bk_MaxConcurrent (h ! old)\<rparr>]
      | None \<Rightarrow> h)"

definition merge_model :: "nat list gomap \<Rightarrow> string \<times> nat list \<Rightarrow> Backend list \<Rightarrow> Backend list" where
  "merge_model old = (\<lambda>(modelID, refs) h.
     (case map_of old modelID of Some oldRefs \<Rightarrow> fold (inherit_counters oldRefs) refs h | None \<Rightarrow> h))"

definition doSync ::
    "PluginConfig \<Rightarrow> (string \<Rightarrow> string option) \<Rightarrow> (string \<Rightarrow> ModelsAnswer) \<Rightarrow> PluginNodeInfo list option \<Rightarrow> Plugin \<Rightarrow> Plugin" where
  "doSync config getNodeAddress get global p =
     (case global of
        None \<Rightarrow> p
      | Some nodes \<Rightarrow>
          (let (h, newBackends) = foldl (sync_node config getNodeAddress get) (pl_heap p, []) nodes
           in p\<lparr>pl_heap := fold (merge_model (pl_modelToBackends p)) newBackends h, pl_modelToBackends := newBackends\<rparr>))"

text \<open>One tick of \<open>sendHeartbeatToRouter\<close>: the heartbeat for the gateway, once the plugin is registered.\<close>

definition sendHeartbeatToRouter_tick :: "Plugin \<Rightarrow> HeartbeatRequest option" where
  "sendHeartbeatToRouter_tick p =
     (if pl_serviceID p = '''' then None else Some \<lparr>hb_ServiceID = pl_serviceID p, hb_Healthy = pl_Healthy p\<rparr>)"

section \<open>Registration\<close>

definition plugin_endpoints :: "EndpointInfoRequest list" where
  "plugin_endpoints =
     [\<lparr>er_ServicePath = ''18011/v1/chat/completions'', er_NodePath = ''/v1/chat/completions'', er_MaxConcurrent = 100,
       er_Description = ''router'', er_LocalOnly = False, er_Plugin = True\<rparr>,
      \<lparr>er_ServicePath = ''18011/v1/models'', er_NodePath = ''/v1/models'', er_MaxConcurrent = 100,
       er_Description = ''router'', er_LocalOnly = False, er_Plugin = True\<rparr>]"

text \<open>The gateway's answer: none, a status with a text, or a status with a decoded registration.\<close>

datatype RegisterAnswer = RegisterUnreachable string | RegisterStatus int string "string + string"

definition registerEndpoints :: "RegisterAnswer \<Rightarrow> Plugin \<Rightarrow> string option \<times> Plugin" where
  "registerEndpoints answer p =
     (case answer of
        RegisterUnreachable err \<Rightarrow> (Some (''register endpoints request: '' @ err), p)
      | RegisterStatus code body sid \<Rightarrow>
          if code \<noteq> 200 then (Some (''register failed: '' @ body), p)
          else case sid of
            Inl err \<Rightarrow> (Some (''parse response: '' @ err), p)
          | Inr serviceID \<Rightarrow> (None, p\<lparr>pl_serviceID := serviceID\<rparr>))"

section \<open>Messages that have been through JSON\<close>

lemma received_lookup: "map_of (received m) k = map_option json_trip (map_of m k)"
  by (induction m) (auto simp: map_prod_def split: prod.splits)

lemma as_string_trip: "as_string (map_option json_trip v) = as_string v"
proof (cases v)
  case (Some x)
  then show ?thesis by (cases x) (simp_all add: as_string_def)
qed simp

lemma as_int64_trip: "as_int64 (map_option json_trip v) = 0"
proof (cases v)
  case (Some x)
  then show ?thesis by (cases x) (simp_all add: as_int64_def)
qed (simp add: as_int64_def)

lemma as_int_trip: "as_int (map_option json_trip v) = 0"
proof (cases v)
  case (Some x)
  then show ?thesis by (cases x) (simp_all add: as_int_def)
qed (simp add: as_int_def)

lemmas trip_simps = received_lookup as_string_trip as_int64_trip as_int_trip

text \<open>
  What the messages of the protocol do to a plugin that receives them as JSON, for a plugin whose
  term is not negative. The term of a vote request and of a victory is read as 0: no vote is ever given,
  and a victory is accepted only by a plugin that has never stood for election, which keeps term 0. A
  session arrives without its port and as if last used in 1970. Only the heartbeat works: it sets the master and the time.
\<close>

theorem received_messages:
  assumes "0 \<le> pl_term p"
  shows "handleMessage now (received (vote_message term cand q)) p = (p, []) \<and>
    handleMessage now (received (victory_message config q)) p =
      ((if pl_term p = 0 then p\<lparr>pl_isMaster := False, pl_masterID := pl_serviceID q, pl_masterAddr := pc_PluginAddr config,
          pl_isCandidate := False\<rparr> else p), []) \<and>
    handleMessage now (received (session_message unix sid b)) p =
      (p\<lparr>pl_sessionToBackend := AList.update sid
         \<lparr>si_SessionID = sid, si_BackendAddr = bk_Address b, si_BackendPort = 0, si_LastActivity = 0\<rparr> (pl_sessionToBackend p)\<rparr>, []) \<and>
    handleMessage now (received (heartbeat_message config unix q)) p =
      (let p = p\<lparr>pl_lastHeartbeat := now, pl_masterID := pl_serviceID q\<rparr>
       in (if pc_PluginAddr config = '''' then p else p\<lparr>pl_masterAddr := pc_PluginAddr config\<rparr>, []))"
  using assms
  by (simp_all add: handleMessage_def handleVoteRequest_def handleVictory_def handleSessionSync_def Plugin_handleHeartbeat_def
      vote_message_def victory_message_def session_message_def heartbeat_message_def
      as_string_def as_int64_def as_int_def as_object_def Let_def)

section \<open>Plugins and their gateway\<close>

text \<open>The gateway of a plugin, seen from the plugin: its answers to a plugin message and to the request for peers.\<close>

definition gateway_send ::
    "Config \<Rightarrow> (string \<Rightarrow> string \<Rightarrow> string + string) \<Rightarrow> Request \<Rightarrow> string \<Rightarrow> AdminServer \<Rightarrow> Message \<Rightarrow> int option" where
  "gateway_send config post r raw s msg =
     Some (reply_status (fst (handlePluginSend config post r (Decoded (raw, as_string (map_of (received msg) ''to_service_id''))) s)))"

text \<open>The peers are sent as objects with a key \<open>service_id\<close>, which do not decode to strings.\<close>

definition gateway_peers :: "Request \<Rightarrow> AdminServer \<Rightarrow> string \<Rightarrow> string list option" where
  "gateway_peers r s serviceID =
     (case handlePluginPeers r (Decoded serviceID) s of
        Json a \<Rightarrow> if pa_peers a = [] then Some [] else None
      | _ \<Rightarrow> None)"

lemma gateway_refuses_votes: "gateway_send config post r raw s (vote_message term cand p) \<noteq> Some 200"
  by (auto simp: gateway_send_def handlePluginSend_def vote_message_def as_string_def)

text \<open>
  How an election through the gateway ends. A vote request carries no \<open>to_service_id\<close>, so the gateway answers
  it with an error and no vote is counted: a plugin wins with its own vote exactly when it knows at most one
  peer, and with two or more it loses every time, only its term and the number of attempts changing.
\<close>

theorem election_through_gateway:
  assumes "length (pl_peers p) < 2 ^ 31"
  shows "case startElection config (gateway_send gcfg post r raw s) p of (p', again, msgs) \<Rightarrow>
    pl_term p' = wrap64 (pl_term p + 1) \<and> \<not> pl_isCandidate p' \<and>
    (if length (pl_peers p) \<le> 1
     then pl_isMaster p' \<and> pl_masterID p' = pl_serviceID p \<and> \<not> again \<and> msgs = [victory_message config p']
     else again \<and> msgs = [] \<and> pl_isMaster p' = pl_isMaster p \<and> pl_masterID p' = pl_masterID p)"
proof -
  have votes: "fold (\<lambda>peer v. if peer = me then v
      else if sendVoteRequest (gateway_send gcfg post r raw s) q peer t c then v + 1 else v) peers (1 :: i32) = 1" for me q t c peers
    by (induction peers) (simp_all add: sendVoteRequest_def gateway_refuses_votes)
  have len: "sint (word_of_nat (length (pl_peers p)) :: i32) = int (length (pl_peers p))"
    using sint_i32_of_int [of "int (length (pl_peers p))"] assms by simp
  have "1 > half (int (length (pl_peers p))) \<longleftrightarrow> length (pl_peers p) \<le> 1" unfolding half_def by (auto simp: not_le)
  then show ?thesis
    by (simp add: startElection_def votes len becomeMaster_def Let_def)
qed

text \<open>
  Every plugin that asks its gateway for peers at the start becomes master at once, whatever other plugins are
  registered: the list of peers never decodes to a non-empty list of names, and a plugin without peers makes itself master.
\<close>

theorem every_plugin_becomes_master:
  assumes "pl_peers p = []"
  shows "getPeersAndStartElection (Some (gateway_peers r s (pl_serviceID p))) p =
    (p\<lparr>pl_isMaster := True, pl_masterID := pl_serviceID p\<rparr>, False)"
proof -
  have "getPeers (Some (gateway_peers r s (pl_serviceID p))) p = p"
    using assms by (cases p) (auto simp: getPeers_def gateway_peers_def split: option.split Reply.split)
  then show ?thesis using assms by (simp add: getPeersAndStartElection_def)
qed

section \<open>What a synchronisation leaves behind\<close>

text \<open>
  The backends that a listing offers for a model: for every entry with a port on a healthy node whose address is known, except the
  plugin itself, the backend that advertises the model.
\<close>

definition offers :: "PluginConfig \<Rightarrow> (string \<Rightarrow> string option) \<Rightarrow> (string \<Rightarrow> ModelsAnswer) \<Rightarrow> PluginNodeInfo list \<Rightarrow> string \<Rightarrow> Backend \<Rightarrow> bool" where
  "offers config getNodeAddress get nodes modelID b \<longleftrightarrow>
     (\<exists>node \<in> set nodes. pn_Healthy node \<and> getNodeAddress (pn_NodeID node) = Some (bk_Address b) \<and>
       (\<exists>pathInfo \<in> set (pn_PathInfos node). pp_ServicePath pathInfo \<noteq> '''' \<and>
          Atoi (SplitN2 CHR ''/'' (pp_ServicePath pathInfo) ! 0) = Some (bk_Port b) \<and>
          \<not> (pp_Plugin pathInfo \<and> bk_Port b = pluginPort config) \<and>
          (\<exists>m \<in> set (fetchModelsFromBackend get (bk_Address b) (bk_Port b)). mi_ID m = modelID)))"

definition building_ok :: "nat \<Rightarrow> (string \<Rightarrow> Backend \<Rightarrow> bool) \<Rightarrow> Backend list \<Rightarrow> Building \<Rightarrow> bool" where
  "building_ok n P old = (\<lambda>(h, nb). wf_map nb \<and> take n h = old \<and> n \<le> length h \<and>
     (\<forall>m refs i. map_of nb m = Some refs \<longrightarrow> i \<in> set refs \<longrightarrow>
        n \<le> i \<and> i < length h \<and> P m (h ! i) \<and> bk_Healthy (h ! i) \<and> bk_ActiveConn (h ! i) = 0))"

lemma building_ok_add:
  assumes ok: "building_ok n P old bld" and b: "P (mi_ID model) b" "bk_Healthy b" "bk_ActiveConn b = 0"
  shows "building_ok n P old (add_backend b bld model)"
proof -
  obtain h nb where bld: "bld = (h, nb)" by (cases bld)
  have old: "n \<le> i \<and> i < length h \<and> P m (h ! i) \<and> bk_Healthy (h ! i) \<and> bk_ActiveConn (h ! i) = 0"
    if "map_of nb m = Some refs" "i \<in> set refs" for m refs i
    using ok that unfolding bld building_ok_def by blast
  have pre: "wf_map nb" "take n h = old" "n \<le> length h" using ok by (simp_all add: bld building_ok_def)
  have "n \<le> i \<and> i < Suc (length h) \<and> P m ((h @ [b]) ! i) \<and> bk_Healthy ((h @ [b]) ! i) \<and> bk_ActiveConn ((h @ [b]) ! i) = 0"
    if look: "map_of (snd (add_backend b (h, nb) model)) m = Some refs" and i: "i \<in> set refs" for m refs i
  proof (cases "i < length h")
    case True
    then obtain refs' where "map_of nb m = Some refs'" "i \<in> set refs'"
      using look i by (auto simp: add_backend_def map_of_update split: if_splits option.splits)
    then show ?thesis using old [of m refs' i] True by (simp add: nth_append)
  next
    case False
    then have "i = length h \<and> m = mi_ID model"
      using look i old by (fastforce simp: add_backend_def map_of_update split: if_splits option.splits)
    then show ?thesis using b pre by simp
  qed
  then show ?thesis using pre by (simp add: bld building_ok_def add_backend_def wf_map_update)
qed

lemma building_ok_foldl:
  "building_ok n P old bld \<Longrightarrow> (\<And>x bld. x \<in> set xs \<Longrightarrow> building_ok n P old bld \<Longrightarrow> building_ok n P old (f bld x)) \<Longrightarrow>
   building_ok n P old (foldl f bld xs)"
  by (induction xs arbitrary: bld) simp_all

lemma new_backend_fields:
  "bk_Address (new_backend a p path i) = a" "bk_Port (new_backend a p path i) = p"
  "bk_Healthy (new_backend a p path i)" "bk_ActiveConn (new_backend a p path i) = 0"
  by (simp_all add: new_backend_def)

lemma building_ok_sync:
  "building_ok (length old) (offers config addr get nodes) old (foldl (sync_node config addr get) (old, []) nodes)"
proof (rule building_ok_foldl)
  show "building_ok (length old) (offers config addr get nodes) old (old, [])" by (simp add: building_ok_def)
  fix node bld
  assume node: "node \<in> set nodes" and "building_ok (length old) (offers config addr get nodes) old bld"
  moreover have "building_ok (length old) (offers config addr get nodes) old (sync_path config addr get node bld pathInfo)"
    if "pathInfo \<in> set (pn_PathInfos node)" "pn_Healthy node" "building_ok (length old) (offers config addr get nodes) old bld" for pathInfo bld
  proof -
    have "offers config addr get nodes (mi_ID m) (new_backend a port path pathInfo)"
      if "pp_ServicePath pathInfo \<noteq> ''''" "Atoi (SplitN2 CHR ''/'' (pp_ServicePath pathInfo) ! 0) = Some port"
        "\<not> (pp_Plugin pathInfo \<and> port = pluginPort config)" "addr (pn_NodeID node) = Some a"
        "m \<in> set (fetchModelsFromBackend get a port)" for m a port path
      unfolding offers_def new_backend_fields using node that \<open>pn_Healthy node\<close> \<open>pathInfo \<in> set (pn_PathInfos node)\<close> by blast
    then show ?thesis
      using that(3) unfolding sync_path_def Let_def
      by (simp split: option.split) (auto intro!: building_ok_foldl building_ok_add simp: new_backend_fields)
  qed
  ultimately show "building_ok (length old) (offers config addr get nodes) old (sync_node config addr get bld node)"
    by (simp add: sync_node_def building_ok_foldl)
qed

definition plugin_wf :: "Plugin \<Rightarrow> bool" where
  "plugin_wf p \<longleftrightarrow> (\<forall>m refs i. map_of (pl_modelToBackends p) m = Some refs \<longrightarrow> i \<in> set refs \<longrightarrow> i < length (pl_heap p))"

text \<open>The connections a backend starts with: none, or those of a backend of the replaced table at the same address.\<close>

definition inherited :: "nat list gomap \<Rightarrow> Backend list \<Rightarrow> Backend \<Rightarrow> bool" where
  "inherited models old b \<longleftrightarrow> bk_ActiveConn b = 0 \<or>
     (\<exists>m refs o'. map_of models m = Some refs \<and> o' \<in> set refs \<and> bk_Address b = bk_Address (old ! o') \<and>
        bk_Port b = bk_Port (old ! o') \<and> bk_ActiveConn b = bk_ActiveConn (old ! o'))"

definition merging :: "nat list gomap \<Rightarrow> Backend list \<Rightarrow> Backend list \<Rightarrow> Backend list \<Rightarrow> bool" where
  "merging models old h0 h \<longleftrightarrow> length h = length h0 \<and> take (length old) h = old \<and>
     (\<forall>i < length h. bk_Address (h ! i) = bk_Address (h0 ! i) \<and> bk_Port (h ! i) = bk_Port (h0 ! i) \<and> bk_Healthy (h ! i) = bk_Healthy (h0 ! i)) \<and>
     (\<forall>i. length old \<le> i \<longrightarrow> i < length h \<longrightarrow> inherited models old (h0 ! i) \<longrightarrow> inherited models old (h ! i))"

lemma nth_of_take: "take n h = old \<Longrightarrow> i < length old \<Longrightarrow> h ! i = old ! i"
  by (metis length_take min_less_iff_conj nth_take)

lemma merging_inherit:
  assumes M: "merging models old h0 h" and new: "length old \<le> new" "new < length h"
    and refs: "map_of models m = Some oldRefs" "\<And>i. i \<in> set oldRefs \<Longrightarrow> i < length old"
  shows "merging models old h0 (inherit_counters oldRefs new h)"
proof (cases "find (\<lambda>o'. bk_Address (h ! new) = bk_Address (h ! o') \<and> bk_Port (h ! new) = bk_Port (h ! o')) oldRefs")
  case None
  then show ?thesis using M by (simp add: inherit_counters_def)
next
  case (Some o')
  then have o': "o' \<in> set oldRefs" "bk_Address (h ! new) = bk_Address (h ! o')" "bk_Port (h ! new) = bk_Port (h ! o')"
    by (auto simp: find_Some_iff)
  have tk: "take (length old) h = old" using M by (simp add: merging_def)
  then have "h ! o' = old ! o'" using nth_of_take refs(2) [OF o'(1)] by blast
  then have "inherited models old ((h ! new)\<lparr>bk_ActiveConn := bk_ActiveConn (h ! o'), bk_MaxConcurrent := bk_MaxConcurrent (h ! o')\<rparr>)"
    using o' refs(1) unfolding inherited_def by auto
  moreover have "take (length old) (h[new := b]) = old" for b using tk new(1) by simp
  ultimately show ?thesis
    using M new unfolding merging_def inherit_counters_def Some by (auto simp: nth_list_update)
qed

lemma merging_models:
  assumes wf: "\<And>m refs i. map_of models m = Some refs \<Longrightarrow> i \<in> set refs \<Longrightarrow> i < length old"
    and nb: "\<And>m refs i. (m, refs) \<in> set nb \<Longrightarrow> i \<in> set refs \<Longrightarrow> length old \<le> i \<and> i < length h0"
  shows "merging models old h0 h \<Longrightarrow> merging models old h0 (fold (merge_model models) nb h)"
  using nb
proof (induction nb arbitrary: h)
  case (Cons e nb)
  obtain m refs where e: "e = (m, refs)" by (cases e)
  have bnd: "length old \<le> r \<and> r < length h0" if "r \<in> set refs" for r using Cons.prems(2) [of m refs r] that by (simp add: e)
  have step: "merging models old h0 (fold (inherit_counters oldRefs) rs h)"
    if "map_of models m = Some oldRefs" "merging models old h0 h" "set rs \<subseteq> set refs" for oldRefs rs h
    using that(2,3)
  proof (induction rs arbitrary: h)
    case (Cons r rs)
    have "length old \<le> r" "r < length h0" using Cons.prems(2) bnd [of r] by simp_all
    then have "merging models old h0 (inherit_counters oldRefs r h)"
      using Cons.prems(1) that(1) wf by (intro merging_inherit) (auto simp: merging_def)
    then show ?case using Cons.IH Cons.prems(2) by simp
  qed simp
  have "merging models old h0 (merge_model models e h)"
    using Cons.prems(1) step by (auto simp: e merge_model_def split: option.split)
  then have "merging models old h0 (fold (merge_model models) nb (merge_model models e h))"
    by (rule Cons.IH) (use Cons.prems(2) in auto)
  then show ?case by simp
qed simp


definition sample_listing :: "PluginNodeInfo list" where
  "sample_listing = [\<lparr>pn_NodeID = ''n1'', pn_Healthy = True, pn_PathInfos =
     [\<lparr>pp_NodePath = ''/chat'', pp_ServicePath = Itoa 8001, pp_Description = '''', pp_Plugin = False, pp_MaxConcurrent = 4\<rparr>]\<rparr>]"


theorem election_through_gateway_witness:
  "\<exists>p'. startElection DefaultPluginConfig (gateway_send open_config (\<lambda>_ _. Inl ''down'') sample_request '''' sample_server)
     (NewPlugin\<lparr>pl_peers := [''a'', ''b'']\<rparr>) = (p', True, []) \<and> \<not> pl_isMaster p'"
  using election_through_gateway [of "NewPlugin\<lparr>pl_peers := [''a'', ''b'']\<rparr>" DefaultPluginConfig open_config "\<lambda>_ _. Inl ''down''"
      sample_request "''''" sample_server]
  by (auto simp: NewPlugin_def split: prod.splits)

theorem every_plugin_becomes_master_witness:
  "pl_isMaster (fst (getPeersAndStartElection (Some (gateway_peers sample_request sample_server ''s1''))
     (NewPlugin\<lparr>pl_serviceID := ''s1''\<rparr>)))"
  using every_plugin_becomes_master [of "NewPlugin\<lparr>pl_serviceID := ''s1''\<rparr>" sample_request sample_server]
  by (simp add: NewPlugin_def)

theorem received_messages_witness:
  "handleMessage 5 (received (vote_message 3 ''s2'' NewPlugin)) NewPlugin = (NewPlugin, [])"
  using received_messages [of NewPlugin 5 3 "''s2''" NewPlugin] by (simp add: NewPlugin_def)

end
