(* ===== verification/Plugin_Service.thy ===== *)
theory Plugin_Service
  imports Plugin_Cluster
begin

text \<open>
  The life of the plugin program (\<open>models_plugin/plugin.go\<close>: \<open>Start\<close>, \<open>startHTTPServer\<close>, \<open>startBackgroundTasks\<close>, \<open>Stop\<close>;
  \<open>models_plugin/main.go\<close>): its HTTP server, its five background goroutines and the wait group that \<open>Stop\<close> waits for, in every
  interleaving. What the goroutines do while they run is in \<open>Plugin\<close> and \<open>Plugin_Cluster\<close>; here only their ends matter.
\<close>

section \<open>State and operations\<close>

datatype PluginTask = ServeTask | HeartbeatTask | SyncTask | CleanupTask | MonitorTask | ElectionTask

datatype PluginPhase = PluginServing | PluginStopping | PluginWaiting | PluginStopped

record PluginService =
  ps_plugin :: Plugin
  ps_running :: "PluginTask list"
  ps_wg :: int
  ps_stopChan :: bool
  ps_httpDown :: bool
  ps_phase :: PluginPhase

definition new_service :: "Plugin \<Rightarrow> PluginService" where
  "new_service p = \<lparr>ps_plugin = p, ps_running = [], ps_wg = 0, ps_stopChan = False, ps_httpDown = False, ps_phase = PluginServing\<rparr>"

text \<open>\<open>p.wg.Add(1); go task()\<close>\<close>

definition spawn_task :: "PluginTask \<Rightarrow> PluginService \<Rightarrow> PluginService" where
  "spawn_task t ps = ps\<lparr>ps_wg := ps_wg ps + 1, ps_running := ps_running ps @ [t]\<rparr>"

datatype PluginRoute = PChat | PModels | PReceive | PHealth | PStatus | PNotFound

definition plugin_route :: "string \<Rightarrow> PluginRoute" where
  "plugin_route path =
     (if path = ''/v1/chat/completions'' then PChat
      else if path = ''/v1/models'' then PModels
      else if path = ''/v1/plugin/receive'' then PReceive
      else if path = ''/health'' then PHealth
      else if path = ''/v1/status'' then PStatus
      else PNotFound)"

definition startHTTPServer :: "PluginService \<Rightarrow> PluginService" where
  "startHTTPServer ps = spawn_task ServeTask ps"

definition startBackgroundTasks :: "PluginService \<Rightarrow> PluginService" where
  "startBackgroundTasks ps =
     spawn_task ElectionTask (spawn_task MonitorTask (spawn_task CleanupTask (spawn_task SyncTask (spawn_task HeartbeatTask ps))))"

definition Plugin_Start :: "RegisterAnswer \<Rightarrow> Plugin \<Rightarrow> string + PluginService" where
  "Plugin_Start answer p =
     (case registerEndpoints answer p of
        (Some err, _) \<Rightarrow> Inl (''register endpoints: '' @ err)
      | (None, p') \<Rightarrow> Inr (startBackgroundTasks (startHTTPServer (new_service p'))))"

text \<open>
  The goroutines end: the server's when it was shut down or failed, with its deferred \<open>wg.Done\<close>; the four loops when they see the closed
  channel; the election's after its two seconds. None of these five calls \<open>wg.Done\<close>.
\<close>

inductive task_step :: "PluginService \<Rightarrow> PluginService \<Rightarrow> bool" where
  serve_end: "ServeTask \<in> set (ps_running ps) \<Longrightarrow>
    task_step ps (ps\<lparr>ps_running := remove1 ServeTask (ps_running ps), ps_wg := ps_wg ps - 1\<rparr>)"
| loop_end: "t \<in> set (ps_running ps) \<Longrightarrow> t \<in> {HeartbeatTask, SyncTask, CleanupTask, MonitorTask} \<Longrightarrow> ps_stopChan ps \<Longrightarrow>
    task_step ps (ps\<lparr>ps_running := remove1 t (ps_running ps)\<rparr>)"
| election_end: "ElectionTask \<in> set (ps_running ps) \<Longrightarrow>
    task_step ps (ps\<lparr>ps_running := remove1 ElectionTask (ps_running ps)\<rparr>)"

text \<open>\<open>main\<close> after the signal: \<open>Stop\<close> closes the channel, shuts the server down and waits.\<close>

inductive stop_step :: "PluginService \<Rightarrow> PluginService \<Rightarrow> bool" where
  close_stop: "ps_phase ps = PluginServing \<Longrightarrow> stop_step ps (ps\<lparr>ps_stopChan := True, ps_phase := PluginStopping\<rparr>)"
| shutdown_http: "ps_phase ps = PluginStopping \<Longrightarrow> stop_step ps (ps\<lparr>ps_httpDown := True, ps_phase := PluginWaiting\<rparr>)"
| wait_group: "ps_phase ps = PluginWaiting \<Longrightarrow> ps_wg ps = 0 \<Longrightarrow> stop_step ps (ps\<lparr>ps_phase := PluginStopped\<rparr>)"

inductive plugin_service_step :: "PluginService \<Rightarrow> PluginService \<Rightarrow> bool" where
  service_task: "task_step ps ps' \<Longrightarrow> plugin_service_step ps ps'"
| service_stop: "stop_step ps ps' \<Longrightarrow> plugin_service_step ps ps'"

inductive_cases task_stepE: "task_step ps ps'"
inductive_cases stop_stepE: "stop_step ps ps'"
inductive_cases plugin_service_stepE: "plugin_service_step ps ps'"

section \<open>Stopping\<close>

definition service_inv :: "PluginService \<Rightarrow> bool" where
  "service_inv ps \<longleftrightarrow> distinct (ps_running ps) \<and> ps_wg ps = 5 + (if ServeTask \<in> set (ps_running ps) then 1 else 0) \<and>
     ps_phase ps \<noteq> PluginStopped \<and> (ps_phase ps = PluginWaiting \<longrightarrow> ps_stopChan ps) \<and> (ps_phase ps = PluginStopping \<longrightarrow> ps_stopChan ps)"

abbreviation service_started :: "PluginService \<Rightarrow> bool" where
  "service_started ps \<equiv> \<exists>answer. Plugin_Start answer NewPlugin = Inr ps"

interpretation plugin_sys: invariant_system service_started plugin_service_step service_inv
proof
  show "service_inv ps" if started: "service_started ps" for ps
  proof -
    obtain answer where "Plugin_Start answer NewPlugin = Inr ps" using started by blast
    then obtain p where "ps = startBackgroundTasks (startHTTPServer (new_service p))"
      by (cases "registerEndpoints answer NewPlugin") (auto simp: Plugin_Start_def split: option.splits)
    then show ?thesis by (simp add: startBackgroundTasks_def startHTTPServer_def spawn_task_def new_service_def service_inv_def)
  qed
  show "service_inv ps'" if inv: "service_inv ps" and step: "plugin_service_step ps ps'" for ps ps'
    using step inv by (auto simp: service_inv_def elim!: plugin_service_stepE task_stepE stop_stepE)
qed

lemma waiting_step:
  assumes "service_inv ps" and "ps_phase ps = PluginWaiting" and "plugin_service_step ps ps'"
  shows "ps_phase ps' = PluginWaiting \<and> length (ps_running ps') < length (ps_running ps)"
proof -
  have shorter: "length (remove1 t (ps_running ps)) < length (ps_running ps)" if "t \<in> set (ps_running ps)" for t
    using that length_pos_if_in_set [OF that] by (simp add: length_remove1)
  show ?thesis
    using assms(3)
  proof (cases rule: plugin_service_step.cases)
    case service_task
    then show ?thesis using assms(2) shorter by (auto elim!: task_stepE)
  next
    case service_stop
    then show ?thesis using assms(1,2) by (auto simp: service_inv_def elim!: stop_stepE split: if_splits)
  qed
qed

lemma waiting_run:
  assumes "(plugin_service_step ^^ n) ps ps'" and "service_inv ps" and "ps_phase ps = PluginWaiting"
  shows "service_inv ps' \<and> ps_phase ps' = PluginWaiting \<and> n + length (ps_running ps') \<le> length (ps_running ps)"
  using assms(1)
proof (induction n arbitrary: ps')
  case 0
  then show ?case using assms by simp
next
  case (Suc n)
  then obtain e where "(plugin_service_step ^^ n) ps e" "plugin_service_step e ps'" by auto
  then show ?case using Suc.IH [of e] waiting_step [of e ps'] plugin_sys.inv_step [of e ps'] by fastforce
qed

lemma waiting_stuck:
  assumes "service_inv ps" and "ps_phase ps = PluginWaiting" and "\<nexists>ps'. plugin_service_step ps ps'"
  shows "ps_running ps = []"
proof (rule ccontr)
  assume "ps_running ps \<noteq> []"
  then obtain t where t: "t \<in> set (ps_running ps)" using hd_in_set by blast
  have "ps_stopChan ps" using assms(1,2) by (simp add: service_inv_def)
  moreover have "t = ServeTask \<or> t = ElectionTask \<or> t \<in> {HeartbeatTask, SyncTask, CleanupTask, MonitorTask}" by (cases t) simp_all
  ultimately have "\<exists>ps'. task_step ps ps'" using t serve_end [of ps] election_end [of ps] loop_end [of t ps] by blast
  then show False using assms(3) service_task by blast
qed

text \<open>
  C25: The plugin does not stop. In every state it can reach, the wait group counts the five background goroutines for ever, since none of them
  ever calls \<open>Done\<close>, and the server's goroutine while it runs; so \<open>Stop\<close> never returns. Once it waits, the goroutines that are left
  end one after the other, in at most as many steps as there are, and then nothing is left to
  run but the wait itself.
\<close>

theorem plugin_stop_hangs:
  assumes "reach service_started plugin_service_step ps"
  shows "ps_wg ps = 5 + (if ServeTask \<in> set (ps_running ps) then 1 else 0) \<and> ps_phase ps \<noteq> PluginStopped \<and>
    (ps_phase ps = PluginWaiting \<longrightarrow>
      (\<forall>n ps'. (plugin_service_step ^^ n) ps ps' \<longrightarrow> ps_phase ps' = PluginWaiting \<and> n \<le> length (ps_running ps) \<and>
        ((\<nexists>ps''. plugin_service_step ps' ps'') \<longrightarrow> ps_running ps' = [] \<and> ps_wg ps' = 5)))"
proof -
  have inv: "service_inv ps" by (rule plugin_sys.reach_inv [OF assms])
  have "ps_phase ps' = PluginWaiting \<and> n \<le> length (ps_running ps) \<and>
      ((\<nexists>ps''. plugin_service_step ps' ps'') \<longrightarrow> ps_running ps' = [] \<and> ps_wg ps' = 5)"
    if "ps_phase ps = PluginWaiting" "(plugin_service_step ^^ n) ps ps'" for n ps'
  proof -
    have run: "service_inv ps'" "ps_phase ps' = PluginWaiting" "n \<le> length (ps_running ps)"
      using waiting_run [OF that(2) inv that(1)] by simp_all
    then show ?thesis using waiting_stuck [OF run(1,2)] by (auto simp: service_inv_def)
  qed
  then show ?thesis using inv by (simp add: service_inv_def)
qed

definition sample_plugin_up :: PluginService where
  "sample_plugin_up = startBackgroundTasks (startHTTPServer (new_service (NewPlugin\<lparr>pl_serviceID := ''s1''\<rparr>)))"

definition sample_plugin_waiting :: PluginService where
  "sample_plugin_waiting = sample_plugin_up\<lparr>ps_stopChan := True, ps_httpDown := True, ps_phase := PluginWaiting\<rparr>"

lemma sample_plugin_waits: "reach service_started plugin_service_step sample_plugin_waiting"
proof -
  have "Plugin_Start (RegisterStatus 200 '''' (Inr ''s1'')) NewPlugin = Inr sample_plugin_up"
    by (simp add: Plugin_Start_def registerEndpoints_def sample_plugin_up_def)
  then have up: "reach service_started plugin_service_step sample_plugin_up" by (intro reach_init) blast
  have ph: "ps_phase sample_plugin_up = PluginServing"
    by (simp add: sample_plugin_up_def startBackgroundTasks_def startHTTPServer_def spawn_task_def new_service_def)
  have "stop_step sample_plugin_up (sample_plugin_up\<lparr>ps_stopChan := True, ps_phase := PluginStopping\<rparr>)" by (rule close_stop [OF ph])
  from reach_step [OF up service_stop [OF this]]
  have stopping: "reach service_started plugin_service_step (sample_plugin_up\<lparr>ps_stopChan := True, ps_phase := PluginStopping\<rparr>)" .
  have "stop_step (sample_plugin_up\<lparr>ps_stopChan := True, ps_phase := PluginStopping\<rparr>)
      sample_plugin_waiting"
    using shutdown_http [of "sample_plugin_up\<lparr>ps_stopChan := True, ps_phase := PluginStopping\<rparr>"] by (simp add: sample_plugin_waiting_def)
  from reach_step [OF stopping service_stop [OF this]] show ?thesis .
qed

theorem plugin_stop_hangs_witness:
  "ps_wg sample_plugin_waiting = 6 \<and>
   (\<nexists>n ps'. (plugin_service_step ^^ n) sample_plugin_waiting ps' \<and> ps_phase ps' \<noteq> PluginWaiting)"
proof -
  have "ServeTask \<in> set (ps_running sample_plugin_waiting)" "ps_phase sample_plugin_waiting = PluginWaiting"
    by (simp_all add: sample_plugin_waiting_def sample_plugin_up_def startBackgroundTasks_def startHTTPServer_def spawn_task_def new_service_def)
  then show ?thesis
    using plugin_stop_hangs [OF sample_plugin_waits] by auto
qed

end
