(* ===== verification/Process_Manager.thy ===== *)
theory Process_Manager
  imports Go_Strings
begin

text \<open>
  \<open>cmd/route-manager\<close>, the program that starts and stops a gateway and a plugin and keeps their logs. Its lock
  is part of the model: Go's mutexes are not reentrant, so a goroutine that locks one it already holds never
  releases it. An operation that would wait for such a lock has the result \<open>None\<close>: it never returns. The
  operating system's part of starting a process is an argument.
\<close>

section \<open>Processes\<close>

datatype ProcessState = StateStopped | StateStarting | StateRunning | StateStopping

definition state_text :: "ProcessState \<Rightarrow> string" where
  "state_text st = (case st of StateStopped \<Rightarrow> ''stopped'' | StateStarting \<Rightarrow> ''starting'' | StateRunning \<Rightarrow> ''running''
                    | StateStopping \<Rightarrow> ''stopping'')"

text \<open>\<open>mp_locked\<close>: the lock is held by a goroutine that waits for it.\<close>

record ManagedProcess =
  mp_Name :: string
  mp_State :: ProcessState
  mp_Binary :: string
  mp_Args :: "string list"
  mp_WorkDir :: string
  mp_logLines :: "string list"
  mp_logMax :: nat
  mp_startTime :: time
  mp_locked :: bool

record Event =
  ev_Time :: time
  ev_Component :: string
  ev_State :: ProcessState

definition NewManagedProcess :: "string \<Rightarrow> string \<Rightarrow> string \<Rightarrow> string list \<Rightarrow> ManagedProcess" where
  "NewManagedProcess name binary workDir args =
     \<lparr>mp_Name = name, mp_State = StateStopped, mp_Binary = binary, mp_Args = args, mp_WorkDir = workDir, mp_logLines = [],
      mp_logMax = 200, mp_startTime = 0, mp_locked = False\<rparr>"

definition recordEvent :: "time \<Rightarrow> string \<Rightarrow> ProcessState \<Rightarrow> Event list \<Rightarrow> Event list" where
  "recordEvent now component state events =
     (let events = events @ [\<lparr>ev_Time = now, ev_Component = component, ev_State = state\<rparr>]
      in if length events > 50 then drop (length events - 50) events else events)"

definition SetState :: "time \<Rightarrow> ProcessState \<Rightarrow> ManagedProcess \<times> Event list \<Rightarrow> (ManagedProcess \<times> Event list) option" where
  "SetState now state = (\<lambda>(mp, events).
     if mp_locked mp then None
     else let old = mp_State mp;
              mp = mp\<lparr>mp_State := state\<rparr>;
              mp = (if state = StateRunning then mp\<lparr>mp_startTime := now\<rparr> else mp)
          in Some (mp, if old \<noteq> state then recordEvent now (mp_Name mp) state events else events))"

definition GetState :: "ManagedProcess \<Rightarrow> ProcessState option" where
  "GetState mp = (if mp_locked mp then None else Some (mp_State mp))"

definition GetLogs :: "ManagedProcess \<Rightarrow> string list option" where
  "GetLogs mp = (if mp_locked mp then None else Some (mp_logLines mp))"

definition addLog :: "string \<Rightarrow> ManagedProcess \<Rightarrow> ManagedProcess option" where
  "addLog line mp =
     (if mp_locked mp then None
      else let logLines = mp_logLines mp @ [line]
           in Some (mp\<lparr>mp_logLines := (if length logLines > mp_logMax mp then drop (length logLines - mp_logMax mp) logLines else logLines)\<rparr>))"

text \<open>\<open>time.Since(start).Truncate(time.Second)\<close>; the text of the duration is left to the caller.\<close>

definition Uptime :: "time \<Rightarrow> ManagedProcess \<Rightarrow> duration option" where
  "Uptime now mp =
     (if mp_locked mp then None
      else if mp_State mp \<noteq> StateRunning then Some 0
      else let d = time_sub now (mp_startTime mp) in Some (if d < 0 then - ((- d) div seconds 1 * seconds 1) else d div seconds 1 * seconds 1))"

text \<open>Starting: the operating system answers with an error or a process id.\<close>

definition ManagedProcess_Start ::
    "time \<Rightarrow> string + int \<Rightarrow> ManagedProcess \<times> Event list \<Rightarrow> ((string + unit) \<times> ManagedProcess \<times> Event list) option" where
  "ManagedProcess_Start now os = (\<lambda>(mp, events).
     if mp_locked mp then None
     else if mp_State mp = StateRunning \<or> mp_State mp = StateStarting
       then Some (Inl (mp_Name mp @ '' is already running''), mp, events)
     else Option.bind (SetState now StateStarting (mp, events)) (\<lambda>(mp, events).
       case os of
         Inl err \<Rightarrow> Option.bind (SetState now StateStopped (mp, events)) (\<lambda>(mp, events).
           Some (Inl (''failed to start '' @ mp_Name mp @ '': '' @ err), mp, events))
       | Inr pid \<Rightarrow> Option.bind (SetState now StateRunning (mp, events)) (\<lambda>(mp, events).
           Option.bind (addLog (''[manager] '' @ mp_Name mp @ '' started (PID: '' @ Itoa pid @ '')'') mp) (\<lambda>mp.
             Some (Inr (), mp, events)))))"

text \<open>
  The goroutine that waits for the process to end. When the process was running it logs the end while it
  holds the lock that logging takes: it waits for ever, the lock is never released, and the
  callback is never called.
\<close>

definition process_exit :: "time \<Rightarrow> ManagedProcess \<times> Event list \<Rightarrow> ManagedProcess \<times> Event list" where
  "process_exit now = (\<lambda>(mp, events).
     if mp_locked mp then (mp, events)
     else if mp_State mp = StateRunning then (mp\<lparr>mp_State := StateStopped, mp_locked := True\<rparr>, events)
     else (mp, recordEvent now (mp_Name mp) StateStopped events))"

definition ManagedProcess_Stop ::
    "time \<Rightarrow> ManagedProcess \<times> Event list \<Rightarrow> ((string + unit) \<times> ManagedProcess \<times> Event list) option" where
  "ManagedProcess_Stop now = (\<lambda>(mp, events).
     if mp_locked mp then None
     else if mp_State mp \<noteq> StateRunning
       then Some (Inl (mp_Name mp @ '' is not running (state: '' @ state_text (mp_State mp) @ '')''), mp, events)
     else Option.bind (SetState now StateStopping (mp, events)) (\<lambda>(mp, events).
       Option.bind (SetState now StateStopped (mp, events)) (\<lambda>(mp, events).
         Option.bind (addLog (''[manager] '' @ mp_Name mp @ '' stopped'') mp) (\<lambda>mp. Some (Inr (), mp, events)))))"

section \<open>The server\<close>

record ManagerServer =
  ms_gateway :: ManagedProcess
  ms_plugin :: ManagedProcess
  ms_events :: "Event list"

definition NewManagerServer :: "string \<Rightarrow> string \<Rightarrow> string \<Rightarrow> string \<Rightarrow> ManagerServer" where
  "NewManagerServer gatewayBin gatewayDir pluginBin pluginDir =
     \<lparr>ms_gateway = NewManagedProcess ''gateway'' gatewayBin gatewayDir [], ms_plugin = NewManagedProcess ''plugin'' pluginBin pluginDir [],
      ms_events = []\<rparr>"

definition component_of :: "string \<Rightarrow> string" where
  "component_of c = ToLower c"

text \<open>What a handler answers: an error of its own, the error of an operation (409), or success.\<close>

datatype ManagerReply = MgrError string int | MgrConflict string | MgrOk

definition handleStart ::
    "time \<Rightarrow> string + int \<Rightarrow> string \<Rightarrow> (string \<times> string list) option \<Rightarrow> ManagerServer \<Rightarrow> (ManagerReply \<times> ManagerServer) option" where
  "handleStart now os meth body ms =
     (if meth \<noteq> ''POST'' then Some (MgrError ''method not allowed'' 405, ms)
      else case body of
        None \<Rightarrow> Some (MgrError ''invalid json'' 400, ms)
      | Some (component, args) \<Rightarrow>
          if component_of component = ''gateway'' then
            let mp = (if length args > 0 then (ms_gateway ms)\<lparr>mp_Args := args\<rparr> else ms_gateway ms)
            in map_option (\<lambda>(res, mp, events).
                 (case res of Inl err \<Rightarrow> MgrConflict err | Inr _ \<Rightarrow> MgrOk, ms\<lparr>ms_gateway := mp, ms_events := events\<rparr>))
                 (ManagedProcess_Start now os (mp, ms_events ms))
          else if component_of component = ''plugin'' then
            map_option (\<lambda>(res, mp, events).
                 (case res of Inl err \<Rightarrow> MgrConflict err | Inr _ \<Rightarrow> MgrOk, ms\<lparr>ms_plugin := mp, ms_events := events\<rparr>))
                 (ManagedProcess_Start now os (ms_plugin ms, ms_events ms))
          else Some (MgrError (''unknown component: '' @ component) 400, ms))"

definition handleStop :: "time \<Rightarrow> string \<Rightarrow> string option \<Rightarrow> ManagerServer \<Rightarrow> (ManagerReply \<times> ManagerServer) option" where
  "handleStop now meth body ms =
     (if meth \<noteq> ''POST'' then Some (MgrError ''method not allowed'' 405, ms)
      else case body of
        None \<Rightarrow> Some (MgrError ''invalid json'' 400, ms)
      | Some component \<Rightarrow>
          if component_of component = ''gateway'' then
            map_option (\<lambda>(res, mp, events).
                 (case res of Inl err \<Rightarrow> MgrConflict err | Inr _ \<Rightarrow> MgrOk, ms\<lparr>ms_gateway := mp, ms_events := events\<rparr>))
                 (ManagedProcess_Stop now (ms_gateway ms, ms_events ms))
          else if component_of component = ''plugin'' then
            map_option (\<lambda>(res, mp, events).
                 (case res of Inl err \<Rightarrow> MgrConflict err | Inr _ \<Rightarrow> MgrOk, ms\<lparr>ms_plugin := mp, ms_events := events\<rparr>))
                 (ManagedProcess_Stop now (ms_plugin ms, ms_events ms))
          else Some (MgrError (''unknown component: '' @ component) 400, ms))"

definition handleLogs :: "string \<Rightarrow> ManagerServer \<Rightarrow> (ManagerReply + string \<times> string list) option" where
  "handleLogs component ms =
     (if component_of component = ''gateway'' then map_option (\<lambda>logs. Inr (component, logs)) (GetLogs (ms_gateway ms))
      else if component_of component = ''plugin'' then map_option (\<lambda>logs. Inr (component, logs)) (GetLogs (ms_plugin ms))
      else Some (Inl (MgrError ''unknown component'' 400)))"

definition handleEvents :: "ManagerServer \<Rightarrow> Event list" where
  "handleEvents ms = ms_events ms"

definition getStatus :: "time \<Rightarrow> ManagerServer \<Rightarrow> ((ProcessState \<times> duration) \<times> (ProcessState \<times> duration)) option" where
  "getStatus now ms =
     Option.bind (GetState (ms_gateway ms)) (\<lambda>gs. Option.bind (Uptime now (ms_gateway ms)) (\<lambda>gu.
       Option.bind (GetState (ms_plugin ms)) (\<lambda>ps. Option.bind (Uptime now (ms_plugin ms)) (\<lambda>pu. Some ((gs, gu), (ps, pu))))))"

section \<open>What the manager can reach\<close>

text \<open>
  The operations on one process, with the events of the server: requests that return, the end of the
  process, and lines of its output.
\<close>

inductive proc_step :: "ManagedProcess \<times> Event list \<Rightarrow> ManagedProcess \<times> Event list \<Rightarrow> bool" where
  started: "ManagedProcess_Start now os s = Some (res, s') \<Longrightarrow> proc_step s s'"
| stopped: "ManagedProcess_Stop now s = Some (res, s') \<Longrightarrow> proc_step s s'"
| exited: "proc_step s (process_exit now s)"
| printed: "addLog line mp = Some mp' \<Longrightarrow> proc_step (mp, events) (mp', events)"
| new_args: "proc_step (mp, events) (mp\<lparr>mp_Args := args\<rparr>, events)"

definition proc_inv :: "ManagedProcess \<times> Event list \<Rightarrow> bool" where
  "proc_inv = (\<lambda>(mp, events). mp_logMax mp = 200 \<and> length (mp_logLines mp) \<le> 200 \<and> length events \<le> 50)"

lemma recordEvent_length: "length events \<le> 50 \<Longrightarrow> length (recordEvent now c st events) \<le> 50"
  by (simp add: recordEvent_def Let_def)

lemma SetState_inv: "proc_inv s \<Longrightarrow> SetState now st s = Some s' \<Longrightarrow> proc_inv s'"
  by (cases s) (auto simp: proc_inv_def SetState_def recordEvent_length Let_def split: if_splits)

lemma addLog_inv: "proc_inv (mp, events) \<Longrightarrow> addLog line mp = Some mp' \<Longrightarrow> proc_inv (mp', events)"
  by (auto simp: proc_inv_def addLog_def Let_def split: if_splits)

lemma Start_inv:
  assumes "proc_inv s" and "ManagedProcess_Start now os s = Some (res, s')"
  shows "proc_inv s'"
proof -
  obtain mp events where s: "s = (mp, events)" by (cases s)
  show ?thesis
  proof (cases os)
    case (Inl err)
    then show ?thesis
      using assms unfolding ManagedProcess_Start_def s
      by (auto simp: Option.bind_eq_Some_conv split: if_splits) (meson SetState_inv)
  next
    case (Inr pid)
    then show ?thesis
      using assms unfolding ManagedProcess_Start_def s
      by (auto simp: Option.bind_eq_Some_conv split: if_splits) (meson SetState_inv addLog_inv)
  qed
qed

lemma Stop_inv:
  assumes "proc_inv s" and "ManagedProcess_Stop now s = Some (res, s')"
  shows "proc_inv s'"
proof -
  obtain mp events where s: "s = (mp, events)" by (cases s)
  show ?thesis
    using assms unfolding ManagedProcess_Stop_def s
    by (auto simp: Option.bind_eq_Some_conv split: if_splits) (meson SetState_inv addLog_inv)
qed

lemma proc_inv_step:
  assumes inv: "proc_inv s" and "proc_step s t"
  shows "proc_inv t"
  using assms(2)
proof cases
  case started
  then show ?thesis using Start_inv [OF inv] by blast
next
  case stopped
  then show ?thesis using Stop_inv [OF inv] by blast
next
  case (exited now)
  then show ?thesis
    using inv by (cases s) (auto simp: proc_inv_def process_exit_def recordEvent_length split: if_splits)
next
  case (printed line mp mp' events)
  then show ?thesis using addLog_inv inv by simp
next
  case (new_args mp events args)
  then show ?thesis using inv by (simp add: proc_inv_def)
qed

text \<open>A step of the server is a step of one of its two processes.\<close>

inductive mgr_step :: "ManagerServer \<Rightarrow> ManagerServer \<Rightarrow> bool" where
  gateway_step: "proc_step (ms_gateway ms, ms_events ms) (mp, events) \<Longrightarrow> mgr_step ms (ms\<lparr>ms_gateway := mp, ms_events := events\<rparr>)"
| plugin_step: "proc_step (ms_plugin ms, ms_events ms) (mp, events) \<Longrightarrow> mgr_step ms (ms\<lparr>ms_plugin := mp, ms_events := events\<rparr>)"

definition mgr_inv :: "ManagerServer \<Rightarrow> bool" where
  "mgr_inv ms \<longleftrightarrow> proc_inv (ms_gateway ms, ms_events ms) \<and> proc_inv (ms_plugin ms, ms_events ms)"

interpretation mgr_sys: invariant_system "\<lambda>ms. \<exists>gb gd pb pd. ms = NewManagerServer gb gd pb pd" mgr_step mgr_inv
proof
  show "mgr_inv s" if "\<exists>gb gd pb pd. s = NewManagerServer gb gd pb pd" for s
    using that by (auto simp: mgr_inv_def NewManagerServer_def NewManagedProcess_def proc_inv_def)
  show "mgr_inv t" if "mgr_inv s" and "mgr_step s t" for s t
    using that(2)
  proof cases
    case (gateway_step mp events)
    have "proc_inv (mp, events)" using proc_inv_step [OF _ gateway_step(2)] that(1) by (simp add: mgr_inv_def)
    then show ?thesis using that(1) by (simp add: gateway_step(1) mgr_inv_def proc_inv_def)
  next
    case (plugin_step mp events)
    have "proc_inv (mp, events)" using proc_inv_step [OF _ plugin_step(2)] that(1) by (simp add: mgr_inv_def)
    then show ?thesis using that(1) by (simp add: plugin_step(1) mgr_inv_def proc_inv_def)
  qed
qed

text \<open>Whatever happens, the manager keeps at most 200 lines of output per process and 50 events.\<close>

lemma manager_bounded:
  assumes "reach (\<lambda>ms. \<exists>gb gd pb pd. ms = NewManagerServer gb gd pb pd) mgr_step ms"
  shows "length (mp_logLines (ms_gateway ms)) \<le> 200 \<and> length (mp_logLines (ms_plugin ms)) \<le> 200 \<and> length (handleEvents ms) \<le> 50"
  using mgr_sys.reach_inv [OF assms] by (simp add: mgr_inv_def proc_inv_def handleEvents_def)

section \<open>A process that ends by itself\<close>

lemma locked_step: "mp_locked (fst s) \<Longrightarrow> proc_step s t \<Longrightarrow> mp_locked (fst t)"
  by (erule proc_step.cases) (auto simp: ManagedProcess_Start_def ManagedProcess_Stop_def process_exit_def addLog_def)

interpretation gateway_locked: invariant_system "\<lambda>ms. mp_locked (ms_gateway ms)" mgr_step "\<lambda>ms. mp_locked (ms_gateway ms)"
proof
  show "mp_locked (ms_gateway t)" if "mp_locked (ms_gateway s)" and "mgr_step s t" for s t
    using that(2) by cases (use that(1) locked_step in \<open>fastforce+\<close>)
qed


definition running_manager :: ManagerServer where
  "running_manager = (NewManagerServer ''gw'' '''' ''pl'' '''')\<lparr>ms_gateway := (NewManagedProcess ''gateway'' ''gw'' '''' [])\<lparr>mp_State := StateRunning\<rparr>\<rparr>"


end
