(* ===== verification/Router.thy ===== *)
theory Router
  imports Registry Balancer Pool
begin

text \<open>
  \<open>internal/business/router/router.go\<close>: collecting the candidate nodes for a request path, local and
  remote alike, and choosing one of them. The node's own identifier is an argument, as are the
  registry, the pool manager and, per attempt, the random generator. Logging, metrics and the pauses
  between attempts are left out.
\<close>

section \<open>Matching\<close>

definition matchNodePath :: "string \<Rightarrow> string \<Rightarrow> bool" where
  "matchNodePath requestPath nodePath =
     (if HasSuffix nodePath ''/'' then
        HasPrefix requestPath nodePath \<or> requestPath @ ''/'' = nodePath \<or>
        requestPath = take (length nodePath - 1) nodePath
      else requestPath = nodePath \<or> requestPath = nodePath @ ''/'')"

text \<open>The node identifiers in \<open>X-Forwarded-By\<close>.\<close>

definition already_seen :: "string \<Rightarrow> string list" where
  "already_seen forwardedBy = (if forwardedBy \<noteq> '''' then map TrimSpace (Split CHR '','' forwardedBy) else [])"

section \<open>Candidates\<close>

definition best_step :: "string \<Rightarrow> nat \<times> string \<Rightarrow> LocalEndpoint \<Rightarrow> nat \<times> string" where
  "best_step path best ep =
     (if \<not> ep_Healthy ep then best
      else if matchNodePath path (ep_NodePath ep) \<and> length (ep_NodePath ep) > fst best
        then (length (ep_NodePath ep), ep_NodePath ep)
      else best)"

definition best_local_path :: "Registry \<Rightarrow> string \<Rightarrow> string" where
  "best_local_path reg path = snd (foldl (best_step path) (0, '''') (map snd (Registry_GetAllLocalEndpoints reg)))"

record LocalTotals =
  lt_MaxConcurrent :: i32
  lt_Active :: i32
  lt_QueueLen :: i32
  lt_hasPlugin :: bool
  lt_hasRegular :: bool

definition totals_step :: "PoolManager \<Rightarrow> string \<Rightarrow> LocalTotals \<Rightarrow> LocalEndpoint \<Rightarrow> LocalTotals" where
  "totals_step pm nodePath t ep =
     (if \<not> ep_Healthy ep then t
      else
        let t = t\<lparr>lt_MaxConcurrent := lt_MaxConcurrent t + ep_MaxConcurrent ep\<rparr>;
            t = (case GetPool pm nodePath (ep_EpID ep) of
                   None \<Rightarrow> t
                 | Some p \<Rightarrow>
                     let m = RequestPool_GetMetrics p
                     in t\<lparr>lt_Active := lt_Active t + pmt_Active m, lt_QueueLen := lt_QueueLen t + pmt_QueueLen m\<rparr>)
        in if ep_Plugin ep then t\<lparr>lt_hasPlugin := True\<rparr> else t\<lparr>lt_hasRegular := True\<rparr>)"

definition local_totals :: "Registry \<Rightarrow> PoolManager \<Rightarrow> string \<Rightarrow> LocalTotals" where
  "local_totals reg pm nodePath =
     foldl (totals_step pm nodePath)
       \<lparr>lt_MaxConcurrent = 0, lt_Active = 0, lt_QueueLen = 0, lt_hasPlugin = False, lt_hasRegular = False\<rparr>
       (Registry_ListEndpointsByNodePath reg nodePath)"

definition candidate_node :: "string \<Rightarrow> string \<Rightarrow> int \<Rightarrow> string \<Rightarrow> i32 \<Rightarrow> i32 \<Rightarrow> i32 \<Rightarrow> bool \<Rightarrow> RemoteNode" where
  "candidate_node nodeID address port nodePath active queueLen maxConcurrent isPlugin =
     \<lparr>rn_NodeID = nodeID, rn_Address = address, rn_ServicePort = port, rn_ServicePath = '''', rn_NodePath = nodePath,
      rn_EpID = '''',
      rn_EndpointStates = [(nodePath, \<lparr>es_Active = active, es_QueueLen = queueLen, es_Healthy = True,
        es_MaxConcurrent = maxConcurrent, es_Plugin = isPlugin, es_ResponseTime = 0, es_LastSeen = 0\<rparr>)],
      rn_EndpointDescriptions = [], rn_LastSeen = 0\<rparr>"

text \<open>Candidates carry whether they go to the plugin list or to the regular list.\<close>

definition local_candidates ::
    "string \<Rightarrow> Registry \<Rightarrow> PoolManager \<Rightarrow> string \<Rightarrow> string list \<Rightarrow> (bool \<times> RemoteNode) list" where
  "local_candidates nodeID reg pm path seen =
     (let bestNodePath = best_local_path reg path
      in if bestNodePath \<noteq> '''' then
           let t = local_totals reg pm bestNodePath; plugin = (lt_hasPlugin t \<and> \<not> lt_hasRegular t)
           in if sint (lt_MaxConcurrent t) > 0 \<and> nodeID \<notin> set seen
              then [(plugin, candidate_node nodeID ''127.0.0.1'' 0 bestNodePath
                       (lt_Active t) (lt_QueueLen t) (lt_MaxConcurrent t) plugin)]
              else []
         else [])"

definition remote_best_len :: "Registry \<Rightarrow> string \<Rightarrow> nat" where
  "remote_best_len reg path =
     foldl (\<lambda>best nodePath. if matchNodePath path nodePath \<and> length nodePath > best then length nodePath else best) 0
       (concat (map (\<lambda>node. map fst (rn_EndpointStates node)) (Registry_GetRemoteNodes reg)))"

definition remote_candidate :: "PoolManager \<Rightarrow> RemoteNode \<Rightarrow> string \<Rightarrow> EndpointState \<Rightarrow> bool \<times> RemoteNode" where
  "remote_candidate pm node nodePath state =
     (let isPlugin = (case map_of (rn_EndpointDescriptions node) nodePath of
                        Some desc \<Rightarrow> md_Plugin desc | None \<Rightarrow> es_Plugin state);
          localActive = GetRemoteActive pm (rn_NodeID node) nodePath;
          estimatedActive = es_Active state + localActive;
          estimatedActive = (if sint estimatedActive < 0 then 0 else estimatedActive)
      in (isPlugin, candidate_node (rn_NodeID node) (rn_Address node) (rn_ServicePort node) nodePath
            estimatedActive (es_QueueLen state) (es_MaxConcurrent state) isPlugin))"

definition remote_candidates :: "Registry \<Rightarrow> PoolManager \<Rightarrow> string \<Rightarrow> string list \<Rightarrow> (bool \<times> RemoteNode) list" where
  "remote_candidates reg pm path seen =
     (let best = remote_best_len reg path
      in if best > 0 then
           concat (map (\<lambda>node.
             if rn_NodeID node \<in> set seen then []
             else map (\<lambda>(nodePath, state). remote_candidate pm node nodePath state)
                    (filter (\<lambda>(nodePath, state).
                        es_Healthy state \<and> matchNodePath path nodePath \<and> length nodePath = best)
                      (rn_EndpointStates node)))
             (Registry_GetRemoteNodes reg))
         else [])"

definition getNodesForPath ::
    "string \<Rightarrow> Registry \<Rightarrow> PoolManager \<Rightarrow> string \<Rightarrow> string list \<Rightarrow> RemoteNode list \<times> RemoteNode list" where
  "getNodesForPath nodeID reg pm path seen =
     (let cs = local_candidates nodeID reg pm path seen @ remote_candidates reg pm path seen
      in (map snd (filter fst cs), map snd (filter (\<lambda>c. \<not> fst c) cs)))"

section \<open>Choice\<close>

datatype SelectError = ErrNoHealthyNode | SelectPanic Panic

definition fallback_candidates :: "string \<Rightarrow> RemoteNode list \<Rightarrow> RemoteNode list \<Rightarrow> nat \<Rightarrow> RemoteNode list" where
  "fallback_candidates nodeID pluginNodes regularNodes attempt =
     (let candidates = (if pluginNodes \<noteq> [] then pluginNodes else regularNodes);
          filtered = filter (\<lambda>n. rn_NodeID n \<noteq> nodeID) candidates
      in if attempt > 0 \<and> length candidates > 1 \<and> filtered \<noteq> [] then filtered else candidates)"

definition selectNodeWithFallback ::
    "string \<Rightarrow> Rand \<Rightarrow> RemoteNode list \<Rightarrow> RemoteNode list \<Rightarrow> nat \<Rightarrow> SelectError + RemoteNode \<times> bool" where
  "selectNodeWithFallback nodeID rs pluginNodes regularNodes attempt =
     (if pluginNodes = [] \<and> regularNodes = [] then Inl ErrNoHealthyNode
      else
        let isPluginRequest = (pluginNodes \<noteq> []);
            candidates = fallback_candidates nodeID pluginNodes regularNodes attempt
        in case SelectNode rs candidates of
             Inl p \<Rightarrow> Inl (SelectPanic p)
           | Inr None \<Rightarrow> Inr (candidates ! 0, isPluginRequest)
           | Inr (Some node) \<Rightarrow> Inr (node, isPluginRequest))"

text \<open>What \<open>HandleRequest\<close> does: answer 404 or 503, panic, or hand back a node and mark plugin requests.\<close>

datatype RouteOutcome = EndpointNotFound | NoHealthyNode | RoutePanic Panic | Routed RemoteNode bool

definition maxRetries :: nat where
  "maxRetries = 2"

fun try_attempts ::
    "string \<Rightarrow> (nat \<Rightarrow> Rand) \<Rightarrow> RemoteNode list \<Rightarrow> RemoteNode list \<Rightarrow> nat \<Rightarrow> nat \<Rightarrow> RouteOutcome" where
  "try_attempts nodeID rss pluginNodes regularNodes attempt 0 = NoHealthyNode"
| "try_attempts nodeID rss pluginNodes regularNodes attempt (Suc left) =
     (case selectNodeWithFallback nodeID (rss attempt) pluginNodes regularNodes attempt of
        Inl (SelectPanic p) \<Rightarrow> RoutePanic p
      | Inl ErrNoHealthyNode \<Rightarrow> try_attempts nodeID rss pluginNodes regularNodes (Suc attempt) left
      | Inr (node, isPluginRequest) \<Rightarrow> Routed node isPluginRequest)"

definition HandleRequest ::
    "string \<Rightarrow> (nat \<Rightarrow> Rand) \<Rightarrow> Registry \<Rightarrow> PoolManager \<Rightarrow> string \<Rightarrow> string \<Rightarrow> RouteOutcome" where
  "HandleRequest nodeID rss reg pm path forwardedBy =
     (let (pluginNodes, regularNodes) = getNodesForPath nodeID reg pm path (already_seen forwardedBy)
      in if pluginNodes = [] \<and> regularNodes = [] then EndpointNotFound
         else try_attempts nodeID rss pluginNodes regularNodes 0 (Suc maxRetries))"

section \<open>What matches\<close>

lemma match_is_path_matches: "matchNodePath = path_matches"
  by (simp add: fun_eq_iff matchNodePath_def path_matches_def)

text \<open>A path registered with a trailing slash stands for the whole subtree, one without for itself.\<close>

lemma match_slash: "matchNodePath path (base @ ''/'') \<longleftrightarrow> path = base \<or> prefix (base @ ''/'') path"
  by (auto simp: matchNodePath_def HasSuffix_def HasPrefix_def suffix_def)

lemma match_plain:
  "\<not> HasSuffix nodePath ''/'' \<Longrightarrow> matchNodePath path nodePath \<longleftrightarrow> path = nodePath \<or> path = nodePath @ ''/''"
  by (simp add: matchNodePath_def)

lemma HasSuffix_slashE: "HasSuffix s ''/'' \<Longrightarrow> (\<And>base. s = base @ ''/'' \<Longrightarrow> thesis) \<Longrightarrow> thesis"
  by (auto simp: HasSuffix_def suffix_def)

lemma sub_path_matched:
  assumes "matchNodePath path nodePath" and "nodePath \<noteq> ''''"
  shows "sub_path nodePath path = (if prefix nodePath path then drop (length nodePath) path else '''')"
proof (cases "prefix nodePath path")
  case True
  then obtain rest where "path = nodePath @ rest" by (auto elim: prefixE)
  then show ?thesis using assms(2) True by (simp add: sub_path_def)
next
  case False
  then have "nodePath = path @ ''/''"
  proof (cases "HasSuffix nodePath ''/''")
    case True
    then show ?thesis using assms(1) False by (auto elim!: HasSuffix_slashE simp: match_slash)
  next
    case no: False
    then show ?thesis using assms(1) False by (auto simp: match_plain)
  qed
  then show ?thesis using False by (simp add: sub_path_def TrimPrefix_def HasPrefix_def)
qed

text \<open>
  The backend URL of a request that matched a pool's path: what the request has beyond the
  registered path is appended to the backend URL registered for it, and nothing is appended when the
  request is the registered path without its trailing slash; the query string follows.
\<close>

theorem target_url_of_match:
  assumes "matchNodePath path (rp_path p)" and "rp_path p \<noteq> ''''"
  shows "\<exists>rest. target_url p path query = rp_targetURL p @ rest @ (if query = '''' then '''' else ''?'' @ query) \<and>
    (path = rp_path p @ rest \<or> path @ ''/'' = rp_path p \<and> rest = '''')"
proof (cases "prefix (rp_path p) path")
  case True
  then obtain rest where "path = rp_path p @ rest" by (auto elim: prefixE)
  then show ?thesis using sub_path_matched [OF assms] by (auto simp: target_url_def)
next
  case False
  then have "path @ ''/'' = rp_path p"
    using assms(1) by (cases "HasSuffix (rp_path p) ''/''") (auto elim!: HasSuffix_slashE simp: match_slash match_plain)
  then show ?thesis using sub_path_matched [OF assms] False by (auto simp: target_url_def)
qed

theorem target_url_of_match_witness:
  "target_url (NewRequestPool ''/v1/'' ''e'' ''http://b:1/x/'' 1 1 0) ''/v1/chat'' ''k=1'' = ''http://b:1/x/chat?k=1''"
proof -
  let ?p = "NewRequestPool ''/v1/'' ''e'' ''http://b:1/x/'' 1 1 0"
  have "matchNodePath ''/v1/chat'' (rp_path ?p)" "rp_path ?p \<noteq> ''''"
    by (simp_all add: matchNodePath_def HasSuffix_def HasPrefix_def suffix_def)
  from target_url_of_match [OF this, of "''k=1''"] show ?thesis by (auto simp: NewRequestPool_def)
qed

section \<open>The candidates\<close>

lemma best_local_fold:
  "foldl (best_step path) (0, '''') eps = (n, np) \<Longrightarrow>
   n = length np \<and>
   (\<forall>ep \<in> set eps. ep_Healthy ep \<longrightarrow> matchNodePath path (ep_NodePath ep) \<longrightarrow> length (ep_NodePath ep) \<le> n) \<and>
   (np = '''' \<or> (\<exists>ep \<in> set eps. ep_Healthy ep \<and> matchNodePath path (ep_NodePath ep) \<and> ep_NodePath ep = np))"
proof (induction eps arbitrary: n np rule: rev_induct)
  case (snoc ep eps)
  obtain m mp where f: "foldl (best_step path) (0, '''') eps = (m, mp)" by fastforce
  have step: "best_step path (m, mp) ep = (n, np)" using snoc.prems by (simp add: f)
  then have "(n, np) = (m, mp) \<or> ep_Healthy ep \<and> matchNodePath path (ep_NodePath ep) \<and>
      m < length (ep_NodePath ep) \<and> n = length (ep_NodePath ep) \<and> np = ep_NodePath ep"
    by (auto simp: best_step_def split: if_splits)
  moreover have "ep_Healthy ep \<longrightarrow> matchNodePath path (ep_NodePath ep) \<longrightarrow> length (ep_NodePath ep) \<le> n"
    using step by (auto simp: best_step_def split: if_splits)
  ultimately show ?case using snoc.IH [OF f] by fastforce
qed simp

lemma best_local_path:
  assumes "best_local_path reg path = np"
  shows "(q, ep) \<in> set (Registry_GetAllLocalEndpoints reg) \<Longrightarrow> ep_Healthy ep \<Longrightarrow>
      matchNodePath path (ep_NodePath ep) \<Longrightarrow> length (ep_NodePath ep) \<le> length np"
    and "np \<noteq> '''' \<Longrightarrow> \<exists>q ep. (q, ep) \<in> set (Registry_GetAllLocalEndpoints reg) \<and> ep_Healthy ep \<and>
      matchNodePath path (ep_NodePath ep) \<and> ep_NodePath ep = np"
proof -
  obtain n np' where f: "foldl (best_step path) (0, '''') (map snd (Registry_GetAllLocalEndpoints reg)) = (n, np')"
    by fastforce
  have "np' = np" using assms f by (simp add: best_local_path_def)
  note fold = best_local_fold [OF f, unfolded this]
  show "(q, ep) \<in> set (Registry_GetAllLocalEndpoints reg) \<Longrightarrow> ep_Healthy ep \<Longrightarrow>
      matchNodePath path (ep_NodePath ep) \<Longrightarrow> length (ep_NodePath ep) \<le> length np"
    using fold by force
  show "np \<noteq> '''' \<Longrightarrow> \<exists>q ep. (q, ep) \<in> set (Registry_GetAllLocalEndpoints reg) \<and> ep_Healthy ep \<and>
      matchNodePath path (ep_NodePath ep) \<and> ep_NodePath ep = np"
    using fold by force
qed

lemma foldl_max_filter:
  "foldl (\<lambda>b x. if P x \<and> f x > b then f x else b) a xs = foldl (\<lambda>b x. if f x > b then f x else b) a (filter P xs)"
  for f :: "'a \<Rightarrow> nat"
  by (induction xs arbitrary: a) auto

lemma remote_best_len:
  shows "node \<in> set (Registry_GetRemoteNodes reg) \<Longrightarrow> (np, st) \<in> set (rn_EndpointStates node) \<Longrightarrow>
      matchNodePath path np \<Longrightarrow> length np \<le> remote_best_len reg path"
    and "remote_best_len reg path > 0 \<Longrightarrow> \<exists>node np st. node \<in> set (Registry_GetRemoteNodes reg) \<and>
      (np, st) \<in> set (rn_EndpointStates node) \<and> matchNodePath path np \<and> length np = remote_best_len reg path"
proof -
  let ?ps = "filter (matchNodePath path) (concat (map (\<lambda>node. map fst (rn_EndpointStates node)) (Registry_GetRemoteNodes reg)))"
  have len: "remote_best_len reg path = foldl (\<lambda>b x. if length x > b then length x else b) 0 ?ps"
    unfolding remote_best_len_def by (rule foldl_max_filter)
  show "length np \<le> remote_best_len reg path"
    if "node \<in> set (Registry_GetRemoteNodes reg)" "(np, st) \<in> set (rn_EndpointStates node)" "matchNodePath path np"
    unfolding len by (rule foldl_max_ge) (use that in force)
  show "\<exists>node np st. node \<in> set (Registry_GetRemoteNodes reg) \<and> (np, st) \<in> set (rn_EndpointStates node) \<and>
      matchNodePath path np \<and> length np = remote_best_len reg path" if "remote_best_len reg path > 0"
    using foldl_max_in [of length 0 ?ps] that unfolding len [symmetric] by force
qed

definition all_candidates ::
    "string \<Rightarrow> Registry \<Rightarrow> PoolManager \<Rightarrow> string \<Rightarrow> string list \<Rightarrow> (bool \<times> RemoteNode) list" where
  "all_candidates nodeID reg pm path seen = local_candidates nodeID reg pm path seen @ remote_candidates reg pm path seen"

lemma candidate_node_fields [simp]:
  "rn_NodeID (candidate_node i a p np x y z b) = i"
  "rn_Address (candidate_node i a p np x y z b) = a"
  "rn_ServicePort (candidate_node i a p np x y z b) = p"
  "rn_NodePath (candidate_node i a p np x y z b) = np"
  "rn_ServicePath (candidate_node i a p np x y z b) = ''''"
  "first_state (candidate_node i a p np x y z b) = Some \<lparr>es_Active = x, es_QueueLen = y, es_Healthy = True,
     es_MaxConcurrent = z, es_Plugin = b, es_ResponseTime = 0, es_LastSeen = 0\<rparr>"
  by (simp_all add: candidate_node_def first_state_def)

text \<open>What qualifies a candidate: this node, through a healthy endpoint of its own, or a remote node.\<close>

definition local_target :: "string \<Rightarrow> Registry \<Rightarrow> string \<Rightarrow> RemoteNode \<Rightarrow> bool" where
  "local_target nodeID reg path c \<longleftrightarrow>
     rn_NodeID c = nodeID \<and> rn_Address c = ''127.0.0.1'' \<and>
     (\<exists>ep \<in> set (Registry_ListEndpoints reg). ep_Healthy ep \<and> ep_NodePath ep = rn_NodePath c) \<and>
     (\<forall>(q, ep) \<in> set (Registry_GetAllLocalEndpoints reg). ep_Healthy ep \<longrightarrow> matchNodePath path (ep_NodePath ep) \<longrightarrow>
        length (ep_NodePath ep) \<le> length (rn_NodePath c))"

definition remote_target :: "Registry \<Rightarrow> string \<Rightarrow> RemoteNode \<Rightarrow> bool" where
  "remote_target reg path c \<longleftrightarrow>
     (\<exists>node \<in> set (Registry_GetRemoteNodes reg). rn_NodeID node = rn_NodeID c \<and> rn_Address node = rn_Address c \<and>
        rn_ServicePort node = rn_ServicePort c \<and>
        (\<exists>st. (rn_NodePath c, st) \<in> set (rn_EndpointStates node) \<and> es_Healthy st)) \<and>
     (\<forall>node \<in> set (Registry_GetRemoteNodes reg). \<forall>(np, st) \<in> set (rn_EndpointStates node).
        matchNodePath path np \<longrightarrow> length np \<le> length (rn_NodePath c))"

lemma local_candidate_target:
  assumes "wf_les (table_of reg)" and "(b, c) \<in> set (local_candidates nodeID reg pm path seen)"
  shows "rn_NodeID c \<notin> set seen \<and> matchNodePath path (rn_NodePath c) \<and> local_target nodeID reg path c"
proof -
  let ?np = "best_local_path reg path"
  have c: "?np \<noteq> ''''" "rn_NodeID c = nodeID" "nodeID \<notin> set seen" "rn_NodePath c = ?np" "rn_Address c = ''127.0.0.1''"
    using assms(2) by (auto simp: local_candidates_def Let_def split: if_splits)
  obtain q ep where ep: "(q, ep) \<in> set (Registry_GetAllLocalEndpoints reg)" "ep_Healthy ep"
    "matchNodePath path (ep_NodePath ep)" "ep_NodePath ep = ?np"
    using best_local_path(2) [OF refl c(1)] by blast
  have "map_of (Registry_GetAllLocalEndpoints reg) q = Some ep"
    using ep(1) wf_map_GetAll wf_map_iff unfolding Registry_GetAllLocalEndpoints_def by fast
  then have "ep \<in> set (Registry_ListEndpoints reg)"
    using GetAll_in_List ListByNodePath_iff assms(1)
    by (auto simp: Registry_GetAllLocalEndpoints_def Registry_ListEndpoints_def table_of_def)
  then show ?thesis
    using c ep best_local_path(1) [OF refl] by (auto simp: local_target_def)
qed

lemma remote_candidate_target:
  assumes "(b, c) \<in> set (remote_candidates reg pm path seen)"
  shows "rn_NodeID c \<notin> set seen \<and> matchNodePath path (rn_NodePath c) \<and> remote_target reg path c"
proof -
  obtain node np st where "node \<in> set (Registry_GetRemoteNodes reg)" "rn_NodeID node \<notin> set seen"
    "(np, st) \<in> set (rn_EndpointStates node)" "es_Healthy st" "matchNodePath path np" "length np = remote_best_len reg path"
    "(b, c) = remote_candidate pm node np st"
    using assms by (auto simp: remote_candidates_def Let_def split: if_splits)
  then show ?thesis
    using remote_best_len(1) by (fastforce simp: remote_candidate_def Let_def remote_target_def)
qed

lemma SelectNode_member: "SelectNode rs nodes = Inr (Some n) \<Longrightarrow> n \<in> set nodes"
proof -
  let ?cand = "filter (\<lambda>ns. near_best (best_score (node_scores rs nodes)) (snd ns)) (node_scores rs nodes)"
  have "fst (?cand ! k) \<in> set nodes" if "k < length ?cand" for k
  proof -
    have "?cand ! k \<in> set (node_scores rs nodes)" using nth_mem [OF that] unfolding set_filter by blast
    then show ?thesis using node_scores_in [of "fst (?cand ! k)" "snd (?cand ! k)"] by simp
  qed
  then show "SelectNode rs nodes = Inr (Some n) \<Longrightarrow> n \<in> set nodes"
    unfolding SelectNode_def Let_def by (auto split: if_splits sum.splits)
qed

lemma fallback_candidates_subset: "set (fallback_candidates nodeID ps qs attempt) \<subseteq> set (if ps \<noteq> [] then ps else qs)"
  unfolding fallback_candidates_def Let_def by auto

lemma fallback_candidates_empty: "fallback_candidates nodeID ps qs attempt = [] \<longleftrightarrow> ps = [] \<and> qs = []"
  by (auto simp: fallback_candidates_def Let_def)

lemma fallback_member:
  assumes "selectNodeWithFallback nodeID rs ps qs attempt = Inr (n, b)"
  shows "b = (ps \<noteq> []) \<and> n \<in> set (if b then ps else qs)"
proof -
  let ?cs = "fallback_candidates nodeID ps qs attempt"
  have ne: "?cs \<noteq> []" using assms by (auto simp: selectNodeWithFallback_def fallback_candidates_empty split: if_splits)
  have "n \<in> set ?cs" and b: "b = (ps \<noteq> [])"
    using assms SelectNode_member [of rs ?cs] nth_mem [of 0 ?cs] ne
    unfolding selectNodeWithFallback_def Let_def by (auto split: if_splits sum.splits option.splits)
  then show ?thesis using fallback_candidates_subset [of nodeID ps qs attempt] by auto
qed

lemma attempts_member:
  "try_attempts nodeID rss ps qs a left = Routed n b \<Longrightarrow> b = (ps \<noteq> []) \<and> n \<in> set (if b then ps else qs)"
  by (induction nodeID rss ps qs a left rule: try_attempts.induct)
     (auto split: sum.splits SelectError.splits dest: fallback_member)

lemma routed_candidate:
  assumes "HandleRequest nodeID rss reg pm path fb = Routed n b"
  shows "(b, n) \<in> set (all_candidates nodeID reg pm path (already_seen fb))"
proof -
  let ?cs = "all_candidates nodeID reg pm path (already_seen fb)"
  have "try_attempts nodeID rss (map snd (filter fst ?cs)) (map snd (filter (\<lambda>c. \<not> fst c) ?cs)) 0 (Suc maxRetries) = Routed n b"
    using assms unfolding HandleRequest_def getNodesForPath_def all_candidates_def [symmetric] Let_def
    by (simp del: try_attempts.simps split: if_splits)
  from attempts_member [OF this] show ?thesis by (auto split: if_splits)
qed

text \<open>
  C4: The node a request is routed to is always eligible, whatever the random choices: it is not among
  the nodes in \<open>X-Forwarded-By\<close>; the path it is chosen for matches the request; and it is either this
  node, for a path with a healthy local endpoint that is the longest match among the registered
  healthy representatives, or a remote node known to the registry (at its registered address and
  port) with a healthy endpoint for that path, which no matching path of any remote node exceeds in
  length.
\<close>

theorem routed_node_eligible:
  assumes "reg_reachable reg" and "HandleRequest nodeID rss reg pm path forwardedBy = Routed c isPlugin"
  shows "rn_NodeID c \<notin> set (already_seen forwardedBy) \<and> matchNodePath path (rn_NodePath c) \<and>
    (local_target nodeID reg path c \<or> remote_target reg path c)"
proof -
  have "wf_les (table_of reg)" using reg_sys.reach_inv [OF assms(1)] by (simp add: reg_inv_table)
  then show ?thesis
    using routed_candidate [OF assms(2)] local_candidate_target remote_candidate_target
    by (auto simp: all_candidates_def)
qed

lemma remote_only_reachable: "rns_reachable s \<Longrightarrow> reg_reachable (Registry_New\<lparr>reg_remote := s\<rparr>)"
proof (induction rule: reach.induct)
  case (reach_init s)
  then have "Registry_New\<lparr>reg_remote := s\<rparr> = Registry_New" by (simp add: Registry_New_def)
  then show ?case using reg_reachable_New by simp
next
  case (reach_step s t)
  have "reg_step (Registry_New\<lparr>reg_remote := s\<rparr>) (Registry_New\<lparr>reg_remote := s\<rparr>\<lparr>reg_remote := t\<rparr>)"
    by (rule reg_Remote) (simp add: reach_step)
  then show ?case using reg_reachable_step [OF reach_step.IH] by simp
qed

definition sample_cluster :: Registry where
  "sample_cluster = Registry_New\<lparr>reg_remote := sample_remote\<rparr>"

lemma sample_cluster_candidates:
  "all_candidates ''self'' sample_cluster (NewManager 10 0) ''/a'' (already_seen '''') =
     [(False, candidate_node ''n1'' ''10.0.0.1'' 15050 ''/a'' 1 0 10 False)]"
  by (simp add: all_candidates_def sample_cluster_def local_candidates_def best_local_path_def Registry_GetAllLocalEndpoints_def
      Registry_New_def NewLocalRegistry_def NewLocalEndpointStore_def LocalEndpointStore_GetAll_def remote_candidates_def
      remote_best_len_def Registry_GetRemoteNodes_def RemoteNodeStore_List_def sample_remote_def RemoteNodeStore_Upsert_def
      RemoteNodeStore_UpdateState_def NewRemoteNodeStore_def sample_state_def matchNodePath_def HasPrefix_def
      already_seen_def remote_candidate_def Let_def GetRemoteActive_def NewManager_def NewManagerWithQueueCapacity_def)

lemma sample_cluster_route:
  "HandleRequest ''self'' rss sample_cluster (NewManager 10 0) ''/a'' '''' =
     Routed (candidate_node ''n1'' ''10.0.0.1'' 15050 ''/a'' 1 0 10 False) False"
  using sample_cluster_candidates
  by (simp add: HandleRequest_def getNodesForPath_def all_candidates_def selectNodeWithFallback_def
      fallback_candidates_def SelectNode_def Let_def)

theorem routed_node_eligible_witness:
  "remote_target sample_cluster ''/a'' (candidate_node ''n1'' ''10.0.0.1'' 15050 ''/a'' 1 0 10 False)"
proof -
  have "reg_reachable sample_cluster"
    unfolding sample_cluster_def by (rule remote_only_reachable [OF sample_remote_reachable])
  from routed_node_eligible [OF this sample_cluster_route] show ?thesis by (auto simp: local_target_def)
qed

lemma filter_split_Nil: "filter P xs = [] \<and> filter (\<lambda>x. \<not> P x) xs = [] \<longleftrightarrow> xs = []"
  by (auto simp: filter_empty_conv)

lemma fallback_selects:
  assumes "rand_ok rs" and "\<forall>n \<in> set ps \<union> set qs. sane_node n" and "\<not> (ps = [] \<and> qs = [])"
  shows "\<exists>n. selectNodeWithFallback nodeID rs ps qs attempt = Inr (n, ps \<noteq> [])"
proof -
  let ?cs = "fallback_candidates nodeID ps qs attempt"
  have "?cs \<noteq> []" using assms(3) by (simp add: fallback_candidates_empty)
  moreover have "\<forall>n \<in> set ?cs. sane_node n"
    using assms(2) fallback_candidates_subset [of nodeID ps qs attempt] by (auto split: if_splits)
  ultimately obtain i where "SelectNode rs ?cs = Inr (Some (?cs ! i))"
    using SelectNode_total [OF assms(1)] by blast
  then show ?thesis using assms(3) by (auto simp: selectNodeWithFallback_def Let_def)
qed

text \<open>
  C14: \<open>HandleRequest\<close> answers 404 exactly when there is no candidate. Otherwise, when the counters of
  the candidates are sane, the first attempt succeeds: the request goes to one of the candidates, to
  a plugin if there is any, and neither the retries nor the 503 answer are ever reached.
\<close>

theorem route_request_total:
  assumes "\<And>a. rand_ok (rss a)"
    and "\<forall>(b, c) \<in> set (all_candidates nodeID reg pm path (already_seen forwardedBy)). sane_node c"
  shows "case HandleRequest nodeID rss reg pm path forwardedBy of
      EndpointNotFound \<Rightarrow> all_candidates nodeID reg pm path (already_seen forwardedBy) = []
    | NoHealthyNode \<Rightarrow> False
    | RoutePanic p \<Rightarrow> False
    | Routed c isPlugin \<Rightarrow>
        (isPlugin, c) \<in> set (all_candidates nodeID reg pm path (already_seen forwardedBy)) \<and>
        (isPlugin \<longleftrightarrow> (\<exists>c'. (True, c') \<in> set (all_candidates nodeID reg pm path (already_seen forwardedBy))))"
proof -
  let ?cs = "all_candidates nodeID reg pm path (already_seen forwardedBy)"
  let ?ps = "map snd (filter fst ?cs)" and ?qs = "map snd (filter (\<lambda>c. \<not> fst c) ?cs)"
  have route: "HandleRequest nodeID rss reg pm path forwardedBy =
      (if ?cs = [] then EndpointNotFound else try_attempts nodeID rss ?ps ?qs 0 (Suc maxRetries))"
    unfolding HandleRequest_def getNodesForPath_def all_candidates_def [symmetric] Let_def
    using filter_split_Nil [of fst ?cs] by (simp del: try_attempts.simps)
  show ?thesis
  proof (cases "?cs = []")
    case False
    then have "\<not> (?ps = [] \<and> ?qs = [])" using filter_split_Nil [of fst ?cs] by simp
    moreover have "\<forall>n \<in> set ?ps \<union> set ?qs. sane_node n" using assms(2) by fastforce
    ultimately obtain n where n: "selectNodeWithFallback nodeID (rss 0) ?ps ?qs 0 = Inr (n, ?ps \<noteq> [])"
      using fallback_selects [OF assms(1)] by blast
    then have "HandleRequest nodeID rss reg pm path forwardedBy = Routed n (?ps \<noteq> [])" using route False by simp
    moreover have "?ps \<noteq> [] \<longleftrightarrow> (\<exists>c'. (True, c') \<in> set ?cs)" by (force simp: filter_empty_conv)
    ultimately show ?thesis using routed_candidate by simp
  qed (simp add: route)
qed

theorem route_request_total_witness:
  "HandleRequest ''self'' (\<lambda>_. sample_rand) sample_cluster (NewManager 10 0) ''/a'' '''' \<noteq> NoHealthyNode \<and>
   all_candidates ''self'' sample_cluster (NewManager 10 0) ''/a'' (already_seen '''') \<noteq> []"
proof -
  have "\<forall>(b, c) \<in> set (all_candidates ''self'' sample_cluster (NewManager 10 0) ''/a'' (already_seen '''')). sane_node c"
    by (simp add: sample_cluster_candidates sane_node_def sane_state_def)
  from route_request_total [of "\<lambda>_. sample_rand", OF rand_ok_sample this] show ?thesis
    by (auto simp: sample_cluster_candidates split: RouteOutcome.splits)
qed

end
