(* ===== verification/Forwarder.thy ===== *)
theory Forwarder
  imports Router
begin

text \<open>
  \<open>internal/business/forwarder/forwarder.go\<close>: serving a request from a local pool and forwarding it to
  another node, and the dispatch of \<open>internal/business/server.go\<close>. The effect of the HTTP client is a
  \<open>BackendResult\<close>, the effect of a pool on a request is a \<open>ServeResult\<close> with the writer it leaves.
  Logging and Prometheus metrics are left out.
\<close>

section \<open>Choosing a pool\<close>

definition pool_load :: "RequestPool \<Rightarrow> rat" where
  "pool_load p =
     (let m = RequestPool_GetMetrics p;
          maxConcur = (of_int (sint (pmt_MaxConcurrent m)) :: rat);
          maxConcur = (if maxConcur \<le> 0 then 1 else maxConcur)
      in fl (of_int (sint (pmt_Active m + pmt_QueueLen m)) / maxConcur))"

definition pool_weight :: "RequestPool \<Rightarrow> i32" where
  "pool_weight p =
     (let w = pmt_MaxConcurrent (RequestPool_GetMetrics p) in if sint w \<le> 0 then 1 else w)"

definition pool_pick :: "Rand \<Rightarrow> i32 list \<Rightarrow> Panic + nat" where
  "pool_pick rs weights =
     (let total = foldl (+) 0 weights
      in if sint total \<le> 0 then Inl IntnPanic
         else Inr (weighted_scan (word_of_int (r_Int31n rs (sint total))) weights 0 (length weights)))"

definition lightest_pools :: "RequestPool list \<Rightarrow> RequestPool list" where
  "lightest_pools pools =
     (let bestLoad = foldl (\<lambda>best p. if pool_load p < best then pool_load p else best) (pool_load (hd pools)) (tl pools)
      in filter (\<lambda>p. pool_load p \<le> fl (bestLoad + fl (1 / 1000))) pools)"

definition selectPoolByLoad :: "Rand \<Rightarrow> PoolManager \<Rightarrow> string \<Rightarrow> RequestPool option \<Rightarrow> Panic + RequestPool option" where
  "selectPoolByLoad rs pm nodePath defaultPool =
     (let pools = GetPoolsByPath pm nodePath
      in if length pools = 0 then Inr defaultPool
         else if length pools = 1 then Inr (Some (pools ! 0))
         else let candidates = lightest_pools pools; weights = map pool_weight candidates
              in if length candidates = 1 then Inr (Some (candidates ! 0))
                 else case pool_pick rs weights of
                        Inl p \<Rightarrow> Inl p
                      | Inr i \<Rightarrow> if i < length candidates then Inr (Some (candidates ! i)) else Inl IndexPanic)"

section \<open>Local requests\<close>

datatype ServeResult = Served | QueueFull | ContextCanceled | ContextDeadline

datatype ForwardError = ErrBackendFailed | ErrForwardFailed

text \<open>
  A local request: the error returned, the status counted in the metrics, and the writer.
  \<open>ServeWithHeaders\<close> never writes to the header map it is given, so \<open>responseHeaders\<close> is empty when
  it returns.
\<close>

definition response_headers_after :: "ServeResult \<Rightarrow> Header" where
  "response_headers_after res = []"

definition plugin_redirect :: "LocalEndpoint \<Rightarrow> ServeResult \<Rightarrow> string" where
  "plugin_redirect ep res = (if ep_Plugin ep then header_get (response_headers_after res) ''X-Target-Node'' else '''')"

definition status_label :: "ServeResult \<Rightarrow> string" where
  "status_label res =
     (if res = ContextCanceled then ''499'' else if res = ContextDeadline then ''504'' else ''200'')"

definition HandleLocalRequestWithError ::
    "(RequestPool \<Rightarrow> ResponseWriter \<Rightarrow> ServeResult \<times> ResponseWriter) \<Rightarrow> PoolManager \<Rightarrow> LocalEndpoint \<Rightarrow> ResponseWriter \<Rightarrow>
     (ForwardError option \<times> string option) \<times> ResponseWriter" where
  "HandleLocalRequestWithError serve pm ep w =
     (case GetPool pm (ep_NodePath ep) (ep_EpID ep) of
        None \<Rightarrow> ((Some ErrBackendFailed, None), http_error ''Service Unavailable - Pool not configured'' 503 w)
      | Some p \<Rightarrow>
          let (res, w) = serve p w
          in if res = QueueFull then ((Some ErrBackendFailed, None), w)
             else ((None, Some (status_label res)), w))"

definition HandleLocalRequestByPath ::
    "Rand \<Rightarrow> (RequestPool \<Rightarrow> ResponseWriter \<Rightarrow> ServeResult \<times> ResponseWriter) \<Rightarrow> Registry \<Rightarrow> PoolManager \<Rightarrow> string \<Rightarrow>
     ResponseWriter \<Rightarrow> Panic + (ForwardError option \<times> string option) \<times> ResponseWriter" where
  "HandleLocalRequestByPath rs serve reg pm nodePath w =
     (case selectPoolByLoad rs pm nodePath None of
        Inl p \<Rightarrow> Inl p
      | Inr None \<Rightarrow> Inr ((None, None), http_error ''Service Unavailable'' 503 w)
      | Inr (Some p) \<Rightarrow>
          (case Registry_GetEndpointByEpID reg nodePath (rp_serviceID p) of
             None \<Rightarrow> Inr ((None, None), http_error ''Service Unavailable'' 503 w)
           | Some ep \<Rightarrow> Inr (HandleLocalRequestWithError serve pm ep w)))"

section \<open>Forwarded requests\<close>

record HttpRequest =
  hr_path :: string
  hr_rawQuery :: string
  hr_header :: Header

record ForwardedRequest =
  fr_url :: string
  fr_header :: Header

definition forward_path :: "RemoteNode \<Rightarrow> string \<Rightarrow> string" where
  "forward_path node path =
     (if rn_ServicePath node \<noteq> '''' then
        if HasSuffix (rn_NodePath node) ''/'' then TrimPrefix path (rn_NodePath node)
        else let t = TrimPrefix path (rn_NodePath node) in if t = '''' then ''/'' else t
      else path)"

definition forward_url :: "RemoteNode \<Rightarrow> string \<Rightarrow> string \<Rightarrow> string" where
  "forward_url node path rawQuery =
     ''http://'' @ rn_Address node @ '':'' @ Itoa (rn_ServicePort node) @ rn_ServicePath node @ forward_path node path @
     (if rawQuery \<noteq> '''' then ''?'' @ rawQuery else '''')"

definition safeHeaders :: "string list" where
  "safeHeaders = [''Content-Type'', ''Content-Length'', ''Accept'', ''Accept-Encoding'', ''Accept-Language'',
     ''User-Agent'', ''X-Requested-With'', ''Referer'', ''Authorization'']"

definition passes_header :: "string \<Rightarrow> bool" where
  "passes_header key \<longleftrightarrow> (key \<in> set safeHeaders \<or> HasPrefix key ''X-'') \<and> key \<noteq> ''X-Forwarded-By''"

definition forwarded_by :: "string \<Rightarrow> string \<Rightarrow> string" where
  "forwarded_by forwardedBy nodeID = (if forwardedBy \<noteq> '''' then forwardedBy @ '','' @ nodeID else nodeID)"

definition forward_header :: "string \<Rightarrow> Header \<Rightarrow> Header" where
  "forward_header nodeID h =
     header_set ''X-Forwarded-By'' (forwarded_by (header_get h ''X-Forwarded-By'') nodeID)
       (fold (\<lambda>(key, values) acc. if passes_header key then add_values key values acc else acc) h [])"

text \<open>The body copied until a write to the client fails: \<open>writeFails i\<close> is the outcome of the \<open>i\<close>-th write.\<close>

fun copy_body :: "(nat \<Rightarrow> bool) \<Rightarrow> nat \<Rightarrow> string list \<Rightarrow> string" where
  "copy_body writeFails i [] = []"
| "copy_body writeFails i (c # cs) =
     (if c \<noteq> [] \<and> writeFails i then [] else c @ copy_body writeFails (Suc i) cs)"

record ForwardResult =
  fw_error :: "ForwardError option"
  fw_request :: "ForwardedRequest option"
  fw_writer :: ResponseWriter
  fw_pools :: PoolManager

definition HandleForwardedRequestWithError ::
    "string \<Rightarrow> (nat \<Rightarrow> bool) \<Rightarrow> BackendResult \<Rightarrow> PoolManager \<Rightarrow> HttpRequest \<Rightarrow> string \<Rightarrow> RemoteNode \<Rightarrow> ResponseWriter \<Rightarrow>
     ForwardResult" where
  "HandleForwardedRequestWithError nodeID writeFails result pm r path node w =
     (if Contains (header_get (hr_header r) ''X-Forwarded-By'') nodeID then
        \<lparr>fw_error = Some ErrForwardFailed, fw_request = None, fw_writer = http_error ''Loop detected'' 502 w, fw_pools = pm\<rparr>
      else
        let pm = IncRemoteActive (rn_NodeID node) (rn_NodePath node) pm;
            req = \<lparr>fr_url = forward_url node path (hr_rawQuery r), fr_header = forward_header nodeID (hr_header r)\<rparr>;
            finished = DecRemoteActive (rn_NodeID node) (rn_NodePath node) pm
        in case result of
             RequestError \<Rightarrow>
               \<lparr>fw_error = Some ErrForwardFailed, fw_request = None, fw_writer = w, fw_pools = finished\<rparr>
           | TransportError \<Rightarrow>
               \<lparr>fw_error = Some ErrForwardFailed, fw_request = Some req, fw_writer = w, fw_pools = finished\<rparr>
           | Responded resp \<Rightarrow>
               let w = w\<lparr>w_header := fold (\<lambda>(key, values). add_values key values) (br_header resp) (w_header w)\<rparr>;
                   w = write_header (br_status resp) w;
                   w = w\<lparr>w_body := w_body w @ copy_body writeFails 0 (br_chunks resp)\<rparr>
               in \<lparr>fw_error = (if br_status resp \<ge> 500 then Some ErrForwardFailed else None),
                   fw_request = Some req, fw_writer = w, fw_pools = finished\<rparr>)"

section \<open>Dispatch\<close>

text \<open>\<open>handleRequest\<close> of the business server: what is done with the router's answer.\<close>

datatype Dispatch = AnsweredByRouter | ServeLocally string | ForwardTo RemoteNode

definition business_dispatch :: "string \<Rightarrow> RouteOutcome \<Rightarrow> Dispatch" where
  "business_dispatch nodeID outcome =
     (case outcome of
        Routed v isPlugin \<Rightarrow>
          if rn_NodeID v = nodeID \<and> rn_Address v = ''127.0.0.1'' then ServeLocally (rn_NodePath v) else ForwardTo v
      | _ \<Rightarrow> AnsweredByRouter)"

section \<open>The pool choice\<close>

interpretation pp: weighted_picker pool_pick
proof
  fix rs and ws :: "i32 list"
  assume a: "rand_ok rs" "\<And>w. w \<in> set ws \<Longrightarrow> 0 \<le> sint w" "0 < sum_list (map sint ws)" "sum_list (map sint ws) < 2 ^ 31"
  show "\<exists>j < length ws. pool_pick rs ws = Inr j \<and>
      sum_list (map sint (take j ws)) \<le> r_Int31n rs (sum_list (map sint ws)) \<and>
      r_Int31n rs (sum_list (map sint ws)) < sum_list (map sint (take (Suc j) ws))"
    using scan_drawn [OF a] sint_total [OF a(2,4)] a(3) by (auto simp: pool_pick_def)
qed

lemma pool_load_fl: "fl (pool_load p) = pool_load p"
  by (simp add: pool_load_def Let_def)

lemma lightest_not_empty: "pools \<noteq> [] \<Longrightarrow> lightest_pools pools \<noteq> []"
proof -
  assume "pools \<noteq> []"
  let ?best = "foldl (\<lambda>best p. if pool_load p < best then pool_load p else best) (pool_load (hd pools)) (tl pools)"
  have "?best \<in> pool_load ` set pools"
    using foldl_min_in [of pool_load "pool_load (hd pools)" "tl pools"] \<open>pools \<noteq> []\<close> by (cases pools) auto
  then obtain p where p: "p \<in> set pools" "pool_load p = ?best" by force
  have "fl (pool_load p) \<le> fl (pool_load p + fl (1 / 1000))" by (rule fl_mono) (simp add: fl_nonneg)
  then have "pool_load p \<le> fl (?best + fl (1 / 1000))" unfolding pool_load_fl p(2) [symmetric] .
  then show ?thesis using p(1) unfolding lightest_pools_def Let_def filter_empty_conv by blast
qed

lemma pool_weight_pos: "0 < sint (pool_weight p)"
  by (simp add: pool_weight_def Let_def)

text \<open>
  The choice of a local pool by load never panics while the capacities of the path's pools add up to
  less than 2^31: it returns the default exactly when the path has no pool, and otherwise one of the
  path's pools whose load is within 0.001 (in float64 arithmetic) of the lowest.
\<close>

theorem select_pool_near_lightest:
  assumes "rand_ok rs" and "(\<Sum>p \<leftarrow> GetPoolsByPath pm nodePath. sint (pool_weight p)) < 2 ^ 31"
  shows "if GetPoolsByPath pm nodePath = [] then selectPoolByLoad rs pm nodePath defaultPool = Inr defaultPool
    else \<exists>p. selectPoolByLoad rs pm nodePath defaultPool = Inr (Some p) \<and> p \<in> set (GetPoolsByPath pm nodePath) \<and>
      (length (GetPoolsByPath pm nodePath) > 1 \<longrightarrow> p \<in> set (lightest_pools (GetPoolsByPath pm nodePath)))"
proof (cases "length (GetPoolsByPath pm nodePath) \<le> 1")
  case True
  then show ?thesis by (cases "GetPoolsByPath pm nodePath") (auto simp: selectPoolByLoad_def)
next
  case False
  let ?pools = "GetPoolsByPath pm nodePath"
  let ?cs = "lightest_pools ?pools" and ?ws = "map pool_weight (lightest_pools ?pools)"
  have pools: "?pools \<noteq> []" using False by auto
  have ne: "?cs \<noteq> []" using False by (intro lightest_not_empty) auto
  have sub: "set ?cs \<subseteq> set ?pools" by (auto simp: lightest_pools_def Let_def)
  have sel: "selectPoolByLoad rs pm nodePath defaultPool =
      (if length ?cs = 1 then Inr (Some (?cs ! 0))
       else case pool_pick rs ?ws of Inl p \<Rightarrow> Inl p
            | Inr i \<Rightarrow> if i < length ?cs then Inr (Some (?cs ! i)) else Inl IndexPanic)"
    using False pools unfolding selectPoolByLoad_def Let_def by simp
  have "sum_list (map sint ?ws) \<le> (\<Sum>p \<leftarrow> ?pools. sint (pool_weight p))"
    unfolding lightest_pools_def Let_def map_map comp_def
    by (rule sum_filter_le) (simp add: pool_weight_pos less_imp_le)
  then have small: "sum_list (map sint ?ws) < 2 ^ 31" using assms(2) by linarith
  have nonneg: "\<And>w. w \<in> set ?ws \<Longrightarrow> 0 \<le> sint w" using pool_weight_pos by (auto intro: less_imp_le)
  have pos: "0 < sum_list (map sint ?ws)"
  proof -
    obtain p ps where ps: "?cs = p # ps" using ne by (cases ?cs) auto
    have "0 \<le> sum_list (map (sint \<circ> pool_weight) ps)"
      by (rule sum_list_nonneg) (auto simp: pool_weight_pos less_imp_le)
    then show ?thesis using pool_weight_pos [of p] by (simp add: ps)
  qed
  obtain j where "j < length ?ws" and j: "pool_pick rs ?ws = Inr j"
    using pp.pick_positive [OF assms(1) nonneg pos small] by blast
  then have "j < length ?cs" by simp
  with j obtain p where "selectPoolByLoad rs pm nodePath defaultPool = Inr (Some p)" "p \<in> set ?cs"
    using sel ne nth_mem [of 0 ?cs] nth_mem [of j ?cs] by (cases "length ?cs = 1") auto
  then show ?thesis using sub False by auto
qed

theorem select_pool_near_lightest_witness:
  "\<exists>p. selectPoolByLoad sample_rand (CreatePool ''/a'' ''e1'' ''http://b'' 4 (NewManager 10 0)) ''/a'' None = Inr (Some p) \<and>
     rp_serviceID p = ''e1''"
proof -
  let ?pm = "CreatePool ''/a'' ''e1'' ''http://b'' 4 (NewManager 10 0)"
  have pools: "GetPoolsByPath ?pm ''/a'' = [NewRequestPool ''/a'' ''e1'' ''http://b'' 4 1000 0]"
    by (simp add: GetPoolsByPath_def CreatePool_def store_pool_def nested_put_def NewManager_def
        NewManagerWithQueueCapacity_def GetPool_def)
  then show ?thesis
    using select_pool_near_lightest [OF rand_ok_sample, of ?pm "''/a''" None]
    by (auto simp: pool_weight_def RequestPool_GetMetrics_def NewRequestPool_def Let_def)
qed

section \<open>Forwarding\<close>

text \<open>A node identifier that survives the round trip through the header.\<close>

definition valid_node_id :: "string \<Rightarrow> bool" where
  "valid_node_id n \<longleftrightarrow> n \<noteq> '''' \<and> CHR '','' \<notin> set n \<and> TrimSpace n = n"

lemma already_seen_forwarded_by:
  "valid_node_id n \<Longrightarrow> already_seen (forwarded_by fb n) = already_seen fb @ [n]"
  by (auto simp: already_seen_def forwarded_by_def valid_node_id_def Split_append Split_no_sep)

lemma seen_contained:
  assumes "n \<in> set (already_seen fb)"
  shows "Contains fb n"
proof -
  obtain x where "x \<in> set (Split CHR '','' fb)" "n = TrimSpace x"
    using assms by (auto simp: already_seen_def split: if_splits)
  then show ?thesis
    using Split_sublist [of x "CHR '',''" fb] TrimSpace_sublist [of x] sublist_order.order.trans
    by (auto simp: Contains_iff)
qed

lemma forwarded_iff:
  "fw_request (HandleForwardedRequestWithError nodeID wfail res pm r path node w) \<noteq> None \<longleftrightarrow>
   \<not> Contains (header_get (hr_header r) ''X-Forwarded-By'') nodeID \<and> res \<noteq> RequestError"
  by (simp add: HandleForwardedRequestWithError_def Let_def split: BackendResult.split)

lemma forwarded_header_get:
  "header_get (forward_header nodeID h) ''X-Forwarded-By'' = forwarded_by (header_get h ''X-Forwarded-By'') nodeID"
  by (simp add: forward_header_def header_get_def header_set_def map_of_update)

lemma Inc_Dec_counters:
  "GetRemoteActive (DecRemoteActive n p (IncRemoteActive n p m)) n' p' = GetRemoteActive m n' p'"
  by (simp add: GetRemoteActive_Dec known_remote_Inc GetRemoteActive_Inc)

text \<open>
  Forwarding a request keeps the books on every path, with or without an error. The counters of
  requests in flight are as before once the call has returned, whatever the transport does, and while
  the call waits for the other node the counter of that node and path is one higher. A request whose
  \<open>X-Forwarded-By\<close> mentions this node is answered with 502 and not sent on.
\<close>

theorem forwarding_balanced:
  "GetRemoteActive (fw_pools (HandleForwardedRequestWithError nodeID wfail res pm r path node w)) n p = GetRemoteActive pm n p \<and>
   GetRemoteActive (IncRemoteActive (rn_NodeID node) (rn_NodePath node) pm) (rn_NodeID node) (rn_NodePath node) =
     GetRemoteActive pm (rn_NodeID node) (rn_NodePath node) + 1 \<and>
   (nodeID \<in> set (already_seen (header_get (hr_header r) ''X-Forwarded-By'')) \<longrightarrow>
     fw_request (HandleForwardedRequestWithError nodeID wfail res pm r path node w) = None \<and>
     fw_error (HandleForwardedRequestWithError nodeID wfail res pm r path node w) = Some ErrForwardFailed \<and>
     (w_sent w = None \<longrightarrow>
       map_option fst (w_sent (fw_writer (HandleForwardedRequestWithError nodeID wfail res pm r path node w))) = Some 502))"
  using seen_contained
  by (auto simp: HandleForwardedRequestWithError_def Let_def Inc_Dec_counters GetRemoteActive_Inc http_error_def
      write_header_def split: BackendResult.split)

theorem forwarding_balanced_witness:
  "fw_request (HandleForwardedRequestWithError ''n1'' (\<lambda>_. False) TransportError (NewManager 10 0)
     \<lparr>hr_path = ''/a'', hr_rawQuery = '''', hr_header = [(''X-Forwarded-By'', [''n0, n1''])]\<rparr> ''/a''
     (sample_candidate ''n2'' 0 1) \<lparr>w_header = [], w_sent = None, w_body = ''''\<rparr>) = None"
proof -
  have "''n1'' \<in> set (already_seen ''n0, n1'')"
    by (simp add: already_seen_def TrimSpace_def is_space_def)
  then show ?thesis
    using forwarding_balanced [of "''n1''" "\<lambda>_. False" TransportError "NewManager 10 0"
        "\<lparr>hr_path = ''/a'', hr_rawQuery = '''', hr_header = [(''X-Forwarded-By'', [''n0, n1''])]\<rparr>" "''/a''"
        "sample_candidate ''n2'' 0 1" "\<lparr>w_header = [], w_sent = None, w_body = ''''\<rparr>"]
    by (simp add: header_get_def)
qed

text \<open>
  The life of one request across nodes: each node in turn receives it with the \<open>X-Forwarded-By\<close> header
  the previous one sent, and forwards it.
\<close>

inductive forward_chain :: "string \<Rightarrow> string list \<Rightarrow> bool" where
  chain_client: "forward_chain '''' []"
| chain_hop: "forward_chain fb ns \<Longrightarrow> valid_node_id n \<Longrightarrow> header_get (hr_header r) ''X-Forwarded-By'' = fb \<Longrightarrow>
    fw_request (HandleForwardedRequestWithError n wfail res pm r path node w) = Some req \<Longrightarrow>
    forward_chain (header_get (fr_header req) ''X-Forwarded-By'') (ns @ [n])"

lemma chain_invariant: "forward_chain fb ns \<Longrightarrow> distinct ns \<and> already_seen fb = ns"
proof (induction rule: forward_chain.induct)
  case (chain_hop fb ns n r wfail res pm path node w req)
  have "\<not> Contains fb n"
    using forwarded_iff [of n wfail res pm r path node w] chain_hop.hyps by simp
  then have "n \<notin> set ns" using seen_contained chain_hop.IH by blast
  moreover have "fr_header req = forward_header n (hr_header r)"
    using chain_hop.hyps(4)
    by (auto simp: HandleForwardedRequestWithError_def Let_def split: if_splits BackendResult.splits)
  ultimately show ?case
    using chain_hop.IH chain_hop.hyps by (simp add: forwarded_header_get already_seen_forwarded_by)
qed (simp add: already_seen_def)

text \<open>
  C5: A request cannot circulate. Along any chain of forwards from a client, in which node identifiers
  are non-empty, without commas and without surrounding blanks, no node forwards the request twice
  and the header lists exactly the nodes that did; so in a cluster with \<open>k\<close> node identifiers a request
  is forwarded at most \<open>k\<close> times.
\<close>

theorem forwarding_loop_free:
  assumes "forward_chain fb ns" and "finite cluster" and "set ns \<subseteq> cluster"
  shows "distinct ns \<and> already_seen fb = ns \<and> length ns \<le> card cluster"
  using chain_invariant [OF assms(1)] card_mono [OF assms(2,3)] distinct_card [of ns] by auto

theorem forwarding_loop_free_witness:
  "\<exists>fb. forward_chain fb [''n0''] \<and> already_seen fb = [''n0'']"
proof -
  let ?r = "\<lparr>hr_path = ''/a'', hr_rawQuery = '''', hr_header = []\<rparr>"
  let ?f = "HandleForwardedRequestWithError ''n0'' (\<lambda>_. False) TransportError (NewManager 10 0) ?r ''/a''
      (sample_candidate ''n1'' 0 1) \<lparr>w_header = [], w_sent = None, w_body = ''''\<rparr>"
  obtain req where "fw_request ?f = Some req"
    by (simp add: HandleForwardedRequestWithError_def header_get_def Let_def)
  moreover have "valid_node_id ''n0''" by (simp add: valid_node_id_def TrimSpace_def is_space_def)
  ultimately have c: "forward_chain (header_get (fr_header req) ''X-Forwarded-By'') ([] @ [''n0''])"
    using chain_hop [OF chain_client, of "''n0''" ?r] by (simp add: header_get_def)
  then show ?thesis using forwarding_loop_free [of _ "[''n0'']" "{''n0''}"] by auto
qed

section \<open>Observations\<close>

text \<open>When the other node cannot be reached nothing is written: the client sees an empty 200 answer.\<close>

lemma transport_failure_unanswered:
  "\<not> Contains (header_get (hr_header r) ''X-Forwarded-By'') nodeID \<Longrightarrow>
   fw_error (HandleForwardedRequestWithError nodeID wfail TransportError pm r path node w) = Some ErrForwardFailed \<and>
   fw_writer (HandleForwardedRequestWithError nodeID wfail TransportError pm r path node w) = w"
  by (simp add: HandleForwardedRequestWithError_def Let_def)

text \<open>The loop check is by substring: \<open>node-1\<close> refuses a request that only \<open>node-10\<close> has forwarded.\<close>

lemma loop_check_substring:
  "fw_request (HandleForwardedRequestWithError ''node-1'' wfail res pm
     \<lparr>hr_path = ''/a'', hr_rawQuery = '''', hr_header = [(''X-Forwarded-By'', [''node-10''])]\<rparr> ''/a'' node w) = None \<and>
   ''node-1'' \<notin> set (already_seen ''node-10'')"
  by (simp add: HandleForwardedRequestWithError_def header_get_def already_seen_def TrimSpace_def is_space_def)

text \<open>A plugin's \<open>X-Target-Node\<close> answer never reaches the forwarder.\<close>

lemma plugin_redirect_dead: "plugin_redirect ep res = ''''"
  by (simp add: plugin_redirect_def response_headers_after_def header_get_def)

end
