(* ===== verification/Metrics.thy ===== *)
theory Metrics
  imports Complex_Main
begin

text \<open>
  \<open>internal/metrics/metrics.go\<close>: which metric families the gateway registers and which calls of the Prometheus client each
  method makes. The client is outside the model: a method is the call it makes, with the name of the family, the label
  values and the number, and the client's documented rule, that a family is registered once under its name and is
  called with one value for each of its labels, is what the lemmas below establish.
\<close>

datatype MetricKind = CounterVec | HistogramVec | GaugeVec

record MetricFamily =
  mf_Name :: string
  mf_kind :: MetricKind
  mf_labels :: "string list"

datatype PromCall = Inc string "string list" | Observe string "string list" rat | SetGauge string "string list" rat

definition metric_families :: "MetricFamily list" where
  "metric_families =
    [\<lparr>mf_Name = ''gateway_requests_total'', mf_kind = CounterVec, mf_labels = [''path'', ''node'', ''status'']\<rparr>,
     \<lparr>mf_Name = ''gateway_request_duration_seconds'', mf_kind = HistogramVec, mf_labels = [''path'', ''node'']\<rparr>,
     \<lparr>mf_Name = ''gateway_active_requests'', mf_kind = GaugeVec, mf_labels = [''path'', ''node'']\<rparr>,
     \<lparr>mf_Name = ''gateway_queue_length'', mf_kind = GaugeVec, mf_labels = [''path'', ''node'']\<rparr>,
     \<lparr>mf_Name = ''gateway_endpoint_healthy'', mf_kind = GaugeVec, mf_labels = [''path'', ''node'']\<rparr>,
     \<lparr>mf_Name = ''gateway_proxy_errors_total'', mf_kind = CounterVec, mf_labels = [''type'', ''node'']\<rparr>,
     \<lparr>mf_Name = ''gateway_cluster_nodes'', mf_kind = GaugeVec, mf_labels = []\<rparr>,
     \<lparr>mf_Name = ''gateway_cluster_endpoints'', mf_kind = GaugeVec, mf_labels = []\<rparr>,
     \<lparr>mf_Name = ''gateway_circuit_breaker_state'', mf_kind = GaugeVec, mf_labels = [''path'', ''node'']\<rparr>,
     \<lparr>mf_Name = ''gateway_circuit_breaker_trips_total'', mf_kind = CounterVec, mf_labels = [''path'', ''node'']\<rparr>]"

text \<open>\<open>New\<close> registers the families in its first call only; the state is whether that has happened.\<close>

definition Metrics_New :: "bool \<Rightarrow> MetricFamily list \<times> bool" where
  "Metrics_New once = (if once then ([], True) else (metric_families, True))"

definition IncRequestTotal :: "string \<Rightarrow> string \<Rightarrow> string \<Rightarrow> PromCall" where
  "IncRequestTotal path node status = Inc ''gateway_requests_total'' [path, node, status]"

definition ObserveRequestDuration :: "string \<Rightarrow> string \<Rightarrow> rat \<Rightarrow> PromCall" where
  "ObserveRequestDuration path node duration = Observe ''gateway_request_duration_seconds'' [path, node] duration"

definition SetActiveRequests :: "string \<Rightarrow> string \<Rightarrow> rat \<Rightarrow> PromCall" where
  "SetActiveRequests path node value = SetGauge ''gateway_active_requests'' [path, node] value"

definition SetQueueLength :: "string \<Rightarrow> string \<Rightarrow> rat \<Rightarrow> PromCall" where
  "SetQueueLength path node value = SetGauge ''gateway_queue_length'' [path, node] value"

definition SetEndpointHealthy :: "string \<Rightarrow> string \<Rightarrow> rat \<Rightarrow> PromCall" where
  "SetEndpointHealthy path node value = SetGauge ''gateway_endpoint_healthy'' [path, node] value"

definition IncProxyErrors :: "string \<Rightarrow> string \<Rightarrow> PromCall" where
  "IncProxyErrors errorType node = Inc ''gateway_proxy_errors_total'' [errorType, node]"

definition SetClusterNodes :: "rat \<Rightarrow> PromCall" where
  "SetClusterNodes count = SetGauge ''gateway_cluster_nodes'' [] count"

definition SetClusterEndpoints :: "rat \<Rightarrow> PromCall" where
  "SetClusterEndpoints count = SetGauge ''gateway_cluster_endpoints'' [] count"

definition SetCircuitBreakerState :: "string \<Rightarrow> string \<Rightarrow> rat \<Rightarrow> PromCall" where
  "SetCircuitBreakerState path node state = SetGauge ''gateway_circuit_breaker_state'' [path, node] state"

definition IncCircuitBreakerTrips :: "string \<Rightarrow> string \<Rightarrow> PromCall" where
  "IncCircuitBreakerTrips path node = Inc ''gateway_circuit_breaker_trips_total'' [path, node]"

section \<open>Calls fit the registered families\<close>

definition call_fits :: "PromCall \<Rightarrow> bool" where
  "call_fits call =
     list_ex (\<lambda>f. case call of
         Inc name labels \<Rightarrow> mf_Name f = name \<and> mf_kind f = CounterVec \<and> length labels = length (mf_labels f)
       | Observe name labels _ \<Rightarrow> mf_Name f = name \<and> mf_kind f = HistogramVec \<and> length labels = length (mf_labels f)
       | SetGauge name labels _ \<Rightarrow> mf_Name f = name \<and> mf_kind f = GaugeVec \<and> length labels = length (mf_labels f)) metric_families"

lemma families_distinct: "distinct (map mf_Name metric_families)"
  by (simp add: metric_families_def)

lemma methods_fit [simp]:
  "call_fits (IncRequestTotal path node status)" "call_fits (ObserveRequestDuration path node d)"
  "call_fits (SetActiveRequests path node v)" "call_fits (SetQueueLength path node v)" "call_fits (SetEndpointHealthy path node v)"
  "call_fits (IncProxyErrors t node)" "call_fits (SetClusterNodes v)" "call_fits (SetClusterEndpoints v)"
  "call_fits (SetCircuitBreakerState path node v)" "call_fits (IncCircuitBreakerTrips path node)"
  by (simp_all add: call_fits_def metric_families_def IncRequestTotal_def ObserveRequestDuration_def SetActiveRequests_def
      SetQueueLength_def SetEndpointHealthy_def IncProxyErrors_def SetClusterNodes_def SetClusterEndpoints_def
      SetCircuitBreakerState_def IncCircuitBreakerTrips_def)

text \<open>However often \<open>New\<close> is called, no name is registered twice.\<close>

fun registrations :: "nat \<Rightarrow> bool \<Rightarrow> MetricFamily list" where
  "registrations 0 once = []"
| "registrations (Suc n) once = (let (fs, once) = Metrics_New once in fs @ registrations n once)"

lemma registrations_distinct: "distinct (map mf_Name (registrations n False))"
proof -
  have "registrations n True = []" for n by (induction n) (simp_all add: Metrics_New_def)
  then show ?thesis using families_distinct by (cases n) (simp_all add: Metrics_New_def)
qed

end
