(* ===== verification/Business.thy ===== *)
theory Business
  imports Forwarder Admin Metrics
begin

text \<open>
  A whole request at the business server (\<open>internal/business/server.go\<close>: \<open>handleRequest\<close>): the router's choice, then the local
  pool or the other node, with the answer the client sees, the request that goes out, the counters of requests
  in flight and the calls of the metrics. The theorems join the router, the forwarder, the pools and
  the admin server that keeps registry and pools in step.
\<close>

declare map_of_eq_Some_iff [simp del] Some_eq_map_of_iff [simp del]

section \<open>Definitions\<close>

text \<open>
  What happens around a request: the random numbers of the router and of the pool choice, how a pool serves it, the writes to
  the client that fail, what the other node answers, the time it took, and the figures of the pool afterwards.
\<close>

record RequestEnv =
  be_route :: "nat \<Rightarrow> Rand"
  be_pick :: Rand
  be_serve :: "RequestPool \<Rightarrow> ResponseWriter \<Rightarrow> ServeResult \<times> ResponseWriter"
  be_writeFails :: "nat \<Rightarrow> bool"
  be_backend :: BackendResult
  be_duration :: rat
  be_active :: rat
  be_queued :: rat

record BusinessResult =
  bs_writer :: ResponseWriter
  bs_pools :: PoolManager
  bs_calls :: "PromCall list"
  bs_request :: "ForwardedRequest option"

definition local_calls :: "string \<Rightarrow> string \<Rightarrow> RequestEnv \<Rightarrow> bool \<Rightarrow> ForwardError option \<times> string option \<Rightarrow> PromCall list" where
  "local_calls nodeID path env found res =
     (if found then [ObserveRequestDuration path nodeID (be_duration env)] else []) @
     (case res of
        (Some _, _) \<Rightarrow> [IncRequestTotal path nodeID ''502'', IncProxyErrors ''backend_error'' nodeID]
      | (None, Some statusCode) \<Rightarrow>
          [IncRequestTotal path nodeID statusCode, SetActiveRequests path nodeID (be_active env), SetQueueLength path nodeID (be_queued env)]
      | (None, None) \<Rightarrow> [])"

definition HandleLocalRequest ::
    "string \<Rightarrow> RequestEnv \<Rightarrow> PoolManager \<Rightarrow> string \<Rightarrow> LocalEndpoint \<Rightarrow> ResponseWriter \<Rightarrow> ResponseWriter \<times> PromCall list" where
  "HandleLocalRequest nodeID env pm path ep w =
     (case HandleLocalRequestWithError (be_serve env) pm ep w of
        (res, w') \<Rightarrow> (w', local_calls nodeID path env (GetPool pm (ep_NodePath ep) (ep_EpID ep) \<noteq> None) res))"

definition serve_by_path ::
    "string \<Rightarrow> RequestEnv \<Rightarrow> Registry \<Rightarrow> PoolManager \<Rightarrow> string \<Rightarrow> string \<Rightarrow> ResponseWriter \<Rightarrow> Panic + ResponseWriter \<times> PromCall list" where
  "serve_by_path nodeID env reg pm path nodePath w =
     (case selectPoolByLoad (be_pick env) pm nodePath None of
        Inl p \<Rightarrow> Inl p
      | Inr None \<Rightarrow> Inr (http_error ''Service Unavailable'' 503 w, [])
      | Inr (Some p) \<Rightarrow>
          (case Registry_GetEndpointByEpID reg nodePath (rp_serviceID p) of
             None \<Rightarrow> Inr (http_error ''Service Unavailable'' 503 w, [])
           | Some ep \<Rightarrow> Inr (HandleLocalRequest nodeID env pm path ep w)))"

definition HandleForwardedRequest ::
    "string \<Rightarrow> RequestEnv \<Rightarrow> PoolManager \<Rightarrow> HttpRequest \<Rightarrow> string \<Rightarrow> RemoteNode \<Rightarrow> ResponseWriter \<Rightarrow> BusinessResult" where
  "HandleForwardedRequest nodeID env pm r path node w =
     (let fr = HandleForwardedRequestWithError nodeID (be_writeFails env) (be_backend env) pm r path node w;
          answered = (case (fw_request fr, be_backend env) of
                        (Some _, Responded resp) \<Rightarrow>
                          [IncRequestTotal path nodeID (Itoa (br_status resp)), ObserveRequestDuration path nodeID (be_duration env)]
                      | _ \<Rightarrow> []);
          failed = (if fw_error fr \<noteq> None
                    then [IncRequestTotal path nodeID ''502'', IncProxyErrors ''forward_error'' nodeID] else [])
      in \<lparr>bs_writer = fw_writer fr, bs_pools = fw_pools fr, bs_calls = answered @ failed, bs_request = fw_request fr\<rparr>)"

text \<open>A request routed to a plugin is marked before it goes on.\<close>

definition mark_plugin :: "bool \<Rightarrow> HttpRequest \<Rightarrow> HttpRequest" where
  "mark_plugin isPlugin r = (if isPlugin then r\<lparr>hr_header := header_set ''X-Plugin-Request'' ''true'' (hr_header r)\<rparr> else r)"

definition handleRequest ::
    "string \<Rightarrow> RequestEnv \<Rightarrow> Registry \<Rightarrow> PoolManager \<Rightarrow> HttpRequest \<Rightarrow> ResponseWriter \<Rightarrow> Panic + BusinessResult" where
  "handleRequest nodeID env reg pm r w =
     (let path = hr_path r;
          refuse = (\<lambda>msg code. Inr \<lparr>bs_writer = http_error msg code w, bs_pools = pm,
                      bs_calls = [IncRequestTotal path nodeID (Itoa code)], bs_request = None\<rparr>)
      in case HandleRequest nodeID (be_route env) reg pm path (header_get (hr_header r) ''X-Forwarded-By'') of
           EndpointNotFound \<Rightarrow> refuse (''{'' @ quote ''error'' @ '': '' @ quote ''endpoint not found'' @ ''}'') 404
         | NoHealthyNode \<Rightarrow> refuse (''{'' @ quote ''error'' @ '': '' @ quote ''no healthy node'' @ ''}'') 503
         | RoutePanic p \<Rightarrow> Inl p
         | Routed v isPlugin \<Rightarrow>
             (let r = mark_plugin isPlugin r
              in case business_dispatch nodeID (Routed v isPlugin) of
                   ServeLocally nodePath \<Rightarrow>
                     (case serve_by_path nodeID env reg pm path nodePath w of
                        Inl p \<Rightarrow> Inl p
                      | Inr (w', calls) \<Rightarrow> Inr \<lparr>bs_writer = w', bs_pools = pm, bs_calls = calls, bs_request = None\<rparr>)
                 | ForwardTo node \<Rightarrow> Inr (HandleForwardedRequest nodeID env pm r path node w)
                 | AnsweredByRouter \<Rightarrow> Inr \<lparr>bs_writer = w, bs_pools = pm, bs_calls = [], bs_request = None\<rparr>))"

section \<open>How a request is counted\<close>

definition is_request_count :: "PromCall \<Rightarrow> bool" where
  "is_request_count c = (case c of Inc name _ \<Rightarrow> name = ''gateway_requests_total'' | _ \<Rightarrow> False)"

lemma request_count_calls [simp]:
  "is_request_count (IncRequestTotal path node status)" "\<not> is_request_count (ObserveRequestDuration path node d)"
  "\<not> is_request_count (SetActiveRequests path node v)" "\<not> is_request_count (SetQueueLength path node v)"
  "\<not> is_request_count (IncProxyErrors t node)"
  by (simp_all add: is_request_count_def IncRequestTotal_def ObserveRequestDuration_def SetActiveRequests_def
      SetQueueLength_def IncProxyErrors_def)

abbreviation counted :: "PromCall list \<Rightarrow> nat" where
  "counted calls \<equiv> length (filter is_request_count calls)"

text \<open>A path for which the forwarder finds no pool, or a pool whose endpoint is gone.\<close>

definition no_local_pool :: "Rand \<Rightarrow> Registry \<Rightarrow> PoolManager \<Rightarrow> string \<Rightarrow> bool" where
  "no_local_pool rs reg pm nodePath =
     (case selectPoolByLoad rs pm nodePath None of
        Inr None \<Rightarrow> True | Inr (Some p) \<Rightarrow> Registry_GetEndpointByEpID reg nodePath (rp_serviceID p) = None | Inl _ \<Rightarrow> False)"

definition answered_5xx :: "RequestEnv \<Rightarrow> bool" where
  "answered_5xx env = (case be_backend env of Responded resp \<Rightarrow> 500 \<le> br_status resp | _ \<Rightarrow> False)"

lemma local_result:
  "(\<exists>e. fst (HandleLocalRequestWithError serve pm ep w) = (Some e, None)) \<or>
   (\<exists>st. fst (HandleLocalRequestWithError serve pm ep w) = (None, Some st))"
  by (auto simp: HandleLocalRequestWithError_def split: option.split prod.split)

lemma local_counted:
  "counted (snd (HandleLocalRequest nodeID env pm path ep w)) = 1 \<and> list_all call_fits (snd (HandleLocalRequest nodeID env pm path ep w))"
  using local_result [of "be_serve env" pm ep w]
  by (auto simp: HandleLocalRequest_def local_calls_def split: prod.split)

lemma by_path_counted:
  assumes "serve_by_path nodeID env reg pm path nodePath w = Inr (w', calls)"
  shows "counted calls = (if no_local_pool (be_pick env) reg pm nodePath then 0 else 1) \<and> list_all call_fits calls"
  using assms local_counted [of nodeID env pm path _ w]
  by (auto simp: serve_by_path_def no_local_pool_def split: sum.splits option.splits) (metis snd_conv)+

lemma forwarded_request:
  "bs_request (HandleForwardedRequest nodeID env pm r path node w) =
     fw_request (HandleForwardedRequestWithError nodeID (be_writeFails env) (be_backend env) pm r path node w)"
  by (simp add: HandleForwardedRequest_def Let_def)

lemma forwarded_counted:
  "counted (bs_calls (HandleForwardedRequest nodeID env pm r path node w)) =
     (if bs_request (HandleForwardedRequest nodeID env pm r path node w) \<noteq> None \<and> answered_5xx env then 2 else 1) \<and>
   list_all call_fits (bs_calls (HandleForwardedRequest nodeID env pm r path node w))"
  by (simp add: HandleForwardedRequest_def HandleForwardedRequestWithError_def answered_5xx_def Let_def
      split: BackendResult.split)

text \<open>
  C21: How a request is counted. Every call the metrics receive while a request is handled fits a family that was
  registered. The counter of requests goes up by exactly one for every request that is answered by the router, by a
  local pool or by another node, failures included, with two exceptions: a request that is
  answered 503 because its path has no pool on this node is not counted at all, and a request which another node answers
  with a status of 500 or more is counted twice, under that status and under 502.
\<close>

theorem request_accounting:
  assumes "handleRequest nodeID env reg pm r w = Inr res"
    and "HandleRequest nodeID (be_route env) reg pm (hr_path r) (header_get (hr_header r) ''X-Forwarded-By'') = outcome"
  shows "list_all call_fits (bs_calls res) \<and>
    counted (bs_calls res) =
      (case business_dispatch nodeID outcome of
         AnsweredByRouter \<Rightarrow> 1
       | ServeLocally nodePath \<Rightarrow> if no_local_pool (be_pick env) reg pm nodePath then 0 else 1
       | ForwardTo node \<Rightarrow> if bs_request res \<noteq> None \<and> answered_5xx env then 2 else 1)"
proof (cases outcome)
  case (Routed v isPlugin)
  show ?thesis
  proof (cases "business_dispatch nodeID outcome")
    case (ServeLocally nodePath)
    then show ?thesis
      using assms Routed by_path_counted [of nodeID env reg pm "hr_path r" nodePath w]
      by (auto simp: handleRequest_def Let_def split: sum.splits)
  next
    case (ForwardTo node)
    then show ?thesis
      using assms Routed forwarded_counted [of nodeID env pm "mark_plugin isPlugin r" "hr_path r" node w]
      by (auto simp: handleRequest_def Let_def)
  qed (auto simp: Routed business_dispatch_def split: if_splits)
qed (use assms in \<open>auto simp: handleRequest_def business_dispatch_def Let_def\<close>)

theorem request_accounting_witness:
  "\<exists>res. handleRequest ''self'' \<lparr>be_route = \<lambda>_. sample_rand, be_pick = sample_rand, be_serve = \<lambda>p w. (Served, w),
       be_writeFails = \<lambda>_. False, be_backend = Responded \<lparr>br_status = 503, br_header = [], br_chunks = []\<rparr>,
       be_duration = 1, be_active = 0, be_queued = 0\<rparr> sample_cluster (NewManager 10 0)
       \<lparr>hr_path = ''/a'', hr_rawQuery = '''', hr_header = []\<rparr> new_writer = Inr res \<and> counted (bs_calls res) = 2"
proof -
  let ?env = "\<lparr>be_route = \<lambda>_. sample_rand, be_pick = sample_rand, be_serve = \<lambda>p w. (Served, w),
       be_writeFails = \<lambda>_. False, be_backend = Responded \<lparr>br_status = 503, br_header = [], br_chunks = []\<rparr>,
       be_duration = 1, be_active = 0, be_queued = 0\<rparr>"
  let ?r = "\<lparr>hr_path = ''/a'', hr_rawQuery = '''', hr_header = []\<rparr>"
  have route: "HandleRequest ''self'' (be_route ?env) sample_cluster (NewManager 10 0) (hr_path ?r) (header_get (hr_header ?r) ''X-Forwarded-By'') =
      Routed (candidate_node ''n1'' ''10.0.0.1'' 15050 ''/a'' 1 0 10 False) False"
    using sample_cluster_route by (simp add: header_get_def)
  let ?n = "candidate_node ''n1'' ''10.0.0.1'' 15050 ''/a'' 1 0 10 False"
  let ?res = "HandleForwardedRequest ''self'' ?env (NewManager 10 0) ?r ''/a'' ?n new_writer"
  have res: "handleRequest ''self'' ?env sample_cluster (NewManager 10 0) ?r new_writer = Inr ?res"
    unfolding handleRequest_def Let_def route by (simp add: business_dispatch_def mark_plugin_def)
  moreover have "bs_request ?res \<noteq> None" unfolding forwarded_request forwarded_iff by (simp add: header_get_def)
  ultimately show ?thesis
    using request_accounting [OF res route] res by (simp add: business_dispatch_def answered_5xx_def)
qed

section \<open>A request for this node\<close>

lemma pools_by_path:
  assumes "wf_pm m"
  shows "p \<in> set (GetPoolsByPath m path) \<longleftrightarrow> GetPool m path (rp_serviceID p) = Some p"
proof -
  have "p \<in> set (GetPoolsByPath m path) \<longleftrightarrow> (\<exists>k. GetPool m path k = Some p)"
  proof (cases "map_of (pm_pools m) path")
    case (Some sub)
    then have "wf_map sub" using assms map_of_SomeD [OF Some] by (auto simp: wf_pm_def wf_keyed_def wf_nested_def)
    then have "p \<in> snd ` set sub \<longleftrightarrow> (\<exists>k. map_of sub k = Some p)" by (force simp: wf_map_iff [symmetric])
    then show ?thesis using Some by (simp add: GetPoolsByPath_def GetPool_def)
  qed (simp add: GetPoolsByPath_def GetPool_def)
  then show ?thesis using pm.look_key [of m path _ p] assms by blast
qed

lemma path_has_pools:
  assumes "wf_pm m"
  shows "GetPoolsByPath m path \<noteq> [] \<longleftrightarrow> (\<exists>k. GetPool m path k \<noteq> None)"
proof
  assume "GetPoolsByPath m path \<noteq> []"
  then show "\<exists>k. GetPool m path k \<noteq> None" using pools_by_path [OF assms] by (metis last_in_set option.distinct(1))
next
  assume "\<exists>k. GetPool m path k \<noteq> None"
  then obtain k p where "GetPool m path k = Some p" by auto
  then have "p \<in> set (GetPoolsByPath m path)"
    using pools_by_path [OF assms] pm.look_key [OF wf_pm_keyed [OF assms]] by metis
  then show "GetPoolsByPath m path \<noteq> []" by auto
qed

lemma pool_of_endpoint:
  assumes "pools_match (table_of reg) pm"
  shows "GetPool pm np k \<noteq> None \<longleftrightarrow>
    (\<exists>ep. Registry_GetEndpointByEpID reg np k = Some ep \<and> backend_url (ep_ServicePath ep) \<noteq> None)"
  using assms by (simp add: pools_match_def les_abs_def has_backend_def Registry_GetEndpointByEpID_def table_of_def split: option.split)

lemma endpoint_keys:
  assumes "wf_les (table_of reg)" and "Registry_GetEndpointByEpID reg np k = Some ep"
  shows "ep_NodePath ep = np \<and> ep_EpID ep = k"
  using assms les.look_key wf_les_iff wf_les_keyed unfolding Registry_GetEndpointByEpID_def table_of_def by metis

lemma served_by_path:
  assumes "pools_match (table_of reg) pm" and "rand_ok (be_pick env)"
    and "(\<Sum>p \<leftarrow> GetPoolsByPath pm np. sint (pool_weight p)) < 2 ^ 31" and "GetPool pm np k \<noteq> None"
  shows "\<exists>p ep calls. serve_by_path nodeID env reg pm path np w = Inr (snd (be_serve env p w), calls) \<and>
    GetPool pm np (rp_serviceID p) = Some p \<and> rp_path p = np \<and> Registry_GetEndpointByEpID reg np (rp_serviceID p) = Some ep"
proof -
  have wf: "wf_pm pm" "wf_les (table_of reg)" using assms(1) by (simp_all add: pools_match_def)
  have "GetPoolsByPath pm np \<noteq> []" using path_has_pools [OF wf(1)] assms(4) by blast
  then obtain p where p: "selectPoolByLoad (be_pick env) pm np None = Inr (Some p)" "GetPool pm np (rp_serviceID p) = Some p"
    using select_pool_near_lightest [OF assms(2,3), of None] pools_by_path [OF wf(1)] by auto
  then obtain ep where ep: "Registry_GetEndpointByEpID reg np (rp_serviceID p) = Some ep"
    using pool_of_endpoint [OF assms(1), of np "rp_serviceID p"] by auto
  have "fst (HandleLocalRequest nodeID env pm path ep w) = snd (be_serve env p w)"
    using endpoint_keys [OF wf(2) ep] p(2) by (simp add: HandleLocalRequest_def HandleLocalRequestWithError_def split: prod.split)
  then have "serve_by_path nodeID env reg pm path np w =
      Inr (snd (be_serve env p w), snd (HandleLocalRequest nodeID env pm path ep w))"
    using p(1) ep by (simp add: serve_by_path_def prod_eq_iff)
  moreover have "rp_path p = np" using wf(1) p(2) by (simp add: wf_pm_def)
  ultimately show ?thesis using p(2) ep by blast
qed

lemma unserved_by_path:
  assumes "wf_pm pm" and "\<And>k. GetPool pm np k = None"
  shows "serve_by_path nodeID env reg pm path np w = Inr (http_error ''Service Unavailable'' 503 w, [])"
  using path_has_pools [OF assms(1), of np] assms(2) by (simp add: serve_by_path_def selectPoolByLoad_def)


definition chat_endpoint :: LocalEndpoint where
  "chat_endpoint = (new_endpoint 7 sample_chat)\<lparr>ep_ServiceID := '''', ep_EpID := ''x''\<rparr>"

definition chat_registry :: Registry where
  "chat_registry = Registry_New\<lparr>reg_local := \<lparr>lr_endpoints = [(''/chat'', [(''x'', chat_endpoint)])], lr_serviceMap = [('''', ''/chat'')]\<rparr>\<rparr>"

lemma sample_post_registry: "as_registry (fst (snd sample_post)) = chat_registry"
proof -
  have "Registry_RegisterEndpoints sample_ids [new_endpoint 7 sample_chat] (as_registry sample_server) = (Inr '''', chat_registry)"
    by (simp add: Registry_RegisterEndpoints_def LocalRegistry_RegisterEndpoints_def stamp_ids_def plugin_clash_def chat_registry_def
        LocalEndpointStore_List_def LocalEndpointStore_Set_def nested_list_def nested_put_def sample_ids_def chat_endpoint_def
        sample_server_def Sync_New_def Registry_New_def NewLocalRegistry_def NewLocalEndpointStore_def new_endpoint_fields
        sample_chat_def)
  then show ?thesis
    by (simp add: handlePostEndpoints_def sample_admitted sample_parsed Let_def with_registry_def del: parse_endpoints.simps)
qed

lemma sample_post_pools:
  "as_poolMgr (fst (snd sample_post)) =
     CreatePool ''/chat'' ''x'' (''http://localhost:'' @ Itoa 8080 @ ''/api'') 5 (NewManagerWithQueueCapacity 10 100 (seconds 60))"
proof -
  obtain reg where "Registry_RegisterEndpoints sample_ids [new_endpoint 7 sample_chat] (as_registry sample_server) = (Inr '''', reg)"
    using sample_registered by blast
  moreover have "create_pool_for (new_endpoint 7 sample_chat\<lparr>ep_ServiceID := [], ep_EpID := ''x''\<rparr>) m =
      CreatePool ''/chat'' ''x'' (''http://localhost:'' @ Itoa 8080 @ ''/api'') 5 m" for m
    using sample_url by (simp add: create_pool_for_def new_endpoint_def sample_chat_def)
  ultimately show ?thesis
    by (simp add: handlePostEndpoints_def sample_admitted sample_parsed Let_def stamp_ids_def sample_ids_def sample_server_def
        del: parse_endpoints.simps)
qed

lemma sample_post_route:
  assumes "GetPool m ''/chat'' ''x'' = Some (NewRequestPool ''/chat'' ''x'' url 5 q t)"
  shows "HandleRequest ''self'' rss chat_registry m ''/chat'' '''' = Routed (candidate_node ''self'' ''127.0.0.1'' 0 ''/chat'' 0 0 5 False) False"
proof -
  have ep: "ep_Healthy chat_endpoint" "ep_NodePath chat_endpoint = ''/chat''" "ep_MaxConcurrent chat_endpoint = 5"
    "\<not> ep_Plugin chat_endpoint" "ep_EpID chat_endpoint = ''x''"
    by (simp_all add: chat_endpoint_def new_endpoint_def sample_chat_def)
  have "best_local_path chat_registry ''/chat'' = ''/chat''"
    by (simp add: best_local_path_def best_step_def chat_registry_def Registry_GetAllLocalEndpoints_def
        LocalEndpointStore_GetAll_def ep matchNodePath_def HasPrefix_def)
  moreover have "local_totals chat_registry m ''/chat'' =
      \<lparr>lt_MaxConcurrent = 5, lt_Active = 0, lt_QueueLen = 0, lt_hasPlugin = False, lt_hasRegular = True\<rparr>"
    by (simp add: local_totals_def totals_step_def chat_registry_def Registry_ListEndpointsByNodePath_def
        LocalEndpointStore_ListByNodePath_def ep assms NewRequestPool_def RequestPool_GetMetrics_def Let_def)
  ultimately have "getNodesForPath ''self'' chat_registry m ''/chat'' [] =
      ([], [candidate_node ''self'' ''127.0.0.1'' 0 ''/chat'' 0 0 5 False])"
    by (simp add: getNodesForPath_def local_candidates_def remote_candidates_def remote_best_len_def Registry_GetRemoteNodes_def
        chat_registry_def Registry_New_def RemoteNodeStore_List_def NewRemoteNodeStore_def Let_def)
  then show ?thesis
    by (simp add: HandleRequest_def already_seen_def selectNodeWithFallback_def fallback_candidates_def SelectNode_def Let_def)
qed


text \<open>
  The pool is chosen among all pools of the path, whether or not their endpoint is healthy: the router needs one healthy endpoint on
  the path, the forwarder may then take the pool of another one.
\<close>

lemma unhealthy_pool_selected:
  assumes "GetPoolsByPath pm np = [p]" and "Registry_GetEndpointByEpID reg np (rp_serviceID p) = Some ep" and "\<not> ep_Healthy ep"
    and "wf_les (table_of reg)" and "GetPool pm np (rp_serviceID p) = Some p"
  shows "\<exists>calls. serve_by_path nodeID env reg pm path np w = Inr (snd (be_serve env p w), calls)"
proof -
  have "selectPoolByLoad (be_pick env) pm np None = Inr (Some p)" by (simp add: selectPoolByLoad_def assms(1))
  moreover have "fst (HandleLocalRequest nodeID env pm path ep w) = snd (be_serve env p w)"
    using endpoint_keys [OF assms(4,2)] assms(5)
    by (simp add: HandleLocalRequest_def HandleLocalRequestWithError_def split: prod.split)
  ultimately show ?thesis using assms(2) by (simp add: serve_by_path_def) (metis prod.collapse)
qed

end
