(* ===== verification/Config_Center.thy ===== *)
theory Config_Center
  imports Config
begin

text \<open>
  \<open>internal/config/config_center.go\<close>, \<open>config.Reload\<close> and the two \<open>OnConfigChange\<close> listeners. The code
  hands \<open>*Config\<close> pointers around and writes through them, and what the listeners see depends on which
  of them are the same object, so the model has an explicit heap of configurations. A panic ends the
  process: such a transition has no successor state.
\<close>

section \<open>State\<close>

type_synonym ptr = nat

datatype ConfigListener = AdminListener | BusinessListener

record ConfigCenterImpl =
  cc_config :: "ptr option"
  cc_gossipServer :: "ptr option option"
  cc_listeners :: "ConfigListener list"
  cc_updateCh :: "ptr list"
  cc_closed :: bool

text \<open>
  The heap, the centre, the configuration pointers and running servers of the two listeners (a server
  is the address it listens on), and the configurations broadcast to peers.
\<close>

record Process =
  pr_heap :: "ptr \<Rightarrow> Config"
  pr_center :: ConfigCenterImpl
  pr_adminConfig :: ptr
  pr_adminServer :: "string option"
  pr_businessConfig :: ptr
  pr_businessServer :: "string option"
  pr_broadcast :: "Config list"

datatype ProcessPanic = NilConfig | NilServer | SendOnClosedChannel

definition updateCh_capacity :: nat where
  "updateCh_capacity = 10"

section \<open>The configuration centre\<close>

definition NewConfigCenter :: "ptr \<Rightarrow> ptr option option \<Rightarrow> ConfigCenterImpl" where
  "NewConfigCenter cfg gossipServer =
     \<lparr>cc_config = Some cfg, cc_gossipServer = gossipServer, cc_listeners = [], cc_updateCh = [], cc_closed = False\<rparr>"

definition ConfigCenter_Shutdown :: "ConfigCenterImpl \<Rightarrow> ConfigCenterImpl" where
  "ConfigCenter_Shutdown cc = cc\<lparr>cc_closed := True\<rparr>"

definition RegisterConfigListener :: "ConfigListener \<Rightarrow> ConfigCenterImpl \<Rightarrow> ConfigCenterImpl" where
  "RegisterConfigListener listener cc = cc\<lparr>cc_listeners := cc_listeners cc @ [listener]\<rparr>"

definition UnregisterConfigListener :: "ConfigListener \<Rightarrow> ConfigCenterImpl \<Rightarrow> ConfigCenterImpl" where
  "UnregisterConfigListener listener cc = cc\<lparr>cc_listeners := remove1 listener (cc_listeners cc)\<rparr>"

definition broadcastConfigUpdate :: "ptr \<Rightarrow> Process \<Rightarrow> Process" where
  "broadcastConfigUpdate cfg p =
     (if cc_gossipServer (pr_center p) = None then p else p\<lparr>pr_broadcast := pr_broadcast p @ [pr_heap p cfg]\<rparr>)"

definition UpdateConfig :: "ptr \<Rightarrow> Process \<Rightarrow> ProcessPanic + error \<times> Process" where
  "UpdateConfig cfg p =
     (case ValidateConfig (pr_heap p cfg) of
        Some err \<Rightarrow> Inr (Some err, p)
      | None \<Rightarrow>
          let p = broadcastConfigUpdate cfg p; cc = pr_center p
          in if cc_closed cc then Inl SendOnClosedChannel
             else if length (cc_updateCh cc) < updateCh_capacity then
               Inr (None, p\<lparr>pr_center := cc\<lparr>cc_updateCh := cc_updateCh cc @ [cfg]\<rparr>\<rparr>)
             else Inr (Some ''config update channel full, update dropped'', p))"

section \<open>The listeners\<close>

text \<open>\<open>BusinessServer.OnConfigChange\<close>; \<open>listens\<close> says on which addresses a listener can be opened.\<close>

definition Business_OnConfigChange :: "(string \<Rightarrow> bool) \<Rightarrow> ptr \<Rightarrow> ptr \<Rightarrow> Process \<Rightarrow> Process" where
  "Business_OnConfigChange listens oldConfig newConfig p =
     (let changed = (cfg_ListenAddr (pr_heap p oldConfig) \<noteq> cfg_ListenAddr (pr_heap p newConfig));
          addr = cfg_ListenAddr (pr_heap p newConfig); b = pr_businessConfig p
      in if changed \<and> \<not> listens addr then p
         else
           let p = (if changed then p\<lparr>pr_businessServer := Some addr,
                                     pr_heap := (pr_heap p)(b := (pr_heap p b)\<lparr>cfg_ListenAddr := addr\<rparr>)\<rparr> else p);
               new = pr_heap p newConfig
           in p\<lparr>pr_heap := (pr_heap p)(b := (pr_heap p b)\<lparr>cfg_LogLevel := cfg_LogLevel new,
                  cfg_BackendTimeout := cfg_BackendTimeout new, cfg_QueueTimeout := cfg_QueueTimeout new\<rparr>)\<rparr>)"

definition admin_addr :: "string \<Rightarrow> string" where
  "admin_addr listenAddr = ''0.0.0.0:'' @ Itoa (sscanf_port listenAddr - 1)"

definition Admin_OnConfigChange :: "ptr \<Rightarrow> ptr \<Rightarrow> Process \<Rightarrow> ProcessPanic + Process" where
  "Admin_OnConfigChange oldConfig newConfig p =
     (let changed = (cfg_ListenAddr (pr_heap p oldConfig) \<noteq> cfg_ListenAddr (pr_heap p newConfig)); a = pr_adminConfig p
      in if changed \<and> pr_adminServer p = None then Inl NilServer
         else
           let p = (if changed then p\<lparr>pr_adminServer := Some (admin_addr (cfg_ListenAddr (pr_heap p newConfig)))\<rparr> else p)
           in Inr (p\<lparr>pr_heap := (pr_heap p)(a := (pr_heap p a)\<lparr>cfg_HeartbeatTimeout := cfg_HeartbeatTimeout (pr_heap p newConfig)\<rparr>)\<rparr>))"

definition notify_one ::
    "(string \<Rightarrow> bool) \<Rightarrow> ptr option \<Rightarrow> ptr option \<Rightarrow> ConfigListener \<Rightarrow> Process \<Rightarrow> ProcessPanic + Process" where
  "notify_one listens oldConfig newConfig l p =
     (case (oldConfig, newConfig) of
        (Some old, Some new) \<Rightarrow>
          (case l of
             AdminListener \<Rightarrow> Admin_OnConfigChange old new p
           | BusinessListener \<Rightarrow> Inr (Business_OnConfigChange listens old new p))
      | _ \<Rightarrow> Inl NilConfig)"

fun notifyListeners ::
    "(string \<Rightarrow> bool) \<Rightarrow> ptr option \<Rightarrow> ptr option \<Rightarrow> ConfigListener list \<Rightarrow> Process \<Rightarrow> ProcessPanic + Process" where
  "notifyListeners listens old new [] p = Inr p"
| "notifyListeners listens old new (l # ls) p =
     (case notify_one listens old new l p of Inl x \<Rightarrow> Inl x | Inr p' \<Rightarrow> notifyListeners listens old new ls p')"

definition applyConfigUpdate :: "(string \<Rightarrow> bool) \<Rightarrow> ptr option \<Rightarrow> Process \<Rightarrow> ProcessPanic + Process" where
  "applyConfigUpdate listens newConfig p =
     (let cc = pr_center p
      in notifyListeners listens (cc_config cc) newConfig (cc_listeners cc) (p\<lparr>pr_center := cc\<lparr>cc_config := newConfig\<rparr>\<rparr>))"

definition isConfigEqual :: "(ptr \<Rightarrow> Config) \<Rightarrow> ptr option \<Rightarrow> ptr option \<Rightarrow> bool" where
  "isConfigEqual h a b =
     (case (a, b) of
        (None, None) \<Rightarrow> True
      | (Some a, Some b) \<Rightarrow> cfg_NodeID (h a) = cfg_NodeID (h b) \<and> cfg_ListenAddr (h a) = cfg_ListenAddr (h b)
      | _ \<Rightarrow> False)"

definition syncWithCluster :: "(string \<Rightarrow> bool) \<Rightarrow> Process \<Rightarrow> ProcessPanic + Process" where
  "syncWithCluster listens p =
     (case cc_gossipServer (pr_center p) of
        None \<Rightarrow> Inr p
      | Some None \<Rightarrow> Inr p
      | Some (Some latestConfig) \<Rightarrow>
          if \<not> isConfigEqual (pr_heap p) (cc_config (pr_center p)) (Some latestConfig)
          then applyConfigUpdate listens (Some latestConfig) p else Inr p)"

text \<open>One turn of \<open>syncConfig\<close> that receives from the channel; a closed, drained channel yields \<open>nil\<close>.\<close>

definition receive_update :: "(string \<Rightarrow> bool) \<Rightarrow> Process \<Rightarrow> (ProcessPanic + Process) option" where
  "receive_update listens p =
     (let cc = pr_center p
      in case cc_updateCh cc of
           cfg # rest \<Rightarrow> Some (applyConfigUpdate listens (Some cfg) (p\<lparr>pr_center := cc\<lparr>cc_updateCh := rest\<rparr>\<rparr>))
         | [] \<Rightarrow> if cc_closed cc then Some (applyConfigUpdate listens None p) else None)"

section \<open>Reload\<close>

datatype ReloadError = LoadFailed ConfigError | InvalidFile ConfigError | BroadcastFailed string

definition Reload :: "Yaml \<Rightarrow> FileSystem \<Rightarrow> ptr \<Rightarrow> Process \<Rightarrow> ProcessPanic + ReloadError option \<times> Process" where
  "Reload y fs cfg p =
     (case LoadConfig y fs (NewConfigManager ''novaairouter.yaml'') of
        (Some e, cm) \<Rightarrow> Inr (Some (LoadFailed e), p)
      | (None, cm) \<Rightarrow>
          (case Option.bind (cm_configFile cm) ConfigManager_ValidateConfig of
             Some e \<Rightarrow> Inr (Some (InvalidFile e), p)
           | None \<Rightarrow>
               let p = p\<lparr>pr_heap := (pr_heap p)(cfg := reloaded_config cm (pr_heap p cfg))\<rparr>
               in case UpdateConfig cfg p of
                    Inl x \<Rightarrow> Inl x
                  | Inr (Some err, p) \<Rightarrow> Inr (Some (BroadcastFailed err), p)
                  | Inr (None, p) \<Rightarrow> Inr (None, p)))"

section \<open>The running process\<close>

text \<open>\<open>runGateway\<close> makes one configuration and gives the same pointer to every component.\<close>

definition process_start :: "Config \<Rightarrow> string \<Rightarrow> string \<Rightarrow> Process" where
  "process_start cfg adminAddr businessAddr =
     \<lparr>pr_heap = (\<lambda>_. cfg),
      pr_center = RegisterConfigListener BusinessListener (RegisterConfigListener AdminListener (NewConfigCenter 0 (Some (Some 0)))),
      pr_adminConfig = 0, pr_adminServer = Some adminAddr, pr_businessConfig = 0, pr_businessServer = Some businessAddr,
      pr_broadcast = []\<rparr>"

inductive process_step :: "Process \<Rightarrow> Process \<Rightarrow> bool" where
  sighup: "Reload y fs 0 p = Inr (err, p') \<Longrightarrow> process_step p p'"
| received: "receive_update listens p = Some (Inr p') \<Longrightarrow> process_step p p'"
| tick: "syncWithCluster listens p = Inr p' \<Longrightarrow> process_step p p'"
| center_shutdown: "process_step p (p\<lparr>pr_center := ConfigCenter_Shutdown (pr_center p)\<rparr>)"

text \<open>Every pointer in play is the one made at the start, and the servers are those started then.\<close>

definition one_config :: "string \<Rightarrow> string \<Rightarrow> Process \<Rightarrow> bool" where
  "one_config a b p \<longleftrightarrow>
     cc_config (pr_center p) = Some 0 \<and> cc_gossipServer (pr_center p) = Some (Some 0) \<and>
     cc_listeners (pr_center p) = [AdminListener, BusinessListener] \<and> set (cc_updateCh (pr_center p)) \<subseteq> {0} \<and>
     length (cc_updateCh (pr_center p)) \<le> updateCh_capacity \<and>
     pr_adminConfig p = 0 \<and> pr_businessConfig p = 0 \<and> pr_adminServer p = Some a \<and> pr_businessServer p = Some b"

lemma one_config_start: "one_config a b (process_start cfg a b)"
  by (simp add: one_config_def process_start_def RegisterConfigListener_def NewConfigCenter_def)

text \<open>A change notification about one and the same object changes nothing.\<close>

lemma cfg_self_update [simp]:
  "c\<lparr>cfg_LogLevel := cfg_LogLevel c\<rparr> = c" "c\<lparr>cfg_BackendTimeout := cfg_BackendTimeout c\<rparr> = c"
  "c\<lparr>cfg_QueueTimeout := cfg_QueueTimeout c\<rparr> = c" "c\<lparr>cfg_HeartbeatTimeout := cfg_HeartbeatTimeout c\<rparr> = c"
  for c :: Config
  by (cases c; simp)+

lemma Admin_same: "pr_adminConfig p = c \<Longrightarrow> Admin_OnConfigChange c c p = Inr p"
  by (simp add: Admin_OnConfigChange_def Let_def)

lemma Business_same: "pr_businessConfig p = c \<Longrightarrow> Business_OnConfigChange listens c c p = p"
  by (simp add: Business_OnConfigChange_def Let_def)

lemma applyConfigUpdate_same:
  assumes "one_config a b p"
  shows "applyConfigUpdate listens (Some 0) p = Inr p" and "applyConfigUpdate listens None p = Inl NilConfig"
proof -
  have c: "cc_config (pr_center p) = Some 0" "cc_listeners (pr_center p) = [AdminListener, BusinessListener]"
    "pr_adminConfig p = 0" "pr_businessConfig p = 0"
    using assms by (simp_all add: one_config_def)
  have "notifyListeners listens (Some 0) (Some 0) [AdminListener, BusinessListener] p = Inr p"
    using c(3,4) by (simp add: notify_one_def Business_same Admin_same)
  moreover have "p\<lparr>pr_center := (pr_center p)\<lparr>cc_config := Some 0\<rparr>\<rparr> = p"
  proof -
    have "cc\<lparr>cc_config := cc_config cc\<rparr> = cc" for cc :: ConfigCenterImpl by simp
    from this [of "pr_center p"] have "(pr_center p)\<lparr>cc_config := Some 0\<rparr> = pr_center p" using c(1) by simp
    then show ?thesis by simp
  qed
  ultimately show "applyConfigUpdate listens (Some 0) p = Inr p"
    unfolding applyConfigUpdate_def Let_def c by simp
  show "applyConfigUpdate listens None p = Inl NilConfig"
    using c by (simp add: applyConfigUpdate_def notify_one_def Let_def)
qed

lemma one_config_UpdateConfig:
  assumes "one_config a b p" and "UpdateConfig 0 p = Inr (err, p')"
  shows "one_config a b p' \<and> pr_heap p' = pr_heap p"
  using assms
  by (auto simp: one_config_def UpdateConfig_def broadcastConfigUpdate_def Let_def split: option.splits if_splits)

lemma one_config_heap: "one_config a b (p\<lparr>pr_heap := h\<rparr>) = one_config a b p"
  by (simp add: one_config_def)

lemma one_config_Reload:
  assumes "one_config a b p" and "Reload y fs 0 p = Inr (err, p')"
  shows "one_config a b p'"
proof -
  obtain e cm where cm: "LoadConfig y fs (NewConfigManager ''novaairouter.yaml'') = (e, cm)" by fastforce
  let ?p = "p\<lparr>pr_heap := (pr_heap p)(0 := reloaded_config cm (pr_heap p 0))\<rparr>"
  have "p' = p \<or> (\<exists>r. UpdateConfig 0 ?p = Inr (r, p'))"
    using assms(2) cm by (auto simp: Reload_def Let_def split: option.splits sum.splits prod.splits)
  then show ?thesis
  proof (elim disjE exE)
    fix r assume "UpdateConfig 0 ?p = Inr (r, p')"
    moreover have "one_config a b ?p" using assms(1) by (simp only: one_config_heap)
    ultimately show ?thesis using one_config_UpdateConfig by blast
  qed (use assms(1) in simp)
qed

interpretation one_cfg: invariant_system "\<lambda>p. \<exists>cfg. p = process_start cfg a b" process_step "one_config a b" for a b
proof
  show "one_config a b p" if "\<exists>cfg. p = process_start cfg a b" for p using that one_config_start by blast
  show "one_config a b p'" if inv: "one_config a b p" and step: "process_step p p'" for p p'
    using step
  proof cases
    case (sighup y fs err)
    then show ?thesis using inv one_config_Reload by blast
  next
    case (received listens)
    show ?thesis
    proof (cases "cc_updateCh (pr_center p)")
      case Nil
      then show ?thesis using received applyConfigUpdate_same(2) [OF inv] by (auto simp: receive_update_def Let_def split: if_splits)
    next
      case (Cons c rest)
      let ?q = "p\<lparr>pr_center := (pr_center p)\<lparr>cc_updateCh := rest\<rparr>\<rparr>"
      have "one_config a b ?q" "c = 0" using inv Cons by (auto simp: one_config_def)
      then show ?thesis using received Cons applyConfigUpdate_same(1) [of a b ?q] by (auto simp: receive_update_def Let_def)
    qed
  next
    case (tick listens)
    then show ?thesis using inv applyConfigUpdate_same(1) [OF inv]
      by (auto simp: syncWithCluster_def one_config_def split: if_splits)
  next
    case center_shutdown
    then show ?thesis using inv by (simp add: one_config_def ConfigCenter_Shutdown_def)
  qed
qed

abbreviation process_reachable :: "string \<Rightarrow> string \<Rightarrow> Process \<Rightarrow> bool" where
  "process_reachable a b \<equiv> reach (\<lambda>p. \<exists>cfg. p = process_start cfg a b) process_step"

text \<open>
  C36: Over every interleaving of reloads, channel receipts, ticks and the shutdown of the centre, all
  components share one configuration object, the channel holds at most ten entries, and the servers
  are still those of the start: because the reload writes through the shared pointer before anyone is
  notified, old and new are the same object, no listener ever sees its address change and none is
  restarted, whatever file is loaded.
\<close>

theorem reload_shares_one_config:
  assumes "process_reachable a b p"
  shows "cc_config (pr_center p) = Some (pr_adminConfig p) \<and> pr_adminConfig p = pr_businessConfig p \<and>
    set (cc_updateCh (pr_center p)) \<subseteq> {pr_adminConfig p} \<and> length (cc_updateCh (pr_center p)) \<le> 10 \<and>
    pr_adminServer p = Some a \<and> pr_businessServer p = Some b"
  using one_cfg.reach_inv [OF assms] by (auto simp: one_config_def updateCh_capacity_def)

theorem reload_shares_one_config_witness:
  "pr_adminServer (process_start (load_config sample_env) ''0.0.0.0:15049'' '':15050'') = Some ''0.0.0.0:15049''"
proof -
  have "process_reachable ''0.0.0.0:15049'' '':15050'' (process_start (load_config sample_env) ''0.0.0.0:15049'' '':15050'')"
    by (rule reach_init) blast
  from reload_shares_one_config [OF this] show ?thesis by blast
qed

text \<open>Once the centre is shut down its loop can receive \<open>nil\<close> from the closed channel and dereference it.\<close>

lemma shutdown_receives_nil:
  assumes "one_config a b p" and "cc_closed (pr_center p)" and "cc_updateCh (pr_center p) = []"
  shows "receive_update listens p = Some (Inl NilConfig)"
  using assms applyConfigUpdate_same(2) [OF assms(1)] by (simp add: receive_update_def Let_def)

text \<open>
  What a reload does on each outcome. A file that cannot be read or fails the item checks leaves the
  process as it was. Otherwise the shared configuration is replaced at once, keeping only the node's
  name, and only then validated: an invalid one stays installed although the reload reports an error.
\<close>

theorem reload_outcomes:
  assumes "Reload y fs c p = Inr (err, p')" and "LoadConfig y fs (NewConfigManager ''novaairouter.yaml'') = (e, cm)"
  shows "case err of
      Some (LoadFailed x) \<Rightarrow> e = Some x \<and> p' = p
    | Some (InvalidFile x) \<Rightarrow> e = None \<and> p' = p
    | _ \<Rightarrow> e = None \<and> pr_heap p' = (pr_heap p)(c := reloaded_config cm (pr_heap p c)) \<and>
        cfg_NodeID (pr_heap p' c) = cfg_NodeID (pr_heap p c) \<and>
        (err = None \<longrightarrow> config_ok (pr_heap p' c) \<and> last (cc_updateCh (pr_center p')) = c) \<and>
        (\<not> config_ok (pr_heap p' c) \<longrightarrow> err \<noteq> None)"
  using assms
  by (auto simp: Reload_def UpdateConfig_def broadcastConfigUpdate_def ValidateConfig_iff [symmetric] Let_def
      split: option.splits sum.splits prod.splits if_splits)


text \<open>A reload of the untouched default file: reported as failed, yet installed, with an empty API key.\<close>

lemma reload_default_file:
  assumes "LoadConfig y fs (NewConfigManager ''novaairouter.yaml'') = (None, cm)" and "cm_configFile cm = Some (default_file now)"
  shows "\<exists>msg. Reload y fs c p =
      Inr (Some (BroadcastFailed msg), p\<lparr>pr_heap := (pr_heap p)(c := reloaded_config cm (pr_heap p c))\<rparr>)"
proof -
  have "\<not> config_ok (reloaded_config cm (pr_heap p c))" using reload_default_file_invalid [OF assms(2)] by blast
  then obtain msg where "ValidateConfig (reloaded_config cm (pr_heap p c)) = Some msg"
    using ValidateConfig_iff by (metis not_None_eq)
  then show ?thesis
    using assms by (simp add: Reload_def UpdateConfig_def ConfigManager_ValidateConfig_def default_file_no_errors Let_def)
qed

definition sample_fs :: FileSystem where
  "sample_fs = \<lparr>fs_files = [(''novaairouter.yaml'', ''d'')], fs_mkdirOk = (\<lambda>_. True), fs_writeOk = (\<lambda>_. True)\<rparr>"

definition sample_cm :: ConfigManager where
  "sample_cm = \<lparr>cm_configPath = ''novaairouter.yaml'', cm_configFile = Some (default_file ''t'')\<rparr>"

lemma sample_load: "LoadConfig sample_yaml sample_fs (NewConfigManager ''novaairouter.yaml'') = (None, sample_cm)"
  by (simp add: LoadConfig_def sample_fs_def sample_yaml_def NewConfigManager_def sample_cm_def)

theorem reload_outcomes_witness:
  "\<exists>err p'. Reload sample_yaml sample_fs 0 (process_start (load_config sample_env) ''a'' ''b'') = Inr (err, p') \<and>
     cfg_NodeID (pr_heap p' 0) = cfg_NodeID (load_config sample_env)"
proof -
  let ?p = "process_start (load_config sample_env) ''a'' ''b''"
  obtain msg p' where r: "Reload sample_yaml sample_fs 0 ?p = Inr (Some (BroadcastFailed msg), p')"
    using reload_default_file [OF sample_load, of "''t''" 0 ?p] by (auto simp: sample_cm_def)
  have "pr_heap ?p 0 = load_config sample_env" by (simp add: process_start_def)
  then show ?thesis using r reload_outcomes [OF r sample_load] by auto
qed

end
