(* ===== verification/Logging.thy ===== *)
theory Logging
  imports Go_Strings
begin

text \<open>
  \<open>internal/logger/logger.go\<close>: the level and the output that the gateway logs with, and
  \<open>internal/accesslog/accesslog.go\<close>: the access log, one JSON object per line. The events themselves are
  written by a library. A file is its text; the JSON encoding of an entry is an argument.
\<close>

section \<open>Levels\<close>

datatype LogLevel = DebugLevel | InfoLevel | WarnLevel | ErrorLevel

definition parseLevel :: "string \<Rightarrow> LogLevel" where
  "parseLevel level =
     (if ToLower level = ''debug'' then DebugLevel
      else if ToLower level = ''info'' then InfoLevel
      else if ToLower level = ''warn'' then WarnLevel
      else if ToLower level = ''error'' then ErrorLevel
      else InfoLevel)"

text \<open>\<open>New\<close> sets the global level and takes the first writer, if it is there and not nil, as its output.\<close>

datatype 'w LogOutput = Stdout | Writer 'w

definition Logger_New :: "string \<Rightarrow> 'w option list \<Rightarrow> LogLevel \<times> 'w LogOutput" where
  "Logger_New level writers =
     (parseLevel level, case writers of Some w # _ \<Rightarrow> Writer w | _ \<Rightarrow> Stdout)"

definition SetLevel :: "string \<Rightarrow> LogLevel \<Rightarrow> LogLevel" where
  "SetLevel level old = parseLevel level"

text \<open>The level names of the configuration, in whatever case, and nothing else, select a level other than info.\<close>

lemma parseLevel_iff:
  "parseLevel s = DebugLevel \<longleftrightarrow> ToLower s = ''debug''"
  "parseLevel s = WarnLevel \<longleftrightarrow> ToLower s = ''warn''"
  "parseLevel s = ErrorLevel \<longleftrightarrow> ToLower s = ''error''"
  "parseLevel s = InfoLevel \<longleftrightarrow> ToLower s \<notin> {''debug'', ''warn'', ''error''}"
  by (auto simp: parseLevel_def)

lemma lower_char_idem [simp]: "lower_char (lower_char c) = lower_char c"
proof (cases "65 \<le> (of_char c :: nat) \<and> (of_char c :: nat) \<le> 90")
  case True
  then have "lower_char c = char_of ((of_char c :: nat) + 32)" by (simp add: lower_char_def)
  moreover have "(of_char (char_of ((of_char c :: nat) + 32)) :: nat) = of_char c + 32" using True by simp
  ultimately show ?thesis using True by (simp add: lower_char_def)
qed (auto simp: lower_char_def)

lemma parseLevel_ToLower: "parseLevel (ToLower s) = parseLevel s"
  by (simp add: parseLevel_def ToLower_def comp_def)

section \<open>The access log\<close>

record AccessEntry =
  ae_Timestamp :: int
  ae_Method :: string
  ae_Path :: string
  ae_StatusCode :: int
  ae_Duration :: int
  ae_ClientIP :: string
  ae_UserAgent :: string
  ae_BytesSent :: int
  ae_TargetNode :: string
  ae_TargetURL :: string

record AccessLogger =
  al_file :: string
  al_open :: bool

text \<open>
  Opening for append creates the file or keeps its text; \<open>None\<close> is a failure of the system call. A write
  to a closed file fails and its error is dropped.
\<close>

definition AccessLogger_New :: "string option \<Rightarrow> string + AccessLogger" where
  "AccessLogger_New opened =
     (case opened of None \<Rightarrow> Inl ''open'' | Some content \<Rightarrow> Inr \<lparr>al_file = content, al_open = True\<rparr>)"

definition file_Write :: "string \<Rightarrow> AccessLogger \<Rightarrow> AccessLogger" where
  "file_Write text a = (if al_open a then a\<lparr>al_file := al_file a @ text\<rparr> else a)"

definition AccessLogger_Log :: "(AccessEntry \<Rightarrow> string option) \<Rightarrow> AccessEntry \<Rightarrow> AccessLogger \<Rightarrow> AccessLogger" where
  "AccessLogger_Log marshal entry a =
     (case marshal entry of
        None \<Rightarrow> a
      | Some data \<Rightarrow> file_Write [CHR 0x0A] (file_Write data a))"

definition AccessLogger_Close :: "AccessLogger \<Rightarrow> AccessLogger" where
  "AccessLogger_Close a = a\<lparr>al_open := False\<rparr>"

text \<open>The complete lines of a file.\<close>

definition file_lines :: "string \<Rightarrow> string list" where
  "file_lines s = butlast (Split CHR 0x0A s)"

lemma file_lines_snoc:
  assumes "s = [] \<or> last s = CHR 0x0A" and "CHR 0x0A \<notin> set line"
  shows "file_lines (s @ line @ [CHR 0x0A]) = file_lines s @ [line]"
proof (cases "s = []")
  case True
  then show ?thesis using Split_append_sep [OF assms(2), of "[]"] by (simp add: file_lines_def)
next
  case False
  then obtain t where t: "s = t @ [CHR 0x0A]" using assms(1) by (metis append_butlast_last_id)
  have "Split CHR 0x0A (line @ [CHR 0x0A]) = [line, []]" using Split_append_sep [OF assms(2), of "[]"] by simp
  moreover have "Split CHR 0x0A (t @ CHR 0x0A # line @ [CHR 0x0A]) = Split CHR 0x0A t @ Split CHR 0x0A (line @ [CHR 0x0A])"
    by (rule Split_append)
  moreover have "Split CHR 0x0A (t @ [CHR 0x0A]) = Split CHR 0x0A t @ [[]]" using Split_append [of _ t "[]"] by simp
  ultimately show ?thesis by (simp add: file_lines_def t butlast_append)
qed

lemma Log_lines:
  assumes "al_file a = [] \<or> last (al_file a) = CHR 0x0A" and "al_open a"
    and "\<forall>e \<in> set es. \<forall>d. marshal e = Some d \<longrightarrow> CHR 0x0A \<notin> set d"
  shows "file_lines (al_file (fold (AccessLogger_Log marshal) es a)) = file_lines (al_file a) @ List.map_filter marshal es"
  using assms
proof (induction es arbitrary: a)
  case (Cons e es)
  show ?case
  proof (cases "marshal e")
    case None
    then show ?thesis using Cons by (simp add: AccessLogger_Log_def map_filter_simps)
  next
    case (Some d)
    let ?b = "AccessLogger_Log marshal e a"
    have b: "al_file ?b = al_file a @ d @ [CHR 0x0A]" "al_open ?b"
      using Some Cons.prems(2) by (simp_all add: AccessLogger_Log_def file_Write_def)
    have "file_lines (al_file ?b) = file_lines (al_file a) @ [d]"
      unfolding b(1) using file_lines_snoc [OF Cons.prems(1)] Cons.prems(3) Some by simp
    then show ?thesis using Cons.IH [of ?b] Cons.prems(3) b Some by (simp add: map_filter_simps)
  qed
qed (simp add: map_filter_simps)

lemma Log_after_Close: "AccessLogger_Log marshal e (AccessLogger_Close a) = AccessLogger_Close a"
  by (simp add: AccessLogger_Log_def AccessLogger_Close_def file_Write_def split: option.split)

text \<open>
  The access log can be read back. On a file that was empty or ended with a line, the entries logged through one
  logger are, after the earlier lines, the lines of the file, in the order of the calls, each decoding to its entry, for a
  JSON codec that encodes these entries without a line break and decodes what it encoded. After \<open>Close\<close> nothing is added.
\<close>

theorem access_log_roundtrip:
  assumes "AccessLogger_New (Some content) = Inr a" and "content = [] \<or> last content = CHR 0x0A"
    and codec: "\<forall>e \<in> set es. \<exists>d. marshal e = Some d \<and> CHR 0x0A \<notin> set d \<and> unmarshal d = Some e"
    and a': "a' = AccessLogger_Close (fold (AccessLogger_Log marshal) es a)"
  shows "\<exists>lines. file_lines (al_file (fold (AccessLogger_Log marshal) late a')) = file_lines content @ lines \<and>
    map unmarshal lines = map Some es"
proof -
  have a: "al_file a = content" "al_open a" using assms(1) by (auto simp: AccessLogger_New_def)
  have "fold (AccessLogger_Log marshal) late a' = a'"
    by (induction late) (simp_all add: a' Log_after_Close)
  moreover have "file_lines (al_file a') = file_lines content @ List.map_filter marshal es"
    using Log_lines [of a es marshal] assms(2) a codec by (fastforce simp: a' AccessLogger_Close_def)
  moreover have "map unmarshal (List.map_filter marshal es) = map Some es"
    using codec by (induction es) (auto simp: map_filter_simps)
  ultimately show ?thesis by auto
qed

definition sample_entry :: AccessEntry where
  "sample_entry =
     \<lparr>ae_Timestamp = 0, ae_Method = ''GET'', ae_Path = ''/a'', ae_StatusCode = 200, ae_Duration = 3, ae_ClientIP = ''10.0.0.9'',
      ae_UserAgent = '''', ae_BytesSent = 12, ae_TargetNode = '''', ae_TargetURL = ''''\<rparr>"

theorem access_log_roundtrip_witness:
  "\<exists>lines. file_lines (al_file (AccessLogger_Close (fold (AccessLogger_Log (\<lambda>e. Some (ae_Path e))) [sample_entry, sample_entry]
       \<lparr>al_file = ''old'' @ [CHR 0x0A], al_open = True\<rparr>))) = ''old'' # lines \<and>
     map (\<lambda>d. if d = ''/a'' then Some sample_entry else None) lines = [Some sample_entry, Some sample_entry]"
proof -
  have "file_lines (''old'' @ [CHR 0x0A]) = [''old'']" by (simp add: file_lines_def)
  then show ?thesis
    using access_log_roundtrip [of "''old'' @ [CHR 0x0A]" "\<lparr>al_file = ''old'' @ [CHR 0x0A], al_open = True\<rparr>"
        "[sample_entry, sample_entry]" "\<lambda>e. Some (ae_Path e)" "\<lambda>d. if d = ''/a'' then Some sample_entry else None" _ "[]"]
    by (simp add: AccessLogger_New_def sample_entry_def)
qed

end
