(* ===== verification/Service_Manager.thy ===== *)
theory Service_Manager
  imports Gateway Config_Center Admin Logging
begin

text \<open>
  The life of the gateway's two HTTP servers (\<open>cmd/gateway/main.go\<close>: \<open>ServiceManager\<close>, the monitor and the signal
  loop of \<open>runGateway\<close>; \<open>Start\<close> and \<open>Shutdown\<close> of \<open>internal/admin/server.go\<close> and \<open>internal/business/server.go\<close>).
  The main function, the monitor and the goroutines that run the servers are interleaved in every way. Whether the
  operating system lets an address be listened on is left open, except that no address is given out twice.
\<close>

declare map_of_eq_Some_iff [simp del] Some_eq_map_of_iff [simp del]

section \<open>State\<close>

datatype Service = AdminSvc | BusinessSvc

text \<open>
  An \<open>http.Server\<close> together with the goroutine that runs it: built and about to serve, serving, or returned. The
  admin server opens its listener when it serves, the business server is built around an open one. A
  \<open>Shutdown\<close> closes the listener of a serving server; one that is not serving yet returns at once when it
  tries to, and only then closes the listener it was built with.
\<close>

datatype ServerPhase = Built | Serving | Returned

record HttpServer =
  hs_Addr :: string
  hs_handler :: Service
  hs_closed :: bool
  hs_phase :: ServerPhase

definition listening :: "HttpServer \<Rightarrow> bool" where
  "listening srv \<longleftrightarrow>
     (case hs_phase srv of Built \<Rightarrow> hs_handler srv = BusinessSvc | Serving \<Rightarrow> \<not> hs_closed srv | Returned \<Rightarrow> False)"

text \<open>Where \<open>runGateway\<close> is once it waits for signals, and where the monitor is in a round of restarts.\<close>

datatype MainState = SignalLoop | AdminStopped | ServersStopped | AllReturned | CenterStopped | Returning | MainExited | MainCrashed

datatype MonitorState = Watching | AdminDown | AdminSpawned | BusinessDown

text \<open>
  \<open>sm_pending\<close> are the goroutines that have been started and have not run yet, \<open>sm_sweepers\<close> counts the goroutines
  that sweep stale endpoints, which never end, and \<open>sm_gossipDone\<close> says that the channel of the gossip server is closed.
\<close>

record ServiceManager =
  sm_servers :: "HttpServer list"
  sm_adminServer :: "nat option"
  sm_businessServer :: "nat option"
  sm_pending :: "Service list"
  sm_wg :: int
  sm_sweepers :: nat
  sm_main :: MainState
  sm_monitor :: MonitorState
  sm_center :: ConfigCenterImpl
  sm_gossipDone :: bool

section \<open>Operations\<close>

definition NewServiceManager :: "ConfigCenterImpl \<Rightarrow> ServiceManager" where
  "NewServiceManager cc =
     \<lparr>sm_servers = [], sm_adminServer = None, sm_businessServer = None, sm_pending = [], sm_wg = 0, sm_sweepers = 0,
      sm_main = SignalLoop, sm_monitor = Watching, sm_center = cc, sm_gossipDone = False\<rparr>"

definition go_start :: "Service \<Rightarrow> ServiceManager \<Rightarrow> ServiceManager" where
  "go_start svc sm = sm\<lparr>sm_wg := sm_wg sm + 1, sm_pending := sm_pending sm @ [svc]\<rparr>"

definition StartAll :: "ServiceManager \<Rightarrow> ServiceManager" where
  "StartAll sm = go_start BusinessSvc (go_start AdminSvc sm)"

definition close_server :: "nat option \<Rightarrow> ServiceManager \<Rightarrow> ServiceManager" where
  "close_server server sm =
     (case server of
        Some i \<Rightarrow> sm\<lparr>sm_servers := (sm_servers sm)[i := (sm_servers sm ! i)\<lparr>hs_closed := True\<rparr>]\<rparr>
      | None \<Rightarrow> sm)"

definition AdminServer_Shutdown :: "ServiceManager \<Rightarrow> ServiceManager" where
  "AdminServer_Shutdown sm = close_server (sm_adminServer sm) sm"

definition BusinessServer_Shutdown :: "ServiceManager \<Rightarrow> ServiceManager" where
  "BusinessServer_Shutdown sm = close_server (sm_businessServer sm) sm"

definition service_addr :: "Config \<Rightarrow> Service \<Rightarrow> string" where
  "service_addr config svc = (case svc of AdminSvc \<Rightarrow> admin_listen_addr config | BusinessSvc \<Rightarrow> cfg_ListenAddr config)"

text \<open>The first part of \<open>Start\<close>: the server is made and becomes the current one; the admin server starts its sweeper.\<close>

definition build_server :: "Config \<Rightarrow> Service \<Rightarrow> ServiceManager \<Rightarrow> ServiceManager" where
  "build_server config svc sm =
     (let sm' = sm\<lparr>sm_servers := sm_servers sm @
                     [\<lparr>hs_Addr = service_addr config svc, hs_handler = svc, hs_closed = False, hs_phase = Built\<rparr>]\<rparr>;
          i = length (sm_servers sm)
      in case svc of
           AdminSvc \<Rightarrow> sm'\<lparr>sm_adminServer := Some i, sm_sweepers := Suc (sm_sweepers sm)\<rparr>
         | BusinessSvc \<Rightarrow> sm'\<lparr>sm_businessServer := Some i\<rparr>)"

definition set_phase :: "nat \<Rightarrow> ServerPhase \<Rightarrow> ServiceManager \<Rightarrow> ServiceManager" where
  "set_phase i ph sm = sm\<lparr>sm_servers := (sm_servers sm)[i := (sm_servers sm ! i)\<lparr>hs_phase := ph\<rparr>]\<rparr>"

text \<open>The end of \<open>Start\<close> and the deferred \<open>wg.Done\<close>.\<close>

definition server_return :: "nat \<Rightarrow> ServiceManager \<Rightarrow> ServiceManager" where
  "server_return i sm = (set_phase i Returned sm)\<lparr>sm_wg := sm_wg sm - 1\<rparr>"

definition addr_free :: "string \<Rightarrow> ServiceManager \<Rightarrow> bool" where
  "addr_free addr sm \<longleftrightarrow> (\<forall>srv \<in> set (sm_servers sm). listening srv \<longrightarrow> hs_Addr srv \<noteq> addr)"

text \<open>
  Whether the health check of the monitor is answered: an admin server is serving on the address the
  monitor was given, which is that of the configuration at the start.
\<close>

definition admin_answers :: "Config \<Rightarrow> ServiceManager \<Rightarrow> bool" where
  "admin_answers config sm \<longleftrightarrow>
     (\<exists>srv \<in> set (sm_servers sm). hs_handler srv = AdminSvc \<and> hs_Addr srv = admin_listen_addr config \<and>
        hs_phase srv = Serving \<and> \<not> hs_closed srv)"

section \<open>Steps\<close>

text \<open>
  The goroutines. \<open>ListenAndServe\<close> of the admin server fails when the server was shut down, when the address is
  taken, or for a reason of the operating system; the business server listens before it is built. Each server
  is built from the configuration of that moment, which a reload may have changed.
\<close>

inductive go_step :: "ServiceManager \<Rightarrow> ServiceManager \<Rightarrow> bool" where
  admin_build: "AdminSvc \<in> set (sm_pending sm) \<Longrightarrow>
    go_step sm (build_server config AdminSvc (sm\<lparr>sm_pending := remove1 AdminSvc (sm_pending sm)\<rparr>))"
| admin_serve: "i < length (sm_servers sm) \<Longrightarrow> sm_servers sm ! i = srv \<Longrightarrow> hs_handler srv = AdminSvc \<Longrightarrow> hs_phase srv = Built \<Longrightarrow>
    \<not> hs_closed srv \<Longrightarrow> addr_free (hs_Addr srv) sm \<Longrightarrow> go_step sm (set_phase i Serving sm)"
| admin_fail: "i < length (sm_servers sm) \<Longrightarrow> sm_servers sm ! i = srv \<Longrightarrow> hs_handler srv = AdminSvc \<Longrightarrow> hs_phase srv = Built \<Longrightarrow>
    go_step sm (server_return i sm)"
| business_build: "BusinessSvc \<in> set (sm_pending sm) \<Longrightarrow> addr_free (cfg_ListenAddr config) sm \<Longrightarrow>
    go_step sm (build_server config BusinessSvc (sm\<lparr>sm_pending := remove1 BusinessSvc (sm_pending sm)\<rparr>))"
| business_fail: "BusinessSvc \<in> set (sm_pending sm) \<Longrightarrow>
    go_step sm (sm\<lparr>sm_pending := remove1 BusinessSvc (sm_pending sm), sm_wg := sm_wg sm - 1\<rparr>)"
| business_serve: "i < length (sm_servers sm) \<Longrightarrow> sm_servers sm ! i = srv \<Longrightarrow> hs_handler srv = BusinessSvc \<Longrightarrow> hs_phase srv = Built \<Longrightarrow>
    \<not> hs_closed srv \<Longrightarrow> go_step sm (set_phase i Serving sm)"
| business_closed: "i < length (sm_servers sm) \<Longrightarrow> sm_servers sm ! i = srv \<Longrightarrow> hs_handler srv = BusinessSvc \<Longrightarrow> hs_phase srv = Built \<Longrightarrow>
    hs_closed srv \<Longrightarrow> go_step sm (server_return i sm)"
| serve_return: "i < length (sm_servers sm) \<Longrightarrow> sm_servers sm ! i = srv \<Longrightarrow> hs_phase srv = Serving \<Longrightarrow> hs_closed srv \<Longrightarrow>
    go_step sm (server_return i sm)"

text \<open>
  The main function after a signal to stop: \<open>StopAll\<close>, which ends by waiting for the goroutines, then the
  shutdown of the centre and of gossip, then the deferred calls, which repeat both.
\<close>

inductive main_step :: "ServiceManager \<Rightarrow> ServiceManager \<Rightarrow> bool" where
  stop_signal: "sm_main sm = SignalLoop \<Longrightarrow> main_step sm ((AdminServer_Shutdown sm)\<lparr>sm_main := AdminStopped\<rparr>)"
| stop_business: "sm_main sm = AdminStopped \<Longrightarrow> main_step sm ((BusinessServer_Shutdown sm)\<lparr>sm_main := ServersStopped\<rparr>)"
| wait: "sm_main sm = ServersStopped \<Longrightarrow> sm_wg sm = 0 \<Longrightarrow> main_step sm (sm\<lparr>sm_main := AllReturned\<rparr>)"
| center: "sm_main sm = AllReturned \<Longrightarrow>
    main_step sm (sm\<lparr>sm_center := ConfigCenter_Shutdown (sm_center sm), sm_main := CenterStopped\<rparr>)"
| gossip: "sm_main sm = CenterStopped \<Longrightarrow> GossipServer_Shutdown config (sm_gossipDone sm) sync = (posts, Some d) \<Longrightarrow>
    main_step sm (sm\<lparr>sm_gossipDone := d, sm_main := Returning\<rparr>)"
| gossip_panic: "sm_main sm = CenterStopped \<Longrightarrow> GossipServer_Shutdown config (sm_gossipDone sm) sync = (posts, None) \<Longrightarrow>
    main_step sm (sm\<lparr>sm_main := MainCrashed\<rparr>)"
| deferred: "sm_main sm = Returning \<Longrightarrow> GossipServer_Shutdown config (sm_gossipDone sm) sync = (posts, Some d) \<Longrightarrow>
    main_step sm (sm\<lparr>sm_center := ConfigCenter_Shutdown (sm_center sm), sm_gossipDone := d, sm_main := MainExited\<rparr>)"
| deferred_panic: "sm_main sm = Returning \<Longrightarrow> GossipServer_Shutdown config (sm_gossipDone sm) sync = (posts, None) \<Longrightarrow>
    main_step sm (sm\<lparr>sm_center := ConfigCenter_Shutdown (sm_center sm), sm_main := MainCrashed\<rparr>)"

text \<open>
  The monitor: a health check that fails starts \<open>RestartAdmin\<close> and \<open>RestartBusiness\<close>. With \<open>flaky\<close> a check may fail
  although a server is serving, for example by its time-out.
\<close>

inductive monitor_step :: "bool \<Rightarrow> Config \<Rightarrow> ServiceManager \<Rightarrow> ServiceManager \<Rightarrow> bool" for flaky :: bool and config :: Config where
  unhealthy: "sm_monitor sm = Watching \<Longrightarrow> flaky \<or> \<not> admin_answers config sm \<Longrightarrow>
    monitor_step flaky config sm ((AdminServer_Shutdown sm)\<lparr>sm_monitor := AdminDown\<rparr>)"
| spawn_admin: "sm_monitor sm = AdminDown \<Longrightarrow> monitor_step flaky config sm ((go_start AdminSvc sm)\<lparr>sm_monitor := AdminSpawned\<rparr>)"
| restart_business: "sm_monitor sm = AdminSpawned \<Longrightarrow>
    monitor_step flaky config sm ((BusinessServer_Shutdown sm)\<lparr>sm_monitor := BusinessDown\<rparr>)"
| spawn_business: "sm_monitor sm = BusinessDown \<Longrightarrow> monitor_step flaky config sm ((go_start BusinessSvc sm)\<lparr>sm_monitor := Watching\<rparr>)"

definition ended :: "ServiceManager \<Rightarrow> bool" where
  "ended sm \<longleftrightarrow> sm_main sm \<in> {MainExited, MainCrashed}"

inductive svc_step :: "bool \<Rightarrow> Config \<Rightarrow> ServiceManager \<Rightarrow> ServiceManager \<Rightarrow> bool" for flaky :: bool and config :: Config where
  svc_go: "\<not> ended sm \<Longrightarrow> go_step sm sm' \<Longrightarrow> svc_step flaky config sm sm'"
| svc_main: "\<not> ended sm \<Longrightarrow> main_step sm sm' \<Longrightarrow> svc_step flaky config sm sm'"
| svc_monitor: "\<not> ended sm \<Longrightarrow> monitor_step flaky config sm sm' \<Longrightarrow> svc_step flaky config sm sm'"

inductive_cases go_stepE: "go_step sm sm'"
inductive_cases main_stepE: "main_step sm sm'"
inductive_cases monitor_stepE: "monitor_step flaky config sm sm'"
inductive_cases svc_stepE: "svc_step flaky config sm sm'"

definition services_started :: "ServiceManager \<Rightarrow> bool" where
  "services_started sm \<longleftrightarrow> (\<exists>cc. sm = StartAll (NewServiceManager cc))"

section \<open>Invariant\<close>

definition running :: "HttpServer \<Rightarrow> bool" where
  "running srv \<longleftrightarrow> hs_phase srv \<noteq> Returned"

definition live :: "ServiceManager \<Rightarrow> nat" where
  "live sm = length (sm_pending sm) + length (filter running (sm_servers sm))"

definition current_ok :: "HttpServer list \<Rightarrow> Service \<Rightarrow> nat option \<Rightarrow> bool" where
  "current_ok srvs svc server \<longleftrightarrow> (case server of None \<Rightarrow> True | Some i \<Rightarrow> i < length srvs \<and> hs_handler (srvs ! i) = svc)"

definition addrs_exclusive :: "HttpServer list \<Rightarrow> bool" where
  "addrs_exclusive srvs \<longleftrightarrow>
     (\<forall>i < length srvs. \<forall>j < length srvs. i \<noteq> j \<and> listening (srvs ! i) \<and> listening (srvs ! j) \<longrightarrow>
        hs_Addr (srvs ! i) \<noteq> hs_Addr (srvs ! j))"

definition svc_inv :: "ServiceManager \<Rightarrow> bool" where
  "svc_inv sm \<longleftrightarrow>
     sm_wg sm = int (live sm) \<and>
     sm_sweepers sm = length (filter (\<lambda>srv. hs_handler srv = AdminSvc) (sm_servers sm)) \<and>
     addrs_exclusive (sm_servers sm) \<and>
     current_ok (sm_servers sm) AdminSvc (sm_adminServer sm) \<and> current_ok (sm_servers sm) BusinessSvc (sm_businessServer sm) \<and>
     (sm_gossipDone sm \<longleftrightarrow> sm_main sm \<in> {Returning, MainExited, MainCrashed}) \<and> sm_main sm \<noteq> MainExited"

lemmas server_ops = close_server_def AdminServer_Shutdown_def BusinessServer_Shutdown_def go_start_def build_server_def
  set_phase_def server_return_def

lemma addrs_exclusive_update:
  assumes "addrs_exclusive srvs" and "i < length srvs" and "hs_Addr srv = hs_Addr (srvs ! i)"
    and "listening srv \<longrightarrow> listening (srvs ! i) \<or> (\<forall>s \<in> set srvs. listening s \<longrightarrow> hs_Addr s \<noteq> hs_Addr srv)"
  shows "addrs_exclusive (srvs[i := srv])"
  using assms unfolding addrs_exclusive_def
  by (simp add: nth_list_update) (metis nth_mem)

lemma addrs_exclusive_snoc:
  assumes "addrs_exclusive srvs" and "listening srv \<longrightarrow> (\<forall>s \<in> set srvs. listening s \<longrightarrow> hs_Addr s \<noteq> hs_Addr srv)"
  shows "addrs_exclusive (srvs @ [srv])"
  using assms unfolding addrs_exclusive_def
  by (simp add: nth_append) (metis nth_mem less_antisym)

lemma current_ok_update:
  "current_ok srvs svc server \<Longrightarrow> hs_handler srv = hs_handler (srvs ! i) \<Longrightarrow> current_ok (srvs[i := srv]) svc server"
  by (cases "i < length srvs") (auto simp: current_ok_def nth_list_update list_update_beyond split: option.splits)

lemma current_ok_new [simp]: "current_ok (srvs @ [srv]) svc (Some (length srvs)) \<longleftrightarrow> hs_handler srv = svc"
  by (simp add: current_ok_def)

lemma current_ok_snoc: "current_ok srvs svc server \<Longrightarrow> current_ok (srvs @ [srv]) svc server"
  by (auto simp: current_ok_def nth_append split: option.splits)

lemma length_filter_update:
  assumes "i < length xs"
  shows "int (length (filter P (xs[i := x]))) =
    int (length (filter P xs)) + (if P x then 1 else 0) - (if P (xs ! i) then 1 else 0)"
  using count_update [OF assms, where ?'a = int and P = P and x = x] by simp

lemma length_filter_update_same:
  assumes "P x = P (xs ! i)"
  shows "length (filter P (xs[i := x])) = length (filter P xs)"
  using assms length_filter_update [of i xs P x] by (cases "i < length xs") (auto simp: list_update_beyond)

lemma close_server_simps [simp]:
  "length (sm_servers (close_server server sm)) = length (sm_servers sm)"
  "sm_adminServer (close_server server sm) = sm_adminServer sm" "sm_businessServer (close_server server sm) = sm_businessServer sm"
  "sm_pending (close_server server sm) = sm_pending sm" "sm_main (close_server server sm) = sm_main sm"
  by (simp_all add: close_server_def split: option.splits)

lemma close_server_nth:
  "j < length (sm_servers sm) \<Longrightarrow>
   sm_servers (close_server server sm) ! j = (if server = Some j then (sm_servers sm ! j)\<lparr>hs_closed := True\<rparr> else sm_servers sm ! j)"
  by (auto simp: close_server_def nth_list_update split: option.splits)

lemma svc_inv_idle:
  assumes "svc_inv sm"
  shows "sm_wg sm = 0 \<longleftrightarrow> sm_pending sm = [] \<and> (\<forall>srv \<in> set (sm_servers sm). \<not> running srv)"
proof -
  have "sm_wg sm = int (live sm)" using assms by (simp add: svc_inv_def)
  then show ?thesis by (auto simp: live_def filter_empty_conv simp flip: of_nat_add)
qed

lemma svc_inv_close:
  assumes "svc_inv sm" and "server = sm_adminServer sm \<or> server = sm_businessServer sm"
  shows "svc_inv (close_server server sm)"
proof (cases server)
  case (Some i)
  then have "i < length (sm_servers sm)"
    using assms by (auto simp: svc_inv_def current_ok_def split: option.splits)
  moreover have "listening (srv\<lparr>hs_closed := True\<rparr>) \<longrightarrow> listening srv" for srv
    by (auto simp: listening_def split: ServerPhase.splits)
  ultimately have "addrs_exclusive ((sm_servers sm)[i := (sm_servers sm ! i)\<lparr>hs_closed := True\<rparr>])"
    using assms(1) by (intro addrs_exclusive_update) (auto simp: svc_inv_def)
  then show ?thesis
    using assms(1) Some
    by (simp add: svc_inv_def close_server_def live_def running_def length_filter_update_same current_ok_update)
qed (use assms(1) in \<open>simp add: close_server_def\<close>)

lemma svc_inv_go_start: "svc_inv sm \<Longrightarrow> svc_inv (go_start svc sm)"
  by (simp add: svc_inv_def go_start_def live_def)

lemma length_remove1_Suc: "x \<in> set xs \<Longrightarrow> length xs = Suc (length (remove1 x xs))"
  using length_pos_if_in_set [of x xs] by (simp add: length_remove1)

lemma svc_inv_build:
  assumes inv: "svc_inv sm" and pend: "svc \<in> set (sm_pending sm)"
    and free: "svc = BusinessSvc \<Longrightarrow> addr_free (cfg_ListenAddr config) sm"
  shows "svc_inv (build_server config svc (sm\<lparr>sm_pending := remove1 svc (sm_pending sm)\<rparr>))"
proof -
  let ?srv = "\<lparr>hs_Addr = service_addr config svc, hs_handler = svc, hs_closed = False, hs_phase = Built\<rparr>"
  have "addrs_exclusive (sm_servers sm @ [?srv])"
  proof (rule addrs_exclusive_snoc)
    show "addrs_exclusive (sm_servers sm)" using inv by (simp add: svc_inv_def)
    show "listening ?srv \<longrightarrow> (\<forall>s \<in> set (sm_servers sm). listening s \<longrightarrow> hs_Addr s \<noteq> hs_Addr ?srv)"
      using free by (auto simp: listening_def addr_free_def service_addr_def)
  qed
  moreover note length_remove1_Suc [OF pend]
  ultimately show ?thesis
    using inv by (cases svc) (simp_all add: svc_inv_def build_server_def Let_def live_def running_def current_ok_snoc)
qed

lemma svc_inv_return:
  assumes inv: "svc_inv sm" and i: "i < length (sm_servers sm)" "running (sm_servers sm ! i)"
  shows "svc_inv (server_return i sm)"
proof -
  let ?srv = "(sm_servers sm ! i)\<lparr>hs_phase := Returned\<rparr>"
  have "addrs_exclusive ((sm_servers sm)[i := ?srv])"
    using inv i(1) by (intro addrs_exclusive_update) (auto simp: svc_inv_def listening_def)
  moreover have "\<not> running ?srv" by (simp add: running_def)
  ultimately show ?thesis
    using inv i
    by (simp add: svc_inv_def server_return_def set_phase_def live_def length_filter_update length_filter_update_same current_ok_update)
qed

lemma svc_inv_serve:
  assumes inv: "svc_inv sm" and i: "i < length (sm_servers sm)" "hs_phase (sm_servers sm ! i) = Built"
    and "listening (sm_servers sm ! i) \<or> addr_free (hs_Addr (sm_servers sm ! i)) sm"
  shows "svc_inv (set_phase i Serving sm)"
proof -
  have "addrs_exclusive ((sm_servers sm)[i := (sm_servers sm ! i)\<lparr>hs_phase := Serving\<rparr>])"
    using assms by (intro addrs_exclusive_update) (auto simp: svc_inv_def addr_free_def)
  then show ?thesis
    using inv i
    by (simp add: svc_inv_def set_phase_def live_def running_def length_filter_update_same current_ok_update)
qed

lemma svc_inv_go: "go_step sm sm' \<Longrightarrow> svc_inv sm \<Longrightarrow> svc_inv sm'"
proof (induction rule: go_step.induct)
  case (business_fail sm)
  then show ?case using length_remove1_Suc [OF business_fail(1)] by (simp add: svc_inv_def live_def)
qed (auto intro!: svc_inv_build svc_inv_return svc_inv_serve simp: running_def listening_def)

lemma svc_inv_main: "main_step sm sm' \<Longrightarrow> svc_inv sm \<Longrightarrow> svc_inv sm'"
proof (induction rule: main_step.induct)
  case (stop_signal sm)
  then show ?case using svc_inv_close [of sm] by (simp add: svc_inv_def live_def AdminServer_Shutdown_def close_server_def split: option.splits)
next
  case (stop_business sm)
  then show ?case using svc_inv_close [of sm] by (simp add: svc_inv_def live_def BusinessServer_Shutdown_def close_server_def split: option.splits)
qed (auto simp: svc_inv_def live_def GossipServer_Shutdown_def split: if_splits)

lemma svc_inv_monitor_state: "svc_inv (sm\<lparr>sm_monitor := m\<rparr>) = svc_inv sm"
  by (simp add: svc_inv_def live_def)

lemma svc_inv_monitor: "monitor_step flaky config sm sm' \<Longrightarrow> svc_inv sm \<Longrightarrow> svc_inv sm'"
  by (induction rule: monitor_step.induct)
    (simp_all add: svc_inv_monitor_state AdminServer_Shutdown_def BusinessServer_Shutdown_def svc_inv_close svc_inv_go_start)

interpretation svc_sys: invariant_system services_started "svc_step flaky config" svc_inv for flaky config
proof
  show "svc_inv sm" if "services_started sm" for sm
    using that by (auto simp: services_started_def StartAll_def NewServiceManager_def svc_inv_def live_def go_start_def
        addrs_exclusive_def current_ok_def)
  show "svc_inv sm'" if "svc_inv sm" and "svc_step flaky config sm sm'" for sm sm'
    using that(2,1) by (cases rule: svc_step.cases) (auto intro: svc_inv_go svc_inv_main svc_inv_monitor)
qed

section \<open>Stopping\<close>

text \<open>
  C20: The books of the service manager in every reachable state, whatever the monitor restarts. The wait
  group counts exactly the goroutines that have not returned; no two servers listen on the same address; every
  admin server ever built has left a sweeping goroutine behind; when \<open>StopAll\<close> returns, nothing listens any more; and the program
  never ends by returning from \<open>runGateway\<close>: the deferred shutdown of gossip closes a closed channel and panics.
\<close>

theorem services_books:
  assumes "reach services_started (svc_step flaky config) sm"
  shows "sm_wg sm = int (length (sm_pending sm) + length (filter running (sm_servers sm))) \<and>
    (\<forall>i < length (sm_servers sm). \<forall>j < length (sm_servers sm).
       i \<noteq> j \<and> listening (sm_servers sm ! i) \<and> listening (sm_servers sm ! j) \<longrightarrow> hs_Addr (sm_servers sm ! i) \<noteq> hs_Addr (sm_servers sm ! j)) \<and>
    sm_sweepers sm = length (filter (\<lambda>srv. hs_handler srv = AdminSvc) (sm_servers sm)) \<and>
    (\<forall>sm'. main_step sm sm' \<and> sm_main sm' = AllReturned \<longrightarrow> (\<forall>srv \<in> set (sm_servers sm'). \<not> listening srv)) \<and>
    sm_main sm \<noteq> MainExited \<and> (\<forall>sm'. main_step sm sm' \<and> sm_main sm = Returning \<longrightarrow> sm_main sm' = MainCrashed)"
proof -
  have inv: "svc_inv sm" by (rule svc_sys.reach_inv [OF assms])
  have "\<not> listening srv" if "main_step sm sm'" and "sm_main sm' = AllReturned" and "srv \<in> set (sm_servers sm')" for sm' srv
  proof -
    have "sm_servers sm' = sm_servers sm" "sm_wg sm = 0" using that(1,2) by (auto elim: main_stepE simp: server_ops split: option.splits)
    then have "\<not> running srv" using svc_inv_idle [OF inv] that(3) by simp
    then show ?thesis by (simp add: running_def listening_def)
  qed
  moreover have "sm_main sm' = MainCrashed" if "main_step sm sm'" and "sm_main sm = Returning" for sm'
    using that inv by (auto elim!: main_stepE simp: svc_inv_def GossipServer_Shutdown_def)
  ultimately show ?thesis using inv unfolding svc_inv_def live_def addrs_exclusive_def by auto
qed

text \<open>How many steps the goroutines have left once every server is shut down.\<close>

definition go_left :: "ServiceManager \<Rightarrow> nat" where
  "go_left sm = length (filter running (sm_servers sm))"

definition all_closed :: "ServiceManager \<Rightarrow> bool" where
  "all_closed sm \<longleftrightarrow> sm_pending sm = [] \<and> (\<forall>srv \<in> set (sm_servers sm). running srv \<longrightarrow> hs_closed srv)"

lemma go_step_all_closed:
  assumes "all_closed sm" and "go_step sm sm'"
  shows "all_closed sm' \<and> go_left sm = Suc (go_left sm') \<and> sm_main sm' = sm_main sm"
proof -
  have "\<exists>i. i < length (sm_servers sm) \<and> running (sm_servers sm ! i) \<and> sm' = server_return i sm"
    using assms(2,1)
  proof (induction rule: go_step.induct)
    case (admin_serve i sm srv)
    then show ?case using nth_mem [of i "sm_servers sm"] by (auto simp: all_closed_def running_def)
  next
    case (business_serve i sm srv)
    then show ?case using nth_mem [of i "sm_servers sm"] by (auto simp: all_closed_def running_def)
  qed (auto simp: all_closed_def running_def)
  then obtain i where i: "i < length (sm_servers sm)" "running (sm_servers sm ! i)" and sm': "sm' = server_return i sm" by blast
  let ?srv = "(sm_servers sm ! i)\<lparr>hs_phase := Returned\<rparr>"
  have "\<not> running ?srv" by (simp add: running_def)
  then have "go_left sm = Suc (go_left sm')"
    using length_filter_update [OF i(1), of running ?srv] i(2) by (simp add: go_left_def sm' server_return_def set_phase_def)
  moreover have "all_closed sm'"
    using assms(1) \<open>\<not> running ?srv\<close> set_update_subset_insert [of "sm_servers sm" i ?srv]
    by (auto simp: all_closed_def sm' server_return_def set_phase_def)
  ultimately show ?thesis by (simp add: sm' server_return_def set_phase_def)
qed

lemma go_step_exists:
  assumes "all_closed sm" and "go_left sm \<noteq> 0"
  shows "\<exists>sm'. go_step sm sm'"
proof -
  obtain i where i: "i < length (sm_servers sm)" "running (sm_servers sm ! i)"
    using assms(2) by (auto simp: go_left_def filter_empty_conv in_set_conv_nth)
  then have "hs_closed (sm_servers sm ! i)" using assms(1) by (auto simp: all_closed_def)
  then show ?thesis
    using i by (cases "hs_phase (sm_servers sm ! i)"; cases "hs_handler (sm_servers sm ! i)")
      (auto simp: running_def intro: go_step.intros)
qed

lemma go_run_all_closed:
  assumes "(go_step ^^ n) sm sm'" and "svc_inv sm" and "all_closed sm"
  shows "svc_inv sm' \<and> all_closed sm' \<and> sm_main sm' = sm_main sm \<and> n + go_left sm' = go_left sm"
  using assms(1)
proof (induction n arbitrary: sm')
  case 0
  then show ?case using assms(2,3) by simp
next
  case (Suc n)
  then obtain t where t: "(go_step ^^ n) sm t" "go_step t sm'" by auto
  then show ?case using Suc.IH [OF t(1)] go_step_all_closed [of t sm'] svc_inv_go [OF t(2)] by auto
qed

lemma stopped_state:
  assumes inv: "svc_inv sm" and "sm_main sm = SignalLoop" and "sm_pending sm = []"
    and current: "\<And>i. i < length (sm_servers sm) \<Longrightarrow> running (sm_servers sm ! i) \<Longrightarrow> Some i \<in> {sm_adminServer sm, sm_businessServer sm}"
    and stopped: "stopped = (BusinessServer_Shutdown (AdminServer_Shutdown sm))\<lparr>sm_main := ServersStopped\<rparr>"
  shows "svc_inv stopped" and "all_closed stopped" and "go_left stopped = length (filter running (sm_servers sm))"
proof -
  note shutdown_defs = AdminServer_Shutdown_def BusinessServer_Shutdown_def
  have "main_step sm ((AdminServer_Shutdown sm)\<lparr>sm_main := AdminStopped\<rparr>)" by (rule stop_signal) fact
  moreover have "main_step ((AdminServer_Shutdown sm)\<lparr>sm_main := AdminStopped\<rparr>) stopped"
    using stop_business [of "(AdminServer_Shutdown sm)\<lparr>sm_main := AdminStopped\<rparr>"]
    by (simp add: stopped shutdown_defs close_server_def split: option.splits)
  ultimately show "svc_inv stopped" using inv svc_inv_main by blast
  show "go_left stopped = length (filter running (sm_servers sm))"
    by (simp add: go_left_def stopped shutdown_defs close_server_def length_filter_update_same running_def split: option.splits)
  show "all_closed stopped"
    unfolding all_closed_def
  proof (intro conjI ballI impI)
    show "sm_pending stopped = []" using assms(3) by (simp add: stopped shutdown_defs)
    fix srv assume "srv \<in> set (sm_servers stopped)" and r: "running srv"
    then obtain i where i: "i < length (sm_servers sm)" "srv = sm_servers stopped ! i"
      by (auto simp: stopped shutdown_defs in_set_conv_nth)
    then have "running (sm_servers sm ! i)"
      using r by (auto simp: stopped shutdown_defs close_server_nth running_def split: if_splits)
    then show "hs_closed srv" using current [OF i(1)] i by (auto simp: stopped shutdown_defs close_server_nth)
  qed
qed

text \<open>
  C22: \<open>StopAll\<close> returns when the monitor does not interfere. Suppose the signal arrives when every goroutine has started
  and each server that runs is a current one. Then after both calls of \<open>Shutdown\<close> the goroutines can
  take no more steps than there are running servers, the wait is over when they can take none,
  and at that moment nothing listens.
\<close>

theorem stop_all_returns:
  assumes "reach services_started (svc_step flaky config) sm" and "sm_main sm = SignalLoop" and "sm_pending sm = []"
    and current: "\<And>i. i < length (sm_servers sm) \<Longrightarrow> running (sm_servers sm ! i) \<Longrightarrow> Some i \<in> {sm_adminServer sm, sm_businessServer sm}"
    and stopped: "stopped = (BusinessServer_Shutdown (AdminServer_Shutdown sm))\<lparr>sm_main := ServersStopped\<rparr>"
    and run: "(go_step ^^ n) stopped sm'"
  shows "n \<le> length (filter running (sm_servers sm)) \<and>
    ((\<nexists>sm''. go_step sm' sm'') \<longrightarrow> main_step sm' (sm'\<lparr>sm_main := AllReturned\<rparr>) \<and> (\<forall>srv \<in> set (sm_servers sm'). \<not> listening srv))"
proof -
  note st = stopped_state [OF svc_sys.reach_inv [OF assms(1)] assms(2,3) current stopped]
  have s': "svc_inv sm'" "all_closed sm'" "sm_main sm' = ServersStopped" "n + go_left sm' = go_left stopped"
    using go_run_all_closed [OF run st(1,2)] by (auto simp: stopped)
  have "main_step sm' (sm'\<lparr>sm_main := AllReturned\<rparr>) \<and> (\<forall>srv \<in> set (sm_servers sm'). \<not> listening srv)"
    if "\<nexists>sm''. go_step sm' sm''"
  proof -
    have "go_left sm' = 0" using go_step_exists s' that by blast
    then have "sm_wg sm' = 0" "\<forall>srv \<in> set (sm_servers sm'). \<not> running srv"
      using s'(2) svc_inv_idle [OF s'(1)] by (auto simp: go_left_def all_closed_def filter_empty_conv)
    then show ?thesis using s' by (auto intro: wait simp: running_def listening_def)
  qed
  then show ?thesis using s'(4) st(3) by auto
qed


section \<open>Signals\<close>

text \<open>
  One turn of the signal loop: \<open>None\<close> leaves it to stop the services, a hangup reloads the configuration and, when
  that succeeds, sets the level of the log.
\<close>

datatype Signal = SIGINT | SIGTERM | SIGHUP

definition signal_turn ::
    "Yaml \<Rightarrow> FileSystem \<Rightarrow> Signal \<Rightarrow> Process \<times> LogLevel \<Rightarrow> (ProcessPanic + Process \<times> LogLevel) option" where
  "signal_turn y fs sig st =
     (case st of (p, level) \<Rightarrow>
        if sig = SIGHUP then
          Some (case Reload y fs 0 p of
                  Inl x \<Rightarrow> Inl x
                | Inr (Some err, p') \<Rightarrow> Inr (p', level)
                | Inr (None, p') \<Rightarrow> Inr (p', SetLevel (cfg_LogLevel (pr_heap p' 0)) level))
        else None)"

text \<open>A reload that is reported as failed may have changed the configured level; the level in force stays.\<close>

lemma failed_reload_keeps_level:
  assumes "LoadConfig y fs (NewConfigManager ''novaairouter.yaml'') = (None, cm)" and "cm_configFile cm = Some (default_file now)"
  shows "\<exists>p'. signal_turn y fs SIGHUP (p, level) = Some (Inr (p', level)) \<and>
    pr_heap p' 0 = reloaded_config cm (pr_heap p 0)"
  using reload_default_file [OF assms, of 0 p] by (auto simp: signal_turn_def)

lemma signal_turn_level:
  assumes "Reload y fs 0 p = Inr (None, p')"
  shows "signal_turn y fs SIGHUP (p, level) = Some (Inr (p', parseLevel (cfg_LogLevel (pr_heap p' 0))))"
  by (simp add: signal_turn_def assms SetLevel_def)

section \<open>A run of the program\<close>

definition sample_config :: Config where
  "sample_config = (load_config sample_env)\<lparr>cfg_ListenAddr := '':15050''\<rparr>"

text \<open>Both servers are up.\<close>

definition sample_up :: ServiceManager where
  "sample_up =
     (let sm = StartAll (NewServiceManager (NewConfigCenter 0 None));
          sm = set_phase 0 Serving (build_server sample_config AdminSvc (sm\<lparr>sm_pending := remove1 AdminSvc (sm_pending sm)\<rparr>))
      in set_phase 1 Serving (build_server sample_config BusinessSvc (sm\<lparr>sm_pending := remove1 BusinessSvc (sm_pending sm)\<rparr>)))"

lemmas run_simps = server_ops StartAll_def NewServiceManager_def Let_def listening_def addr_free_def service_addr_def admin_listen_addr_def
  ended_def admin_answers_def

lemma reach_go: "reach services_started (svc_step flaky config) sm \<Longrightarrow> go_step sm sm' \<Longrightarrow> \<not> ended sm \<Longrightarrow>
  reach services_started (svc_step flaky config) sm'"
  by (rule reach_step, assumption, rule svc_go)

lemma reach_main: "reach services_started (svc_step flaky config) sm \<Longrightarrow> main_step sm sm' \<Longrightarrow> \<not> ended sm \<Longrightarrow>
  reach services_started (svc_step flaky config) sm'"
  by (rule reach_step, assumption, rule svc_main)

lemma reach_monitor: "reach services_started (svc_step flaky config) sm \<Longrightarrow> monitor_step flaky config sm sm' \<Longrightarrow> \<not> ended sm \<Longrightarrow>
  reach services_started (svc_step flaky config) sm'"
  by (rule reach_step, assumption, rule svc_monitor)

lemma sample_up_reachable: "reach services_started (svc_step flaky config) sample_up"
proof -
  let ?R = "reach services_started (svc_step flaky config)"
  let ?s0 = "StartAll (NewServiceManager (NewConfigCenter 0 None))"
  let ?s1 = "build_server sample_config AdminSvc (?s0\<lparr>sm_pending := remove1 AdminSvc (sm_pending ?s0)\<rparr>)"
  let ?s2 = "set_phase 0 Serving ?s1"
  let ?s3 = "build_server sample_config BusinessSvc (?s2\<lparr>sm_pending := remove1 BusinessSvc (sm_pending ?s2)\<rparr>)"
  have "?R ?s0" by (rule reach_init) (auto simp: services_started_def)
  then have "?R ?s1" by (rule reach_go) (rule admin_build, simp_all add: run_simps)
  then have "?R ?s2" by (rule reach_go) (rule admin_serve [OF _ refl], simp_all add: run_simps)
  then have "?R ?s3" by (rule reach_go) (rule business_build, simp_all add: run_simps sample_config_def)
  then have "?R (set_phase 1 Serving ?s3)" by (rule reach_go) (rule business_serve [OF _ refl], simp_all add: run_simps)
  then show ?thesis by (simp only: sample_up_def Let_def)
qed

lemma sample_up_simps:
  "sm_servers sample_up =
     [\<lparr>hs_Addr = ''0.0.0.0:'' @ Itoa (sscanf_port '':15050'' - 1), hs_handler = AdminSvc, hs_closed = False, hs_phase = Serving\<rparr>,
      \<lparr>hs_Addr = '':15050'', hs_handler = BusinessSvc, hs_closed = False, hs_phase = Serving\<rparr>]"
  "sm_adminServer sample_up = Some 0" "sm_businessServer sample_up = Some 1" "sm_pending sample_up = []"
  "sm_main sample_up = SignalLoop" "sm_monitor sample_up = Watching" "sm_wg sample_up = 2" "sm_sweepers sample_up = 1"
  by (simp_all add: sample_up_def run_simps sample_config_def)

theorem services_books_witness: "sm_wg sample_up = 2 \<and> sm_sweepers sample_up = 1 \<and> sm_main sample_up \<noteq> MainExited"
  using services_books [OF sample_up_reachable [of False sample_config]] by (simp add: sample_up_simps running_def)

definition sample_stopped :: ServiceManager where
  "sample_stopped = (BusinessServer_Shutdown (AdminServer_Shutdown sample_up))\<lparr>sm_main := ServersStopped\<rparr>"

lemma sample_stopped_servers:
  "sm_servers sample_stopped = map (\<lambda>srv. srv\<lparr>hs_closed := True\<rparr>) (sm_servers sample_up)" "sm_pending sample_stopped = []"
  "sm_wg sample_stopped = 2" "sm_main sample_stopped = ServersStopped"
  by (simp_all add: sample_stopped_def server_ops sample_up_simps)

theorem stop_all_returns_witness:
  "main_step (server_return 1 (server_return 0 sample_stopped)) ((server_return 1 (server_return 0 sample_stopped))\<lparr>sm_main := AllReturned\<rparr>) \<and>
   \<not> listening (sm_servers (server_return 1 (server_return 0 sample_stopped)) ! 0)"
proof -
  let ?s1 = "server_return 0 sample_stopped" and ?s2 = "server_return 1 (server_return 0 sample_stopped)"
  have "Some i \<in> {sm_adminServer sample_up, sm_businessServer sample_up}" if "i < length (sm_servers sample_up)" for i
    using that by (auto simp: sample_up_simps less_Suc_eq)
  note stop = stop_all_returns [OF sample_up_reachable [of False sample_config] sample_up_simps(5,4) this sample_stopped_def, of 2 ?s2]
  have "go_step sample_stopped ?s1"
    by (rule serve_return [OF _ refl]) (simp_all add: sample_stopped_servers sample_up_simps)
  moreover have "go_step ?s1 ?s2"
    by (rule serve_return [OF _ refl]) (simp_all add: server_return_def set_phase_def sample_stopped_servers sample_up_simps)
  ultimately have run: "(go_step ^^ 2) sample_stopped ?s2" by (auto simp: numeral_2_eq_2)
  have ret: "\<forall>srv \<in> set (sm_servers ?s2). hs_phase srv = Returned" "sm_pending ?s2 = []" "length (sm_servers ?s2) = 2"
    by (simp_all add: server_return_def set_phase_def sample_stopped_servers sample_up_simps)
  then have "\<nexists>s. go_step ?s2 s" by (auto elim!: go_stepE dest!: nth_mem)
  then show ?thesis using stop run ret(3) by (simp del: One_nat_def)
qed

text \<open>The monitor restarts the servers between the two parts of \<open>StopAll\<close>.\<close>

lemma sample_blocked:
  "\<exists>sm. reach services_started (svc_step False sample_config) sm \<and> sm_main sm = ServersStopped \<and> sm_monitor sm = Watching \<and>
     admin_answers sample_config sm \<and> BusinessSvc \<in> set (sm_pending sm)"
proof -
  let ?R = "reach services_started (svc_step False sample_config)"
  let ?s1 = "(AdminServer_Shutdown sample_up)\<lparr>sm_main := AdminStopped\<rparr>"
  let ?s2 = "(AdminServer_Shutdown ?s1)\<lparr>sm_monitor := AdminDown\<rparr>"
  let ?s3 = "(go_start AdminSvc ?s2)\<lparr>sm_monitor := AdminSpawned\<rparr>"
  let ?s4 = "build_server sample_config AdminSvc (?s3\<lparr>sm_pending := remove1 AdminSvc (sm_pending ?s3)\<rparr>)"
  let ?s5 = "set_phase 2 Serving ?s4"
  let ?s6 = "(BusinessServer_Shutdown ?s5)\<lparr>sm_monitor := BusinessDown\<rparr>"
  let ?s7 = "(BusinessServer_Shutdown ?s6)\<lparr>sm_main := ServersStopped\<rparr>"
  let ?s8 = "(go_start BusinessSvc ?s7)\<lparr>sm_monitor := Watching\<rparr>"
  note simps = run_simps sample_up_simps
  have "?R ?s1" by (rule reach_main [OF sample_up_reachable]) (rule stop_signal, simp_all add: simps)
  then have "?R ?s2" by (rule reach_monitor) (rule unhealthy, simp_all add: simps)
  then have "?R ?s3" by (rule reach_monitor) (rule spawn_admin, simp_all add: simps)
  then have "?R ?s4" by (rule reach_go) (rule admin_build, simp_all add: simps)
  then have "?R ?s5" by (rule reach_go) (rule admin_serve [OF _ refl], simp_all add: simps)
  then have "?R ?s6" by (rule reach_monitor) (rule restart_business, simp_all add: simps)
  then have "?R ?s7" by (rule reach_main) (rule stop_business, simp_all add: simps)
  then have "?R ?s8" by (rule reach_monitor) (rule spawn_business, simp_all add: simps)
  moreover have "sm_main ?s8 = ServersStopped" "sm_monitor ?s8 = Watching" "BusinessSvc \<in> set (sm_pending ?s8)"
    by (simp_all add: simps)
  moreover have "admin_answers sample_config ?s8" by (simp add: simps sample_config_def)
  ultimately show ?thesis by blast
qed


end
