(* ===== verification/Node.thy ===== *)
theory Node
  imports Business Discovery_Service Service_Manager
begin

text \<open>
  A whole node: what \<open>runGateway\<close> builds (\<open>cmd/gateway/main.go\<close>), the life of the gossip server (\<open>internal/gossip/gossip.go\<close>: \<open>New\<close>,
  \<open>Start\<close>, \<open>StartAutoDiscovery\<close>, \<open>periodicHealthCheck\<close>, \<open>Shutdown\<close>), and one step relation in which the admin handlers, the
  gossip handlers, discovery, the health checks, the work of the pools and the requests of clients are interleaved on the state
  they share. The invariants of the parts hold together in it, and every request that leaves a node goes to a peer.
\<close>

declare map_of_eq_Some_iff [simp del] Some_eq_map_of_iff [simp del]

section \<open>The gossip server\<close>

text \<open>
  \<open>gs_server\<close> is the address the HTTP server was made for, \<open>gs_checkers\<close> counts the goroutines of \<open>periodicHealthCheck\<close>,
  \<open>gs_discovering\<close> says that discovery was started and \<open>gs_done\<close> that the channel is closed. The peer table and the
  registry are in the \<open>Sync\<close> that the admin server shares.
\<close>

record GossipServer =
  gs_server :: "string option"
  gs_checkers :: nat
  gs_discovery :: DiscoveryState
  gs_discovering :: bool
  gs_done :: bool

definition GossipServer_New :: GossipServer where
  "GossipServer_New = \<lparr>gs_server = None, gs_checkers = 0, gs_discovery = Discovery_New, gs_discovering = False, gs_done = False\<rparr>"

definition GossipServer_Start :: "Config \<Rightarrow> GossipServer \<Rightarrow> GossipServer" where
  "GossipServer_Start config g = g\<lparr>gs_server := Some (''0.0.0.0:'' @ Itoa (gossip_listen_port config))\<rparr>"

definition StartAutoDiscovery :: "Config \<Rightarrow> GossipServer \<Rightarrow> GossipServer" where
  "StartAutoDiscovery config g =
     (let g = (if gs_server g = None then GossipServer_Start config g else g)
      in g\<lparr>gs_checkers := Suc (gs_checkers g), gs_discovering := True\<rparr>)"

text \<open>\<open>Shutdown\<close> as a whole; closing a closed channel panics, here or in \<open>Discovery.Stop\<close>.\<close>

definition GossipServer_Stop :: "Config \<Rightarrow> Sync \<Rightarrow> GossipServer \<Rightarrow> Post list \<times> GossipServer option" where
  "GossipServer_Stop config s g =
     (case GossipServer_Shutdown config (gs_done g) s of
        (posts, None) \<Rightarrow> (posts, None)
      | (posts, Some d) \<Rightarrow>
          (posts, map_option (\<lambda>disc. g\<lparr>gs_done := d, gs_discovery := disc\<rparr>) (Discovery_Stop (gs_discovery g))))"

section \<open>Starting\<close>

record Node =
  nd_admin :: AdminServer
  nd_gossip :: GossipServer

abbreviation nd_sync :: "Node \<Rightarrow> Sync" where
  "nd_sync n \<equiv> as_sync (nd_admin n)"

abbreviation nd_registry :: "Node \<Rightarrow> Registry" where
  "nd_registry n \<equiv> as_registry (nd_admin n)"

abbreviation nd_poolMgr :: "Node \<Rightarrow> PoolManager" where
  "nd_poolMgr n \<equiv> as_poolMgr (nd_admin n)"

definition new_node :: "Config \<Rightarrow> Node" where
  "new_node config =
     \<lparr>nd_admin = \<lparr>as_sync = Sync_New Registry_New,
        as_poolMgr = NewManagerWithQueueCapacity (cfg_DefaultMaxConcurrency config) (nat (cfg_QueueCapacity config)) (cfg_BackendTimeout config)\<rparr>,
      nd_gossip = StartAutoDiscovery config (GossipServer_Start config GossipServer_New)\<rparr>"

record Gateway =
  gw_config :: Config
  gw_level :: LogLevel
  gw_killed :: "int list"
  gw_families :: "MetricFamily list"
  gw_node :: Node
  gw_process :: Process
  gw_services :: ServiceManager
  gw_monitorAddr :: string

datatype Startup = LoadRefused LoadError | PortsRefused string | Started Gateway

text \<open>
  \<open>runGateway\<close> up to the signal loop. \<open>logFile\<close> is the opened log file, \<open>listen\<close> says which ports can be listened on, \<open>once\<close> whether
  the metrics were registered before. Nothing after the port check can fail: every \<open>Start\<close> it calls returns \<open>nil\<close>.
\<close>

definition runGateway :: "LoadEnv \<Rightarrow> 'w option \<Rightarrow> (int \<Rightarrow> bool) \<Rightarrow> bool \<Rightarrow> bool \<Rightarrow> Startup" where
  "runGateway e logFile listen forceRun once =
     (case Load e of
        Inl err \<Rightarrow> LoadRefused err
      | Inr cfg \<Rightarrow>
          let level = fst (Logger_New (cfg_LogLevel cfg) [logFile])
          in case port_check listen forceRun cfg of
               PortsInUse msg \<Rightarrow> PortsRefused msg
             | PortsChecked available killed \<Rightarrow>
                 let process = process_start cfg (admin_listen_addr cfg) (cfg_ListenAddr cfg)
                 in Started \<lparr>gw_config = cfg, gw_level = level, gw_killed = killed, gw_families = fst (Metrics_New once),
                      gw_node = new_node cfg, gw_process = process, gw_services = StartAll (NewServiceManager (pr_center process)),
                      gw_monitorAddr = monitor_addr cfg\<rparr>)"

section \<open>The steps of a node\<close>

inductive node_step :: "(string \<Rightarrow> string \<Rightarrow> 8 word list) \<Rightarrow> Config \<Rightarrow> Node \<Rightarrow> Node \<Rightarrow> bool"
  for hmac :: "string \<Rightarrow> string \<Rightarrow> 8 word list" and config :: Config where
  n_post: "(\<And>k. inj_on ids {1..k}) \<Longrightarrow>
     (\<And>ep i. ep \<in> set (Registry_ListEndpoints (nd_registry n)) \<Longrightarrow> 1 \<le> i \<Longrightarrow> ep_EpID ep \<noteq> ids i) \<Longrightarrow>
     handlePostEndpoints config ids now r body (nd_admin n) = (res, s, posts) \<Longrightarrow> node_step hmac config n (n\<lparr>nd_admin := s\<rparr>)"
| n_delete: "QueryUnescape (header_get (rq_query r) ''path'') = Some (header_get (rq_query r) ''path'') \<Longrightarrow>
     handleDeleteEndpoints config r (nd_admin n) = (reply, s, sent) \<Longrightarrow> node_step hmac config n (n\<lparr>nd_admin := s\<rparr>)"
| n_heartbeat: "handleHeartbeat config now r hb (nd_admin n) = (unit_reply, s) \<Longrightarrow> node_step hmac config n (n\<lparr>nd_admin := s\<rparr>)"
| n_tick: "0 \<le> cfg_HeartbeatTimeout config \<Longrightarrow> 2 * cfg_HeartbeatTimeout config < i64_max \<Longrightarrow>
     admin_tick config now (nd_admin n) = (s, nodes, endpoints) \<Longrightarrow> node_step hmac config n (n\<lparr>nd_admin := s\<rparr>)"
| n_connect: "handleConnect config join now r ip (nd_admin n) = (answer, s, sent) \<Longrightarrow> node_step hmac config n (n\<lparr>nd_admin := s\<rparr>)"
| n_metrics: "node_step hmac config n
     (n\<lparr>nd_admin := with_registry (metrics_callback path epID active queued (nd_registry n)) (nd_admin n)\<rparr>)"
| n_pools: "wf_pm m \<Longrightarrow> (\<And>p k. GetPool m p k = None \<longleftrightarrow> GetPool (nd_poolMgr n) p k = None) \<Longrightarrow>
     node_step hmac config n (n\<lparr>nd_admin := (nd_admin n)\<lparr>as_poolMgr := m\<rparr>\<rparr>)"
| n_request: "handleRequest (cfg_NodeID config) env (nd_registry n) (nd_poolMgr n) req w = Inr bres \<Longrightarrow>
     node_step hmac config n (n\<lparr>nd_admin := (nd_admin n)\<lparr>as_poolMgr := bs_pools bres\<rparr>\<rparr>)"
| n_join: "handleGossipJoin config now r joiner (nd_sync n) = (join_reply, sync, posts) \<Longrightarrow>
     node_step hmac config n (n\<lparr>nd_admin := (nd_admin n)\<lparr>as_sync := sync\<rparr>\<rparr>)"
| n_state: "handleGossipState config now r msg (nd_sync n) = (state_reply, sync) \<Longrightarrow>
     node_step hmac config n (n\<lparr>nd_admin := (nd_admin n)\<lparr>as_sync := sync\<rparr>\<rparr>)"
| n_sync: "handleGossipSync config now r msg (nd_sync n) = (sync_reply, sync, posts) \<Longrightarrow>
     node_step hmac config n (n\<lparr>nd_admin := (nd_admin n)\<lparr>as_sync := sync\<rparr>\<rparr>)"
| n_health: "0 < gs_checkers (nd_gossip n) \<Longrightarrow>
     node_step hmac config n (n\<lparr>nd_admin := (nd_admin n)\<lparr>as_sync := checkPeerHealth config probe (nd_sync n)\<rparr>\<rparr>)"
| n_health_end: "0 < gs_checkers (nd_gossip n) \<Longrightarrow> gs_done (nd_gossip n) \<Longrightarrow>
     node_step hmac config n (n\<lparr>nd_gossip := (nd_gossip n)\<lparr>gs_checkers := gs_checkers (nd_gossip n) - 1\<rparr>\<rparr>)"
| n_listener: "gs_discovering (nd_gossip n) \<Longrightarrow> listener_step hmac config (gs_discovery (nd_gossip n)) d \<Longrightarrow>
     ds_joins d = ds_joins (gs_discovery (nd_gossip n)) @ js \<Longrightarrow>
     sync = fold (\<lambda>(nodeID, address) s. fst (JoinNode config now nodeID address s)) js (nd_sync n) \<Longrightarrow>
     node_step hmac config n (n\<lparr>nd_admin := (nd_admin n)\<lparr>as_sync := sync\<rparr>, nd_gossip := (nd_gossip n)\<lparr>gs_discovery := d\<rparr>\<rparr>)"
| n_first_second: "gs_discovering (nd_gossip n) \<Longrightarrow> ds_starting (gs_discovery (nd_gossip n)) \<Longrightarrow>
     js = startDiscovery (ds_candidates (gs_discovery (nd_gossip n))) \<Longrightarrow>
     sync = fold (\<lambda>(nodeID, address) s. fst (JoinNode config now nodeID address s)) js (nd_sync n) \<Longrightarrow>
     node_step hmac config n (n\<lparr>nd_admin := (nd_admin n)\<lparr>as_sync := sync\<rparr>, nd_gossip := (nd_gossip n)\<lparr>gs_discovery :=
       (gs_discovery (nd_gossip n))\<lparr>ds_starting := False, ds_joins := ds_joins (gs_discovery (nd_gossip n)) @ js\<rparr>\<rparr>\<rparr>)"
| n_cleanup: "gs_discovering (nd_gossip n) \<Longrightarrow>
     node_step hmac config n (n\<lparr>nd_gossip := (nd_gossip n)\<lparr>gs_discovery := (gs_discovery (nd_gossip n))\<lparr>ds_candidates :=
       cleanupStaleCandidates now (ds_candidates (gs_discovery (nd_gossip n)))\<rparr>\<rparr>\<rparr>)"
| n_shutdown: "GossipServer_Stop config (nd_sync n) (nd_gossip n) = (posts, Some g) \<Longrightarrow>
     node_step hmac config n (n\<lparr>nd_gossip := g\<rparr>)"

definition node_started :: "Config \<Rightarrow> Node \<Rightarrow> bool" where
  "node_started config n \<longleftrightarrow> 0 \<le> cfg_QueueCapacity config \<and> n = new_node config"

abbreviation node_reachable :: "(string \<Rightarrow> string \<Rightarrow> 8 word list) \<Rightarrow> Config \<Rightarrow> Node \<Rightarrow> bool" where
  "node_reachable hmac config \<equiv> reach (node_started config) (node_step hmac config)"

section \<open>What the handlers leave alone\<close>

text \<open>The admin handlers change the local half of the registry; only connecting and the sweep touch peers or remote nodes.\<close>

definition same_remote :: "Sync \<Rightarrow> Sync \<Rightarrow> bool" where
  "same_remote s t \<longleftrightarrow> sy_peers t = sy_peers s \<and> remote_of t = remote_of s"

lemma sync_inv_same: "sync_inv s \<Longrightarrow> same_remote s t \<Longrightarrow> sync_inv t"
  by (simp add: sync_inv_def same_remote_def)

lemma same_remote_refl [simp]: "same_remote s s"
  by (simp add: same_remote_def)

lemma local_ops_remote [simp]:
  "reg_remote (snd (Registry_RegisterEndpoints ids eps r)) = reg_remote r"
  "reg_remote (snd (Registry_RemoveByServiceID sid r)) = reg_remote r"
  "reg_remote (snd (Registry_RemoveByServiceIDAndPath sid p r)) = reg_remote r"
  "reg_remote (snd (Registry_UpdateHeartbeat now sid h r)) = reg_remote r"
  "reg_remote (snd (Registry_CheckStaleEndpoints now t r)) = reg_remote r"
  "reg_remote (Registry_UpdateEndpointMetricsByEpID np k a q r) = reg_remote r"
  by (simp_all add: Registry_RegisterEndpoints_def Registry_RemoveByServiceID_def Registry_RemoveByServiceIDAndPath_def
      Registry_UpdateHeartbeat_def Registry_CheckStaleEndpoints_def Registry_UpdateEndpointMetricsByEpID_def split: prod.split)

lemma with_registry_same [simp]: "reg_remote reg = remote_of (as_sync s) \<Longrightarrow> same_remote (as_sync s) (as_sync (with_registry reg s))"
  by (simp add: same_remote_def with_registry_def)

lemma with_registry_pools [simp]: "as_sync (s\<lparr>as_poolMgr := m\<rparr>) = as_sync s"
  by simp

lemma post_same:
  assumes "handlePostEndpoints config ids now r body s = (res, s', posts)"
  shows "same_remote (as_sync s) (as_sync s')"
proof -
  have "same_remote (as_sync s) (as_sync (with_registry reg s))"
    if "Registry_RegisterEndpoints ids eps (as_registry s) = (x, reg)" for eps x reg
    using local_ops_remote(1) [of ids eps "as_registry s"] that by simp
  then show ?thesis
    using assms by (auto simp: handlePostEndpoints_def Let_def split: prod.splits bool.splits Body.splits sum.splits RegisterError.splits)
qed

lemma delete_same: "handleDeleteEndpoints config r s = (reply, s', sent) \<Longrightarrow> same_remote (as_sync s) (as_sync s')"
  by (auto simp: handleDeleteEndpoints_def Let_def split: prod.splits bool.splits option.splits if_splits)

lemma heartbeat_same:
  assumes "handleHeartbeat config now r hb s = (reply, s')"
  shows "same_remote (as_sync s) (as_sync s')"
proof -
  have "same_remote (as_sync s) (as_sync (with_registry reg s))"
    if "Registry_UpdateHeartbeat now sid h (as_registry s) = (x, reg)" for sid h x reg
    using local_ops_remote(4) [of now sid h "as_registry s"] that by simp
  then show ?thesis
    using assms by (auto simp: handleHeartbeat_def split: prod.splits bool.splits Body.splits sum.splits if_splits)
qed

text \<open>What gossip may do: it leaves the local endpoints alone and keeps the invariant of peers and remote nodes.\<close>

definition gossip_move :: "Sync \<Rightarrow> Sync \<Rightarrow> bool" where
  "gossip_move s t \<longleftrightarrow> reg_local (sy_registry t) = reg_local (sy_registry s) \<and> (sync_inv s \<longrightarrow> sync_inv t)"

lemma gossip_move_refl [simp]: "gossip_move s s"
  by (simp add: gossip_move_def)

lemma gossip_move_trans: "gossip_move s t \<Longrightarrow> gossip_move t u \<Longrightarrow> gossip_move s u"
  by (simp add: gossip_move_def)

lemma gossip_moveI: "gossip_step config s t \<Longrightarrow> reg_local (sy_registry t) = reg_local (sy_registry s) \<Longrightarrow> gossip_move s t"
  using gossip_sys.inv_step [of s config t] by (simp add: gossip_move_def)

lemma remote_ops_local [simp]:
  "reg_local (Registry_UpdateRemoteNode now k a p r) = reg_local r"
  "reg_local (Registry_TouchRemoteNodeLastSeen now k r) = reg_local r"
  "reg_local (Registry_UpdateRemoteNodeState now k st r) = reg_local r"
  "reg_local (Registry_UpdateRemoteNodeMetadata now k md r) = reg_local r"
  "reg_local (Registry_RemoveRemoteEndpoint k path r) = reg_local r"
  "reg_local (Registry_RemoveRemoteNode k r) = reg_local r"
  "reg_local (Registry_CleanStaleRemoteNodes now nt et r) = reg_local r"
  by (simp_all add: Registry_UpdateRemoteNode_def Registry_TouchRemoteNodeLastSeen_def Registry_UpdateRemoteNodeState_def
      Registry_UpdateRemoteNodeMetadata_def Registry_RemoveRemoteEndpoint_def Registry_RemoveRemoteNode_def Registry_CleanStaleRemoteNodes_def)

lemma fold_remove_local [simp]: "reg_local (fold (Registry_RemoveRemoteEndpoint k) ps r) = reg_local r"
  by (induction ps arbitrary: r) simp_all

lemma move_AddPeer: "gossip_move s (fst (AddPeer config now nodeID address s))"
  by (rule gossip_moveI [OF add_peer AddPeer_local])

lemma move_state: "gossip_move s (HandleStateMessage config now msg s)"
  by (rule gossip_moveI [OF state_message])
     (simp add: HandleStateMessage_def apply_path_infos_def ensure_remote_node_def Let_def split: option.split)

lemma move_health: "gossip_move s (checkPeerHealth config probe s)"
proof (rule gossip_moveI [OF health_check])
  have "reg_local (sy_registry (fold (checkSinglePeerHealth config probe) ps t)) = reg_local (sy_registry t)" for ps t
  proof (induction ps arbitrary: t)
    case (Cons p ps)
    then show ?case by (simp add: checkSinglePeerHealth_def RemovePeer_def split: HealthResult.split)
  qed simp
  then show "reg_local (sy_registry (checkPeerHealth config probe s)) = reg_local (sy_registry s)" by (simp add: checkPeerHealth_def)
qed

lemma move_join: "handleGossipJoin config now r body s = (reply, t, posts) \<Longrightarrow> gossip_move s t"
  using move_AddPeer [of s config now]
  by (auto simp: handleGossipJoin_def Let_def split: prod.splits bool.splits option.splits if_splits) (metis fst_conv)

lemma move_handle_state: "handleGossipState config now r msg s = (reply, t) \<Longrightarrow> gossip_move s t"
  using move_state [of s config now]
  by (auto simp: handleGossipState_def Let_def split: prod.splits bool.splits option.splits if_splits)

lemma move_sync:
  assumes "handleGossipSync config now r msg s = (reply, t, posts)"
  shows "gossip_move s t"
proof -
  have one: "gossip_move s u" if "AddPeer config now k a s = (u, ps)" for k a u ps
    using move_AddPeer [of s config now k a] that by simp
  then have two: "gossip_move s (HandleStateMessage config now m u)" if "AddPeer config now k a s = (u, ps)" for k a u ps m
    using that move_state gossip_move_trans by blast
  show ?thesis
    using assms one two by (auto simp: handleGossipSync_def Let_def split: prod.splits bool.splits option.splits if_splits)
qed

lemma move_joins: "gossip_move s (fold (\<lambda>(nodeID, address) s. fst (JoinNode config now nodeID address s)) js s)"
proof (induction js arbitrary: s)
  case (Cons j js)
  then show ?case
    using gossip_move_trans [OF move_AddPeer [of s config now "fst j" "snd j"] Cons.IH] by (simp add: JoinNode_def case_prod_unfold)
qed simp

lemma move_connect:
  assumes "handleConnect config join now r ip s = (answer, s', sent)"
  shows "gossip_move (as_sync s) (as_sync s')"
proof -
  have "gossip_move (as_sync s) u" if "AddPeer config now k a (as_sync s) = (u, ps)" for k a u ps
    using move_AddPeer [of "as_sync s" config now k a] that by simp
  then show ?thesis
    using assms by (auto simp: handleConnect_def JoinNode_def Let_def split: if_splits Body.splits JoinAnswer.splits prod.splits)
qed

lemma tick_sync:
  assumes "sync_inv (as_sync s)" and "admin_tick config now s = (s', nodes, endpoints)"
  shows "sync_inv (as_sync s')"
proof -
  obtain deleted reg where reg: "Registry_CheckStaleEndpoints now (cfg_HeartbeatTimeout config) (as_registry s) = (deleted, reg)"
    by (metis prod.exhaust)
  have "reg_remote reg = reg_remote (as_registry s)" using local_ops_remote(5) [of now _ "as_registry s"] reg by (metis snd_conv)
  then have "sync_inv ((as_sync s)\<lparr>sy_registry := reg\<rparr>)" using assms(1) by (simp add: sync_inv_def)
  from gossip_sys.inv_step [OF this node_sweep] show ?thesis
    using assms(2) by (auto simp: admin_tick_def reg with_registry_def Let_def)
qed

section \<open>The invariant of a node\<close>

lemma forwarded_pools: "pm_pools (bs_pools (HandleForwardedRequest nodeID env pm r path node w)) = pm_pools pm"
  by (simp add: HandleForwardedRequest_def HandleForwardedRequestWithError_def IncRemoteActive_def DecRemoteActive_def Let_def
      split: BackendResult.split option.split)

lemma request_pools:
  assumes "handleRequest nodeID env reg pm r w = Inr res"
  shows "pm_pools (bs_pools res) = pm_pools pm"
  using assms
  by (auto simp: handleRequest_def Let_def forwarded_pools
      split: RouteOutcome.splits Dispatch.splits sum.splits prod.splits)

definition gossip_ok :: "GossipServer \<Rightarrow> bool" where
  "gossip_ok g \<longleftrightarrow> gs_server g \<noteq> None \<and> gs_checkers g \<le> 1 \<and> gs_discovering g \<and> (gs_checkers g = 0 \<longrightarrow> gs_done g) \<and>
     ds_done (gs_discovery g) = gs_done g"

lemma listener_done: "listener_step hmac config d d' \<Longrightarrow> ds_done d' = ds_done d"
  by (induction rule: listener_step.induct) simp_all

lemma stop_result:
  "GossipServer_Stop config s g = (posts, Some g') \<Longrightarrow> \<not> gs_done g \<and> gs_done g' \<and> (gossip_ok g \<longrightarrow> gossip_ok g')"
  by (auto simp: GossipServer_Stop_def GossipServer_Shutdown_def Discovery_Stop_def gossip_ok_def split: if_splits)

definition node_inv :: "Node \<Rightarrow> bool" where
  "node_inv n \<longleftrightarrow> admin_inv (nd_admin n) \<and> sync_inv (nd_sync n) \<and> gossip_ok (nd_gossip n)"

lemma node_inv_move:
  assumes "node_inv n" and "gossip_move (nd_sync n) sync" and "gossip_ok g"
  shows "node_inv (n\<lparr>nd_admin := (nd_admin n)\<lparr>as_sync := sync\<rparr>, nd_gossip := g\<rparr>)"
  using assms by (simp add: node_inv_def gossip_move_def admin_inv_sync)

lemma node_inv_admin:
  assumes "node_inv n" and "admin_step config (nd_admin n) s" and "sync_inv (nd_sync n) \<Longrightarrow> sync_inv (as_sync s)"
  shows "node_inv (n\<lparr>nd_admin := s\<rparr>)"
  using assms admin_sys.inv_step [of "nd_admin n" config s] by (simp add: node_inv_def)

lemma node_inv_pools:
  assumes "node_inv n" and "wf_pm m" and "\<And>p k. GetPool m p k = None \<longleftrightarrow> GetPool (nd_poolMgr n) p k = None"
  shows "node_inv (n\<lparr>nd_admin := (nd_admin n)\<lparr>as_poolMgr := m\<rparr>\<rparr>)"
  by (rule node_inv_admin [OF assms(1) admin_step.serve [OF assms(2,3)]]) simp_all

interpretation node_sys: invariant_system "node_started config" "node_step hmac config" node_inv for hmac config
proof
  show "node_inv n" if "node_started config n" for n
  proof -
    have n: "n = new_node config" using that by (simp add: node_started_def)
    have "admin_inv (nd_admin n)"
      by (rule admin_sys.inv_init) (auto simp: n new_node_def table_of_def Sync_New_def Registry_New_def NewLocalRegistry_def)
    moreover have "sync_inv (nd_sync n)"
      by (rule gossip_sys.inv_init) (auto simp: n new_node_def Registry_New_def)
    ultimately show ?thesis
      by (simp add: node_inv_def gossip_ok_def n new_node_def StartAutoDiscovery_def GossipServer_Start_def GossipServer_New_def
          Discovery_New_def)
  qed
  show "node_inv n'" if inv: "node_inv n" and "node_step hmac config n n'" for n n'
    using that(2)
  proof cases
    case (n_post ids now r body res s posts)
    then show ?thesis using node_inv_admin [OF inv admin_step.post [OF n_post(2,3,4)]] sync_inv_same [OF _ post_same [OF n_post(4)]] by simp
  next
    case (n_delete r reply s sent)
    then show ?thesis using node_inv_admin [OF inv admin_step.delete [OF n_delete(2,3)]] sync_inv_same [OF _ delete_same [OF n_delete(3)]] by simp
  next
    case (n_heartbeat now r hb reply s)
    then show ?thesis using node_inv_admin [OF inv admin_step.heartbeat] sync_inv_same [OF _ heartbeat_same] by blast
  next
    case (n_tick now s nodes endpoints)
    then show ?thesis using node_inv_admin [OF inv admin_step.tick [OF n_tick(2-4)]] tick_sync [OF _ n_tick(4)] by simp
  next
    case (n_connect join now r ip answer s sent)
    then show ?thesis using node_inv_admin [OF inv admin_step.connect] move_connect [unfolded gossip_move_def] by blast
  next
    case (n_metrics path epID active queued)
    then show ?thesis
      using node_inv_admin [OF inv admin_step.metrics] sync_inv_same [OF _ with_registry_same] by (simp add: metrics_callback_def)
  next
    case (n_pools m)
    then show ?thesis using node_inv_pools [OF inv] by blast
  next
    case (n_request env req w bres)
    have "pm_pools (bs_pools bres) = pm_pools (nd_poolMgr n)" by (rule request_pools [OF n_request(2)])
    then have "GetPool (bs_pools bres) = GetPool (nd_poolMgr n)" "keyed_pm (bs_pools bres) = keyed_pm (nd_poolMgr n)"
      by (simp_all add: GetPool_def fun_eq_iff)
    moreover from this have "wf_pm (bs_pools bres)" using inv by (simp add: wf_pm_def node_inv_def admin_inv_def pools_match_def)
    ultimately show ?thesis using n_request(1) node_inv_pools [OF inv] by simp
  next
    case (n_join now r joiner reply sync posts)
    then show ?thesis using node_inv_move [OF inv move_join] inv by (force simp: node_inv_def)
  next
    case (n_state now r msg reply sync)
    then show ?thesis using node_inv_move [OF inv move_handle_state] inv by (force simp: node_inv_def)
  next
    case (n_sync now r msg reply sync posts)
    then show ?thesis using node_inv_move [OF inv move_sync] inv by (force simp: node_inv_def)
  next
    case (n_health probe)
    then show ?thesis using node_inv_move [OF inv move_health] inv by (force simp: node_inv_def)
  next
    case n_health_end
    then show ?thesis using inv by (auto simp: node_inv_def gossip_ok_def)
  next
    case (n_listener d js sync now)
    have "gossip_ok ((nd_gossip n)\<lparr>gs_discovery := d\<rparr>)"
      using inv listener_done [OF n_listener(3)] by (simp add: node_inv_def gossip_ok_def)
    from node_inv_move [OF inv move_joins this] show ?thesis unfolding n_listener(1,5) .
  next
    case (n_first_second js sync now)
    have "gossip_ok ((nd_gossip n)\<lparr>gs_discovery :=
        (gs_discovery (nd_gossip n))\<lparr>ds_starting := False, ds_joins := ds_joins (gs_discovery (nd_gossip n)) @ js\<rparr>\<rparr>)"
      using inv by (simp add: node_inv_def gossip_ok_def)
    from node_inv_move [OF inv move_joins this] show ?thesis unfolding n_first_second(1,5) .
  next
    case (n_cleanup now)
    then show ?thesis using inv by (auto simp: node_inv_def gossip_ok_def)
  next
    case (n_shutdown posts g)
    then show ?thesis using inv stop_result by (auto simp: node_inv_def)
  qed
qed

section \<open>Where requests go\<close>

lemma mark_plugin_fields [simp]:
  "hr_path (mark_plugin b r) = hr_path r" "hr_rawQuery (mark_plugin b r) = hr_rawQuery r"
  "header_get (hr_header (mark_plugin b r)) ''X-Forwarded-By'' = header_get (hr_header r) ''X-Forwarded-By''"
  by (simp_all add: mark_plugin_def header_set_def header_get_def map_of_update)

lemma forwarded_out:
  assumes "handleRequest nodeID env reg pm r w = Inr res" and "bs_request res = Some req"
  obtains v b where "HandleRequest nodeID (be_route env) reg pm (hr_path r) (header_get (hr_header r) ''X-Forwarded-By'') = Routed v b"
    and "business_dispatch nodeID (Routed v b) = ForwardTo v"
    and "req = \<lparr>fr_url = forward_url v (hr_path r) (hr_rawQuery r), fr_header = forward_header nodeID (hr_header (mark_plugin b r))\<rparr>"
proof -
  let ?out = "HandleRequest nodeID (be_route env) reg pm (hr_path r) (header_get (hr_header r) ''X-Forwarded-By'')"
  obtain v b where v: "?out = Routed v b"
    using assms by (cases ?out) (auto simp: handleRequest_def Let_def)
  have d: "business_dispatch nodeID (Routed v b) = ForwardTo v"
    using assms v by (auto simp: handleRequest_def business_dispatch_def Let_def split: if_splits sum.splits)
  then have "res = HandleForwardedRequest nodeID env pm (mark_plugin b r) (hr_path r) v w"
    using assms(1) v by (simp add: handleRequest_def Let_def)
  then have "fw_request (HandleForwardedRequestWithError nodeID (be_writeFails env) (be_backend env) pm (mark_plugin b r) (hr_path r) v w) = Some req"
    using assms(2) forwarded_request by metis
  then show thesis
    using that v d by (auto simp: HandleForwardedRequestWithError_def Let_def split: if_splits BackendResult.splits)
qed

lemma remote_candidate_origin:
  assumes "(b, c) \<in> set (remote_candidates reg pm path seen)"
  obtains node st where "node \<in> set (Registry_GetRemoteNodes reg)" and "rn_NodeID node \<notin> set seen"
    and "(rn_NodePath c, st) \<in> set (rn_EndpointStates node)" and "es_Healthy st" and "matchNodePath path (rn_NodePath c)"
    and "rn_NodeID c = rn_NodeID node" and "rn_Address c = rn_Address node" and "rn_ServicePort c = rn_ServicePort node" and "rn_ServicePath c = ''''"
  using assms that by (auto simp: remote_candidates_def remote_candidate_def Let_def split: if_splits)


section \<open>A gateway from its start on\<close>

lemma port_check_passed:
  assumes "port_check listen forceRun config = PortsChecked available killed"
  shows "killed = filter (\<lambda>p. \<not> listen p) (checked_ports config)" and "killed = [] \<or> forceRun"
proof -
  let ?un = "map (\<lambda>(i, port). \<lparr>pt_port = port, pt_name = port_name [''business'', ''admin'', ''gossip'', ''UDP discovery''] i\<rparr>)
      (filter (\<lambda>(i, port). \<not> listen port) (enumerate 0 (checked_ports config)))"
  have "map pt_port (map (\<lambda>(i, port). \<lparr>pt_port = port, pt_name = port_name names i\<rparr>) (filter (\<lambda>(i, port). \<not> listen port) (enumerate k ports))) =
      filter (\<lambda>p. \<not> listen p) ports" for k ports names
    by (induction ports arbitrary: k) simp_all
  then have un: "map pt_port ?un = filter (\<lambda>p. \<not> listen p) (checked_ports config)" .
  have "killed = map pt_port ?un \<and> (?un = [] \<or> forceRun)"
    using assms unfolding port_check_def checkPorts_split Let_def prod.case by (auto split: if_splits)
  then show "killed = filter (\<lambda>p. \<not> listen p) (checked_ports config)" and "killed = [] \<or> forceRun" using un by (simp, metis map_is_Nil_conv)
qed

lemma gateway_started:
  assumes "runGateway e logFile listen forceRun once = Started g"
  shows "Load e = Inr (gw_config g)" and "gw_node g = new_node (gw_config g)"
    and "gw_killed g = filter (\<lambda>p. \<not> listen p) (checked_ports (gw_config g))" and "gw_killed g = [] \<or> forceRun"
proof -
  obtain cfg available where "Load e = Inr cfg" "port_check listen forceRun cfg = PortsChecked available (gw_killed g)"
    "gw_config g = cfg" "gw_node g = new_node cfg"
    using assms by (auto simp: runGateway_def Let_def split: sum.splits PortCheck.splits)
  then show "Load e = Inr (gw_config g)" and "gw_node g = new_node (gw_config g)"
    and "gw_killed g = filter (\<lambda>p. \<not> listen p) (checked_ports (gw_config g))" and "gw_killed g = [] \<or> forceRun"
    using port_check_passed by blast+
qed


lemma queue_capacity_setting: "cfg_QueueCapacity (load_config e) = v_GetInt (le_viper e) ''queue-capacity''"
  by (simp add: load_config_def Let_def)


section \<open>A request that leaves\<close>

definition sample_news :: GossipMessage where
  "sample_news = empty_message\<lparr>gm_NodeID := ''n2'', gm_PathInfos :=
     [\<lparr>pi_ServiceID = '''', pi_ServicePath = '''', pi_NodePath = ''/a'', pi_Active = 1, pi_QueueLen = 0, pi_Healthy = True,
       pi_MaxConcurrent = 10, pi_Plugin = False\<rparr>]\<rparr>"

definition sample_joined :: Sync where
  "sample_joined = HandleStateMessage open_config 5 sample_news (fst (AddPeer open_config 4 ''n2'' ''10.0.0.2'' (Sync_New Registry_New)))"

definition joined_node :: Node where
  "joined_node = (new_node open_config)\<lparr>nd_admin := (nd_admin (new_node open_config))\<lparr>as_sync := sample_joined\<rparr>\<rparr>"

lemma open_config_port: "base_port (cfg_ListenAddr open_config) = 15050"
proof -
  have "cfg_ListenAddr open_config = '':15050''" by (simp add: open_config_def sample_settings flag_defaults)
  moreover have "sscanf_port '':15050'' = 15050" by code_simp
  ultimately show ?thesis by (simp add: base_port_def)
qed

definition joined_rn :: RemoteNode where
  "joined_rn = \<lparr>rn_NodeID = ''n2'', rn_Address = ''10.0.0.2'', rn_ServicePort = 15050, rn_ServicePath = '''', rn_NodePath = '''', rn_EpID = '''',
     rn_EndpointStates = [(''/a'', \<lparr>es_Active = 1, es_QueueLen = 0, es_Healthy = True, es_MaxConcurrent = 10, es_Plugin = False,
       es_ResponseTime = 0, es_LastSeen = 5\<rparr>)],
     rn_EndpointDescriptions = [(''/a'', \<lparr>md_ServiceID = '''', md_ServicePath = '''', md_NodePath = ''/a'', md_Description = '''',
       md_Plugin = False, md_MaxConcurrent = 10\<rparr>)], rn_LastSeen = 5\<rparr>"

lemma joined_remote: "Registry_GetRemoteNodes (sy_registry sample_joined) = [joined_rn]"
  using open_config_port
  by (simp add: sample_joined_def HandleStateMessage_def sample_news_def empty_message_def apply_path_infos_def ensure_remote_node_def
      AddPeer_def addPeerLocked_def peer_host_port_def Sync_New_def Registry_New_def NewRemoteNodeStore_def registry_remote_ops
      remote_store_ops Registry_GetRemoteNodes_def RemoteNodeStore_List_def Let_def announced_state_def announced_metadata_def
      describe_path_def described_state_def joined_rn_def GetListenAddr_def)

lemma joined_local: "reg_local (sy_registry sample_joined) = NewLocalRegistry"
proof -
  have "gossip_move (Sync_New Registry_New) sample_joined"
    unfolding sample_joined_def by (rule gossip_move_trans [OF move_AddPeer move_state])
  then show ?thesis by (simp add: gossip_move_def Sync_New_def Registry_New_def)
qed

lemma joined_reachable: "node_reachable hmac open_config joined_node"
proof -
  let ?n = "new_node open_config" and ?s = "fst (AddPeer open_config 4 ''n2'' ''10.0.0.2'' (Sync_New Registry_New))"
  let ?r = "\<lparr>rq_method = ''POST'', rq_path = '''', rq_query = [], rq_header = [], rq_remoteAddr = ''''\<rparr>"
  have "map_of AddFlags ''queue-capacity'' = Some (AnyInt 1000)" by (simp add: AddFlags_def)
  then have "0 \<le> cfg_QueueCapacity open_config"
    using queue_capacity_setting [of sample_env] unfolding sample_settings by (simp add: open_config_def)
  then have "node_reachable hmac open_config ?n" by (intro reach_init) (simp add: node_started_def)
  moreover have "nd_sync ?n = Sync_New Registry_New" by (simp add: new_node_def)
  then have "handleConnect open_config (\<lambda>_. JoinAccepted ''n2'') 4 ?r (Decoded ''10.0.0.2'') (nd_admin ?n) =
      (Json ''n2'', (nd_admin ?n)\<lparr>as_sync := ?s\<rparr>, snd (AddPeer open_config 4 ''n2'' ''10.0.0.2'' (Sync_New Registry_New)))"
    by (simp add: handleConnect_def JoinNode_def case_prod_unfold Let_def)
  from n_connect [OF this, of hmac]
  have "node_step hmac open_config ?n (?n\<lparr>nd_admin := (nd_admin ?n)\<lparr>as_sync := ?s\<rparr>\<rparr>)" .
  ultimately have one: "node_reachable hmac open_config (?n\<lparr>nd_admin := (nd_admin ?n)\<lparr>as_sync := ?s\<rparr>\<rparr>)"
    by (rule reach_step)
  define n1 where "n1 = ?n\<lparr>nd_admin := (nd_admin ?n)\<lparr>as_sync := ?s\<rparr>\<rparr>"
  have "handleGossipState open_config 5 ?r (Some sample_news) (nd_sync n1) = (Silent, sample_joined)"
    by (simp add: handleGossipState_def requireGossipAuth_def open_config_def sample_joined_def n1_def)
  from n_state [OF this, of hmac] have "node_step hmac open_config n1 joined_node" by (simp add: n1_def joined_node_def)
  then show ?thesis using one unfolding n1_def [symmetric] by (rule reach_step [rotated])
qed

lemma joined_route:
  "HandleRequest nodeID rss (nd_registry joined_node) (nd_poolMgr joined_node) ''/a'' '''' =
     Routed (candidate_node ''n2'' ''10.0.0.2'' 15050 ''/a'' 1 0 10 False) False"
proof -
  have n: "nd_sync joined_node = sample_joined" "GetRemoteActive (nd_poolMgr joined_node) ''n2'' ''/a'' = 0"
    by (simp_all add: joined_node_def new_node_def NewManagerWithQueueCapacity_def GetRemoteActive_def)
  have "Registry_GetAllLocalEndpoints (sy_registry sample_joined) = []"
    by (simp add: Registry_GetAllLocalEndpoints_def joined_local NewLocalRegistry_def NewLocalEndpointStore_def LocalEndpointStore_GetAll_def)
  then have "getNodesForPath nodeID (nd_registry joined_node) (nd_poolMgr joined_node) ''/a'' [] =
      ([], [candidate_node ''n2'' ''10.0.0.2'' 15050 ''/a'' 1 0 10 False])"
    by (simp add: getNodesForPath_def local_candidates_def best_local_path_def n remote_candidates_def remote_best_len_def joined_remote
        joined_rn_def matchNodePath_def HasPrefix_def remote_candidate_def Let_def)
  then show ?thesis
    by (simp add: HandleRequest_def already_seen_def selectNodeWithFallback_def fallback_candidates_def SelectNode_def Let_def)
qed


end
