(* ===== verification/Spec2Isabelle.thy ===== *)
theory Spec2Isabelle
  imports Pool_Workers Breaker Utils Cluster Plugin_Service Process_Manager Node
begin

text \<open>
  A verification of NovaAIRouter, a cluster of HTTP gateways that route requests to model backends, with a
  plugin that spreads chat requests over the backends and a manager that starts both programs. The sources
  are the Go files under \<open>src/\<close>.

  \<^bold>\<open>The program and how its parts interact.\<close> Backends register at the admin server of a gateway
  (\<open>internal/admin\<close>) and keep their registration alive with heartbeats. The registrations are in the local
  registry (\<open>internal/registry\<close> over the tables of \<open>internal/models\<close>); for each the admin server creates
  a request pool (\<open>internal/pool\<close>). Gossip (\<open>internal/gossip\<close>) announces to the peers, per path, the sums over
  the local endpoints, and enters what the peers announce in the table of remote nodes; discovery finds peers over
  UDP. A request at the business server (\<open>internal/business\<close>) goes to the router, which collects the candidate
  nodes of the path from both tables and lets the balancer choose; the forwarder then puts it into a local
  pool or sends it to the chosen node. The configuration (\<open>internal/config\<close>) is one record shared by all parts.

  \<^bold>\<open>Theories.\<close>
  \<^item> \<open>Prelude\<close>: 32-bit counters as \<open>32 word\<close>, 64-bit values as \<open>int\<close> with the wrap-around written out, Go maps as
    association lists in the order of one iteration, and three interfaces as locales: \<open>kv_store\<close> (a keyed table),
    \<open>two_level_store\<close> (a table under a path and an id) and \<open>invariant_system\<close> (a step relation with an invariant,
    over \<open>reach\<close>). \<open>Go_Strings\<close>, \<open>Float64\<close> and \<open>Duration\<close> are the parts of the Go library that the program
    uses: strings, number printing and reading, query unescaping; finite floats with rounding to 53 bits; \<open>ParseDuration\<close>.
  \<^item> \<open>Endpoint_Store\<close>, \<open>Node_Store\<close> (\<open>models/endpoint.go\<close>, \<open>models/node.go\<close>): the two tables. The first refines a finite map
    from path and id and interprets \<open>two_level_store\<close>; the second interprets \<open>kv_store\<close> and keeps its nodes under their own ids.
  \<^item> \<open>Local_Registry\<close>, \<open>Registry\<close> (\<open>registry/\<close>): registration, removal, heartbeat, expiry sweep and metrics on
    every branch; the aggregates that are announced; the invariant over all sequences of operations.
  \<^item> \<open>Balancer\<close> (\<open>business/balancer\<close>): scores in rounded floats, the tolerance of five percent, the weighted draw.
    Its locale \<open>weighted_picker\<close> is interpreted for the balancer, for the pool choice of the forwarder and for the plugin.
  \<^item> \<open>Pool\<close>, \<open>Pool_Workers\<close> (\<open>pool/pool.go\<close>): manager, counters and the copying of responses; then the workers, the queue, time-outs
    and the shutdown as a step relation with every interleaving.
  \<^item> \<open>Router\<close>, \<open>Forwarder\<close> (\<open>business/router\<close>, \<open>business/forwarder\<close>): matching, candidates, attempts; serving from a
    pool, forwarding with the list of visited nodes. \<open>Business\<close> (\<open>business/server.go\<close>): a whole request, with its answer, the request that
    goes out and the calls of the metrics. \<open>Breaker\<close>: circuit breaker and passive health checks.
  \<^item> \<open>Metrics\<close>, \<open>Logging\<close> (\<open>metrics\<close>, \<open>logger\<close>, \<open>accesslog\<close>): registered families and the calls made; levels, and the access log that
    can be read back.
  \<^item> \<open>Utils\<close>, \<open>Config\<close>, \<open>Config_Center\<close> (\<open>utils\<close>, \<open>config\<close>): addresses; flags, defaults, validation, the managed file; the shared
    record in a heap of configurations, the update channel, the listeners. \<open>Auth\<close>: the three gates of admin, business and gossip.
  \<^item> \<open>Gossip\<close>, \<open>Discovery\<close> (\<open>gossip/\<close>): the peer table, messages sent and handled, joining, health checks; announcements and candidates.
    \<open>Discovery_Service\<close>: the running service with its socket, which refines the history of its datagrams, and what \<open>Stop\<close> achieves.
    \<open>Cluster\<close>: two nodes that find each other and end up routing on each other's figures.
  \<^item> \<open>Admin\<close>, \<open>Admin_Views\<close> (\<open>admin/\<close>): the handlers that change state, on the state of the whole node (registry, peers, pools), then
    the listings, the plugin messages, the web interface and the dispatch of a request.
  \<^item> \<open>Plugin\<close>, \<open>Plugin_Cluster\<close>, \<open>Plugin_Service\<close> (\<open>models_plugin\<close>): sessions, choice of a backend, failover, chat; messages, election,
    synchronisation; start, goroutines and stop.
  \<^item> \<open>Process_Manager\<close> (\<open>cmd/route-manager\<close>) with its locks. \<open>Gateway\<close>, \<open>Service_Manager\<close>, \<open>Node\<close> (\<open>cmd/gateway/main.go\<close>): port check
    and announcement; the two servers, the monitor that restarts them and the signals, interleaved; then what \<open>runGateway\<close> builds, and all
    handlers, discovery, health checks, pools and client requests as one step relation on the state of a node, in which the invariants of
    the parts hold together and every request that leaves goes to a peer.
  \<^item> This theory: what one node announces is what another routes on, and what a reload does to the gates.

  \<^bold>\<open>Correspondence.\<close> A struct is a record with the fields' names behind a short prefix (\<open>ep_\<close>, \<open>rn_\<close>, \<open>rp_\<close>, \<open>sy_\<close>, \<open>cfg_\<close>),
  a method is a definition named \<open>Type_Method\<close>, or \<open>Method\<close> where that is unique; a piece of a longer function that
  is a definition of its own has a descriptive name in lower case. Handlers return the answer, the new state and the
  messages they send. Errors and panics are values of sum and option types, so every early return is a branch.
  The operations of one component that hold its mutex are one step; where the code leaves the mutex or shares
  memory by pointer (pool workers, plugin backends, the configuration) the model has a step relation or a heap.

  \<^bold>\<open>What the theorems show.\<close> Invariants over all reachable states: tables keyed by their own ids, one plugin per
  path, exact in-flight counters, remote nodes among the peers, a pool for exactly the registered endpoints
  with a port. Exact effects, on every branch, of registration, removal, heartbeat, expiry, announcement, state message,
  reload and response copying. Refinement of the endpoint table to a finite map; equivalence of the health checker
  with counting over the whole history; round trip of the default configuration file. Safety of routing, of the
  gates, of discovery and of the choice of backends; the bound on forwards; progress of the pools and of the shutdown;
  the way of a request through a node and of an announcement from one node to the routing of another;
  and where the code falls short, what it does instead, such as the failover that does not
  return, the manager that blocks, the plugin that does not stop and the restart that keeps the gateway from ending.

  \<^bold>\<open>Arguments and their laws.\<close> Outside the model, and therefore arguments of the definitions: random numbers (\<open>rand_ok\<close>: a draw below
  \<open>n\<close> is in \<open>0..<n\<close>), new UUIDs (distinct), the clock, HTTP answers, the YAML codec (reading back what was written), the HMAC function,
  the file system, and request bodies, which arrive decoded or as a decoding failure. A run fixes one
  order for every iteration over a Go map; the theorems hold for each.

  \<^bold>\<open>Fuel.\<close> Only \<open>tryFailover\<close> needs fuel, since it need not return; the theorem on it gives the fuel that is enough, and the case
  where none is. The other loops are structural recursions, loops of goroutines are single steps.

  \<^bold>\<open>Not modelled.\<close> The main functions, which parse flags and call what is modelled; the program that sends UDP packets for a test; the state and
  metadata messages of \<open>models/messages.go\<close>, which nothing uses; sockets, TLS and the starting and killing of processes, of which the
  model has the outcomes; the libraries for logging, metrics, YAML and HMAC. JSON is taken to
  deliver what was encoded, except where a type is lost on the way (\<open>Plugin_Cluster\<close>). Data races on fields the code reads without its mutex
  are outside the model.
\<close>

declare map_of_eq_Some_iff [simp del] Some_eq_map_of_iff [simp del]

section \<open>From the registry of one node to the routing of another\<close>



section \<open>From the configuration file to the gates\<close>

text \<open>
  C39: What a reload of the untouched default file does to the access of the node: the reload is reported as
  failed, but its configuration is installed; from then on the gossip gate admits every request, and the
  admin gate admits the requests from the own host and no key at all.
\<close>

theorem default_reload_changes_access:
  assumes "LoadConfig y fs (NewConfigManager ''novaairouter.yaml'') = (None, cm)" and dflt: "cm_configFile cm = Some (default_file now)"
  shows "\<exists>msg p'. Reload y fs c p = Inr (Some (BroadcastFailed msg), p') \<and>
    fst (requireGossipAuth (pr_heap p' c) r w) \<and>
    (fst (requireAPIKeyOrLocal (pr_heap p' c) r w) \<longleftrightarrow> isLocalRequest r)"
proof -
  have "cfg_APIKey (reloaded_config cm (pr_heap p c)) = '''' \<and> \<not> cfg_DisableAdminAuth (reloaded_config cm (pr_heap p c))"
    using GetValue_default_file [OF dflt]
    by (simp add: getConfigString_def GetString_def getConfigBool_def GetBool_def default_values config_item_def)
  then show ?thesis
    using reload_default_file [OF assms, of c p] by (auto simp: requireGossipAuth_iff requireAPIKeyOrLocal_iff)
qed

theorem default_reload_changes_access_witness:
  "\<exists>msg p'. Reload sample_yaml sample_fs 0 (process_start (load_config sample_env) ''a'' ''b'') = Inr (Some (BroadcastFailed msg), p') \<and>
     fst (requireGossipAuth (pr_heap p' 0) sample_request new_writer)"
proof -
  have "cm_configFile sample_cm = Some (default_file ''t'')" by (simp add: sample_cm_def)
  from default_reload_changes_access [OF sample_load this, of 0 "process_start (load_config sample_env) ''a'' ''b''" sample_request new_writer]
  show ?thesis by blast
qed

end
